(* ===== verification/Prelude.thy ===== *)
theory Prelude
  imports Main
begin

text \<open>
  Shared vocabulary of the development.

  \<^item> Programs. A Go function with effects is a value of type \<open>('w, 'a) go\<close>: a function
    from a world to an outcome and the world after it. The outcome is the returned value
    (\<open>Val\<close>), a run-time panic (\<open>Panic\<close>: nil dereference, index out of range, write to a
    nil map, explicit \<open>panic\<close>) or a loop that never ends (\<open>Hang\<close>). \<open>gbind\<close>, \<open>ret\<close> and
    \<open>gloop\<close> are sequencing, \<open>return\<close> and a \<open>range\<close> loop whose body may leave the
    enclosing function.
  \<^item> Postconditions. \<open>wp m Q w\<close> says that running \<open>m\<close> from \<open>w\<close> ends in an outcome and
    a world satisfying \<open>Q\<close>. The equations in \<open>wp_simps\<close> push \<open>wp\<close> through a program.
  \<^item> Go maps. A map is \<open>None\<close> when nil and \<open>Some f\<close> otherwise; reading a nil map finds
    nothing, writing one panics.
\<close>

named_theorems wp_simps "equations that push wp through program constructs"
named_theorems run_simps "equations that run a program from a given world"
named_theorems emits_intros "rules deriving which events a program may emit"

section \<open>Outcomes and programs\<close>

datatype 'a flow = Val 'a | Panic | Hang

type_synonym ('w, 'a) go = "'w \<Rightarrow> 'a flow \<times> 'w"

definition ret :: "'a \<Rightarrow> ('w, 'a) go" where
  "ret a = (\<lambda>w. (Val a, w))"

definition gpanic :: "('w, 'a) go" where
  "gpanic = (\<lambda>w. (Panic, w))"

definition ghang :: "('w, 'a) go" where
  "ghang = (\<lambda>w. (Hang, w))"

definition gbind :: "('w, 'a) go \<Rightarrow> ('a \<Rightarrow> ('w, 'b) go) \<Rightarrow> ('w, 'b) go" where
  "gbind m f = (\<lambda>w. case m w of
       (Val a, w') \<Rightarrow> f a w'
     | (Panic, w') \<Rightarrow> (Panic, w')
     | (Hang, w') \<Rightarrow> (Hang, w'))"

text \<open>
  \<open>gcheck r k\<close> is Go's \<^verbatim>\<open>if err != nil { return err }\<close>: the error of a result is
  returned, its value is passed on.
\<close>

definition gcheck :: "('e + 'a) \<Rightarrow> ('a \<Rightarrow> ('w, 'e + 'b) go) \<Rightarrow> ('w, 'e + 'b) go" where
  "gcheck r k = (case r of Inl e \<Rightarrow> ret (Inl e) | Inr a \<Rightarrow> k a)"

text \<open>A pure computation that may panic or not return, used inside a program.\<close>

definition glift :: "'a flow \<Rightarrow> ('w, 'a) go" where
  "glift r = (\<lambda>w. (r, w))"

text \<open>
  \<^verbatim>\<open>for _, x := range xs { body }\<close>: the body gets the element and the local state; \<open>Inl r\<close>
  is a \<^verbatim>\<open>return r\<close> inside the body, \<open>Inr s\<close> the state after one round.
\<close>

primrec gloop :: "('x \<Rightarrow> 's \<Rightarrow> ('w, 'r + 's) go) \<Rightarrow> 'x list \<Rightarrow> 's \<Rightarrow> ('w, 'r + 's) go" where
  "gloop f [] s = ret (Inr s)"
| "gloop f (x # xs) s =
     gbind (f x s) (\<lambda>r. case r of Inl v \<Rightarrow> ret (Inl v) | Inr s' \<Rightarrow> gloop f xs s')"

lemmas run_program [run_simps] = ret_def gpanic_def ghang_def gbind_def glift_def

lemma gbind_ret [simp]: "gbind (ret a) f = f a"
  by (simp add: gbind_def ret_def)

lemma gbind_panic [simp]: "gbind gpanic f = gpanic"
  by (simp add: gbind_def gpanic_def)

lemma gbind_assoc: "gbind (gbind m f) g = gbind m (\<lambda>a. gbind (f a) g)"
  by (rule ext) (simp add: gbind_def split: prod.split flow.split)

lemma gcheck_simps [simp]:
  "gcheck (Inl e) k = ret (Inl e)"
  "gcheck (Inr a) k = k a"
  by (simp_all add: gcheck_def)

lemma glift_simps [simp]:
  "glift (Val a) = ret a" "glift Panic = gpanic" "glift Hang = ghang"
  by (simp_all add: glift_def ret_def gpanic_def ghang_def)

section \<open>Errors\<close>

text \<open>
  An error value. \<open>ApiError nf m\<close> comes from a call to the outside (\<open>nf\<close>: it is a Kubernetes
  "not found"); \<open>Errorf fmt args w\<close> is \<^verbatim>\<open>fmt.Errorf\<close> or \<^verbatim>\<open>errors.New\<close> with its format, the
  rendered arguments and the error passed for \<^verbatim>\<open>%w\<close>, \<^verbatim>\<open>%v\<close> or \<^verbatim>\<open>%s\<close>, kept apart instead of rendered into
  one string.
\<close>

datatype err = ApiError bool string | Errorf string "string list" "err option"

abbreviation errorf :: "string \<Rightarrow> string list \<Rightarrow> err" where
  "errorf f args \<equiv> Errorf f args None"

text \<open>
  \<^verbatim>\<open>apierrors.IsNotFound\<close> looks through the errors a format wraps with \<^verbatim>\<open>%w\<close> (an error
  printed with \<^verbatim>\<open>%v\<close> or \<^verbatim>\<open>%s\<close> is only text).
\<close>

fun has_wrap :: "string \<Rightarrow> bool" where
  "has_wrap (a # b # s) \<longleftrightarrow> (a = CHR ''%'' \<and> b = CHR ''w'') \<or> has_wrap (b # s)"
| "has_wrap _ \<longleftrightarrow> False"

fun is_not_found :: "err \<Rightarrow> bool" where
  "is_not_found (ApiError nf m) = nf"
| "is_not_found (Errorf f args (Some e)) = (has_wrap f \<and> is_not_found e)"
| "is_not_found (Errorf f args None) = False"

text \<open>\<^verbatim>\<open>client.IgnoreNotFound\<close>: nil for a "not found", the error itself otherwise.\<close>

definition ignore_not_found :: "err \<Rightarrow> err option" where
  "ignore_not_found e = (if is_not_found e then None else Some e)"

section \<open>Postconditions\<close>

definition wp :: "('w, 'a) go \<Rightarrow> ('a flow \<Rightarrow> 'w \<Rightarrow> bool) \<Rightarrow> 'w \<Rightarrow> bool" where
  "wp m Q w \<longleftrightarrow> (case m w of (r, w') \<Rightarrow> Q r w')"

lemma wpI: "(\<And>r w'. m w = (r, w') \<Longrightarrow> Q r w') \<Longrightarrow> wp m Q w"
  by (simp add: wp_def split: prod.split)

lemma wpD: "wp m Q w \<Longrightarrow> m w = (r, w') \<Longrightarrow> Q r w'"
  by (simp add: wp_def)

lemma wp_ret [wp_simps]: "wp (ret a) Q w = Q (Val a) w"
  by (simp add: wp_def ret_def)

lemma wp_gpanic [wp_simps]: "wp gpanic Q w = Q Panic w"
  by (simp add: wp_def gpanic_def)

lemma wp_ghang [wp_simps]: "wp ghang Q w = Q Hang w"
  by (simp add: wp_def ghang_def)

lemma wp_gbind [wp_simps]:
  "wp (gbind m f) Q w =
     wp m (\<lambda>r w'. case r of Val a \<Rightarrow> wp (f a) Q w' | Panic \<Rightarrow> Q Panic w' | Hang \<Rightarrow> Q Hang w') w"
  by (simp add: wp_def gbind_def split: prod.split flow.split)

lemma wp_gcheck [wp_simps]:
  "wp (gcheck r k) Q w = (case r of Inl e \<Rightarrow> Q (Val (Inl e)) w | Inr a \<Rightarrow> wp (k a) Q w)"
  by (simp add: gcheck_def wp_ret split: sum.split)

lemma wp_glift [wp_simps]: "wp (glift r) Q w = Q r w"
  by (simp add: wp_def glift_def)

lemma wp_if [wp_simps]: "wp (if b then m else n) Q w = (if b then wp m Q w else wp n Q w)"
  by simp

lemma wp_gloop_Nil [wp_simps]: "wp (gloop f [] s) Q w = Q (Val (Inr s)) w"
  by (simp add: wp_ret)

lemma wp_mono: "wp m P w \<Longrightarrow> (\<And>r w'. P r w' \<Longrightarrow> Q r w') \<Longrightarrow> wp m Q w"
  by (auto simp: wp_def split: prod.splits)

lemma wp_conj: "wp m P w \<Longrightarrow> wp m Q w \<Longrightarrow> wp m (\<lambda>r w'. P r w' \<and> Q r w') w"
  by (auto simp: wp_def split: prod.splits)

lemma wp_run: "wp m (\<lambda>x h'. x = v \<and> P h') h \<Longrightarrow> \<exists>h'. m h = (v, h') \<and> P h'"
  by (auto simp: wp_def split: prod.splits)

text \<open>
  The rule for loops: \<open>I done s w\<close> relates the elements already visited, the local state
  and the world.
\<close>

lemma wp_gloop:
  assumes step: "\<And>ds x s w. \<lbrakk>\<exists>es. xs = ds @ x # es; I ds s w\<rbrakk> \<Longrightarrow>
      wp (f x s) (\<lambda>r w'. case r of
           Val (Inr s') \<Rightarrow> I (ds @ [x]) s' w'
         | Val (Inl v) \<Rightarrow> Q (Val (Inl v)) w'
         | Panic \<Rightarrow> Q Panic w' | Hang \<Rightarrow> Q Hang w') w"
    and final: "\<And>s w. I xs s w \<Longrightarrow> Q (Val (Inr s)) w"
    and start: "I [] s w"
  shows "wp (gloop f xs s) Q w"
proof -
  have "\<lbrakk>xs = ds @ es; I ds s w\<rbrakk> \<Longrightarrow> wp (gloop f es s) Q w" for ds es s w
  proof (induction es arbitrary: ds s w)
    case Nil
    then show ?case by (simp add: wp_ret final)
  next
    case (Cons x es)
    have "wp (f x s) (\<lambda>r w'. case r of
           Val (Inr s') \<Rightarrow> I (ds @ [x]) s' w'
         | Val (Inl v) \<Rightarrow> Q (Val (Inl v)) w'
         | Panic \<Rightarrow> Q Panic w' | Hang \<Rightarrow> Q Hang w') w"
      using step Cons.prems by blast
    then show ?case
      unfolding gloop.simps wp_gbind
      by (rule wp_mono)
        (auto simp: wp_ret Cons.prems split: flow.splits sum.splits intro: Cons.IH [of "ds @ [x]" for x])
  qed
  from this [of "[]" xs s w] start show ?thesis by simp
qed

section \<open>Histories: what a program may emit\<close>

text \<open>
  The world of the controllers is the history of the calls they made to the outside,
  newest first. \<open>emits P m\<close>: running \<open>m\<close> only adds events satisfying \<open>P\<close>.
\<close>

definition emits :: "('e \<Rightarrow> bool) \<Rightarrow> ('e list, 'a) go \<Rightarrow> bool" where
  "emits P m \<longleftrightarrow> (\<forall>h. \<exists>es. snd (m h) = es @ h \<and> (\<forall>e\<in>set es. P e))"

lemma emitsD: "emits P m \<Longrightarrow> m h = (r, h') \<Longrightarrow> \<exists>es. h' = es @ h \<and> (\<forall>e\<in>set es. P e)"
  by (metis emits_def snd_conv)

lemma wp_emits: "emits P m \<Longrightarrow> wp m (\<lambda>r h'. \<exists>es. h' = es @ h \<and> (\<forall>e\<in>set es. P e)) h"
  by (auto simp: wp_def dest: emitsD split: prod.split)

lemma emits_ret [emits_intros]: "emits P (ret a)"
  by (simp add: emits_def ret_def)

lemma emits_gpanic [emits_intros]: "emits P gpanic"
  by (simp add: emits_def gpanic_def)

lemma emits_ghang [emits_intros]: "emits P ghang"
  by (simp add: emits_def ghang_def)

lemma emits_glift [emits_intros]: "emits P (glift r)"
  by (simp add: emits_def glift_def)

text \<open>The second program only has to be looked at for values the first one can return.\<close>

lemma emits_gbind_result:
  assumes m: "emits P m" and f: "\<And>a h h'. m h = (Val a, h') \<Longrightarrow> emits P (f a)"
  shows "emits P (gbind m f)"
  unfolding emits_def
proof
  fix h
  obtain r h1 where m1: "m h = (r, h1)" by fastforce
  from emitsD [OF m m1] obtain es where es: "h1 = es @ h" "\<forall>e\<in>set es. P e" by blast
  show "\<exists>es. snd (gbind m f h) = es @ h \<and> (\<forall>e\<in>set es. P e)"
  proof (cases r)
    case (Val a)
    obtain r2 h2 where f2: "f a h1 = (r2, h2)" by fastforce
    from emitsD [OF f f2] m1 Val obtain es2 where "h2 = es2 @ h1" "\<forall>e\<in>set es2. P e" by blast
    with es Val m1 f2 show ?thesis
      by (intro exI [of _ "es2 @ es"]) (auto simp: gbind_def)
  qed (use es m1 in \<open>auto simp: gbind_def\<close>)
qed

lemma emits_gbind [emits_intros]:
  "emits P m \<Longrightarrow> (\<And>a. emits P (f a)) \<Longrightarrow> emits P (gbind m f)"
  by (rule emits_gbind_result)

lemma emits_gcheck [emits_intros]: "(\<And>a. emits P (k a)) \<Longrightarrow> emits P (gcheck r k)"
  by (cases r) (simp_all add: emits_ret)

lemma emits_gloop [emits_intros]:
  "(\<And>x s. emits P (f x s)) \<Longrightarrow> emits P (gloop f xs s)"
proof (induction xs arbitrary: s)
  case Nil
  then show ?case by (simp add: emits_ret)
next
  case (Cons x xs)
  then show ?case
    by (auto intro!: emits_gbind emits_ret split: sum.split)
qed

lemma emits_if [emits_intros]: "emits P m \<Longrightarrow> emits P n \<Longrightarrow> emits P (if b then m else n)"
  by simp

lemma emits_case_option [emits_intros]:
  "emits P m \<Longrightarrow> (\<And>a. emits P (f a)) \<Longrightarrow> emits P (case x of None \<Rightarrow> m | Some a \<Rightarrow> f a)"
  by (cases x) simp_all

lemma emits_case_sum [emits_intros]:
  "(\<And>a. emits P (f a)) \<Longrightarrow> (\<And>b. emits P (g b)) \<Longrightarrow>
    emits P (case x of Inl a \<Rightarrow> f a | Inr b \<Rightarrow> g b)"
  by (cases x) simp_all

lemma emits_case_list [emits_intros]:
  "emits P m \<Longrightarrow> (\<And>a as. emits P (f a as)) \<Longrightarrow>
    emits P (case x of [] \<Rightarrow> m | a # as \<Rightarrow> f a as)"
  by (cases x) simp_all

lemma emits_case_prod [emits_intros]:
  "(\<And>a b. emits P (f a b)) \<Longrightarrow> emits P (case x of (a, b) \<Rightarrow> f a b)"
  by (cases x) simp

lemma emits_case_bool [emits_intros]:
  "emits P m \<Longrightarrow> emits P n \<Longrightarrow> emits P (case b of True \<Rightarrow> m | False \<Rightarrow> n)"
  by (cases b) simp_all

lemma emits_weaken: "emits P m \<Longrightarrow> (\<And>e. P e \<Longrightarrow> Q e) \<Longrightarrow> emits Q m"
  unfolding emits_def by meson

text \<open>
  A view of a history: the values that a partial function picks from its events, newest
  first. A program that emits no picked event leaves the view as it is.
\<close>

definition view :: "('e \<Rightarrow> 'b option) \<Rightarrow> 'e list \<Rightarrow> 'b list" where
  "view f h = List.map_filter f h"

lemma view_simps [simp]:
  "view f [] = []"
  "view f (e # h) = (case f e of None \<Rightarrow> view f h | Some b \<Rightarrow> b # view f h)"
  "view f (h @ h') = view f h @ view f h'"
  by (simp_all add: view_def List.map_filter_def split: option.split)

lemma view_None: "(\<forall>e\<in>set es. f e = None) \<Longrightarrow> view f es = []"
  by (induction es) simp_all

lemma view_Cons_other: "f e = None \<Longrightarrow> view f (e # h) = view f h"
  by simp

lemma wp_view:
  assumes "emits (\<lambda>e. f e = None) m"
  shows "wp m (\<lambda>r h'. view f h' = view f h \<and> set h \<subseteq> set h') h"
  by (rule wp_mono [OF wp_emits [OF assms]]) (auto simp: view_None)

section \<open>Runs of a controller\<close>

text \<open>
  A controller is a step per request key. Its runs are the histories it takes part in: steps
  for any keys in any order and number and, between them, events of others (those that
  satisfy \<open>other\<close>).
\<close>

inductive controller_run :: "('k \<Rightarrow> ('e list, 'a) go) \<Rightarrow> ('e \<Rightarrow> bool) \<Rightarrow> 'e list \<Rightarrow> bool" for step other where
  start: "controller_run step other []"
| reconcile: "controller_run step other h \<Longrightarrow> step k h = (x, h') \<Longrightarrow> controller_run step other h'"
| outside: "controller_run step other h \<Longrightarrow> other e \<Longrightarrow> controller_run step other (e # h)"

text \<open>Every event of the history is allowed by what happened before it.\<close>

primrec guarded :: "('e \<Rightarrow> 'e list \<Rightarrow> bool) \<Rightarrow> 'e list \<Rightarrow> bool" where
  "guarded P [] = True"
| "guarded P (e # h) = (guarded P h \<and> P e h)"

lemma guarded_append: "guarded P h \<Longrightarrow> (\<And>ds e es'. es = ds @ e # es' \<Longrightarrow> P e (es' @ h)) \<Longrightarrow> guarded P (es @ h)"
proof (induction es)
  case (Cons e es)
  have "guarded P (es @ h)" by (rule Cons.IH [OF Cons.prems(1)]) (rule Cons.prems(2) [of "e # ds" for ds], simp)
  then show ?case using Cons.prems(2) [of "[]" e es] by simp
qed simp

lemma guarded_split: "guarded P (es @ e # h) \<Longrightarrow> P e h"
  by (induction es) auto

text \<open>A program whose events are allowed at its start, and stay so, keeps the history guarded.\<close>

lemma wp_guarded:
  assumes m: "emits (\<lambda>e. P e h) m" and mono: "\<And>e es. P e h \<Longrightarrow> P e (es @ h)" and h: "guarded P h"
  shows "wp m (\<lambda>r h'. guarded P h' \<and> set h \<subseteq> set h') h"
  by (rule wp_mono [OF wp_emits [OF m]]) (auto intro!: guarded_append [OF h] mono)

text \<open>
  The contract of a controller with respect to a guard: each step keeps guarded histories
  guarded, and events of others need no permission. Then all its runs are guarded.
\<close>

locale controller =
  fixes step :: "'k \<Rightarrow> ('e list, 'a) go" and other :: "'e \<Rightarrow> bool" and guard :: "'e \<Rightarrow> 'e list \<Rightarrow> bool"
  assumes step_guarded: "guarded guard h \<Longrightarrow> wp (step k) (\<lambda>r h'. guarded guard h') h"
    and other_allowed: "other e \<Longrightarrow> guard e h"
begin

lemma run_guarded: "controller_run step other h \<Longrightarrow> guarded guard h"
  by (induction rule: controller_run.induct) (auto dest: wpD [OF step_guarded] other_allowed)

lemma run_event: "controller_run step other (es @ e # h) \<Longrightarrow> guard e h"
  by (rule guarded_split [OF run_guarded])

end

section \<open>Go maps and slices\<close>

type_synonym gomap = "(string \<rightharpoonup> string) option"

definition map_get :: "gomap \<Rightarrow> string \<Rightarrow> string option" where
  "map_get m k = (case m of None \<Rightarrow> None | Some f \<Rightarrow> f k)"

definition map_put :: "gomap \<Rightarrow> string \<Rightarrow> string \<Rightarrow> gomap flow" where
  "map_put m k v = (case m of None \<Rightarrow> Panic | Some f \<Rightarrow> Val (Some (f(k \<mapsto> v))))"

text \<open>The idiom \<^verbatim>\<open>if m == nil { m = map[string]string{} }; m[k] = v\<close>.\<close>

definition map_put_alloc :: "gomap \<Rightarrow> string \<Rightarrow> string \<Rightarrow> gomap" where
  "map_put_alloc m k v = (case m of None \<Rightarrow> Some [k \<mapsto> v] | Some f \<Rightarrow> Some (f(k \<mapsto> v)))"

text \<open>Deleting from a nil map does nothing.\<close>

definition map_del :: "gomap \<Rightarrow> string \<Rightarrow> gomap" where
  "map_del m k = map_option (\<lambda>f. f(k := None)) m"

lemma map_get_simps [simp]:
  "map_get None k = None" "map_get (Some f) k = f k"
  by (simp_all add: map_get_def)

lemma map_put_simps [simp]:
  "map_put None k v = Panic" "map_put (Some f) k v = Val (Some (f(k \<mapsto> v)))"
  by (simp_all add: map_put_def)

lemma map_get_put_alloc [simp]:
  "map_get (map_put_alloc m k v) k' = (if k' = k then Some v else map_get m k')"
  by (simp add: map_put_alloc_def split: option.split)

lemma map_get_del [simp]: "map_get (map_del m k) k' = (if k' = k then None else map_get m k')"
  by (cases m) (simp_all add: map_del_def)

text \<open>Reading a slice out of range panics.\<close>

definition nth_go :: "'a list \<Rightarrow> nat \<Rightarrow> 'a flow" where
  "nth_go xs i = (if i < length xs then Val (xs ! i) else Panic)"

lemma nth_go_simps [simp]:
  "nth_go [] i = Panic" "nth_go (x # xs) 0 = Val x" "nth_go (x # xs) (Suc i) = nth_go xs i"
  by (simp_all add: nth_go_def)

end
