(* ===== verification/GoStrings.thy ===== *)
theory GoStrings
  imports Prelude
begin

text \<open>
  The parts of Go's \<^verbatim>\<open>strings\<close>, \<^verbatim>\<open>strconv\<close> and \<^verbatim>\<open>fmt\<close> the operator uses, on byte strings
  (\<open>char\<close> is a byte). \<open>dec\<close> and \<open>hex\<close> print like \<^verbatim>\<open>%d\<close> and \<^verbatim>\<open>%x\<close>, \<open>pad0\<close> is the zero
  padding of \<^verbatim>\<open>%04x\<close>; \<open>index_of\<close>, \<open>split_on\<close>, \<open>join\<close> and \<open>trim_space\<close> are \<^verbatim>\<open>strings.Index\<close>,
  \<^verbatim>\<open>Split\<close> (one-byte separator), \<^verbatim>\<open>Join\<close> and \<^verbatim>\<open>TrimSpace\<close>. The lemmas are the round trips of
  the number formats and the laws of searching and splitting.
\<close>

section \<open>Digits\<close>

fun digits :: "nat \<Rightarrow> nat \<Rightarrow> nat list" where
  "digits b n = (if b < 2 \<or> n < b then [n] else digits b (n div b) @ [n mod b])"

declare digits.simps [simp del]

definition from_digits :: "nat \<Rightarrow> nat list \<Rightarrow> nat" where
  "from_digits b ds = foldl (\<lambda>a d. a * b + d) 0 ds"

lemma digits_nonempty [simp]: "digits b n \<noteq> []"
  by (subst digits.simps) simp

lemma digits_small: "n < b \<Longrightarrow> digits b n = [n]"
  by (subst digits.simps) simp

lemma digits_step: "2 \<le> b \<Longrightarrow> b \<le> n \<Longrightarrow> digits b n = digits b (n div b) @ [n mod b]"
  by (subst digits.simps) simp

lemma from_digits_snoc [simp]: "from_digits b (ds @ [d]) = from_digits b ds * b + d"
  by (simp add: from_digits_def)

lemma from_digits_digits [simp]: "from_digits b (digits b n) = n"
proof (induction b n rule: digits.induct)
  case (1 b n)
  show ?case
  proof (cases "b < 2 \<or> n < b")
    case True
    then have "digits b n = [n]" by (subst digits.simps) simp
    then show ?thesis by (simp add: from_digits_def)
  next
    case False
    then show ?thesis using 1 by (simp add: digits_step)
  qed
qed

lemma digits_less: "2 \<le> b \<Longrightarrow> d \<in> set (digits b n) \<Longrightarrow> d < b"
proof (induction b n rule: digits.induct)
  case (1 b n)
  show ?case
  proof (cases "n < b")
    case True
    then show ?thesis using 1 by (simp add: digits_small)
  next
    case False
    then have "digits b n = digits b (n div b) @ [n mod b]" using "1.prems" by (simp add: digits_step)
    then show ?thesis using 1 False by auto
  qed
qed

lemma digits10_less: "\<forall>d\<in>set (digits 10 n). d < 10"
  by (auto dest: digits_less [rotated])

lemma length_digits: "2 \<le> b \<Longrightarrow> 0 < k \<Longrightarrow> n < b ^ k \<Longrightarrow> length (digits b n) \<le> k"
proof (induction k arbitrary: n)
  case 0
  then show ?case by simp
next
  case (Suc k)
  show ?case
  proof (cases "n < b")
    case True
    then show ?thesis by (simp add: digits_small)
  next
    case False
    then have k: "0 < k" using Suc.prems by (cases k) auto
    have "n div b < b ^ k" using Suc.prems by (simp add: less_mult_imp_div_less mult.commute)
    then show ?thesis using Suc k False by (simp add: digits_step)
  qed
qed

lemma digits_hd: "2 \<le> b \<Longrightarrow> 0 < n \<Longrightarrow> hd (digits b n) \<noteq> 0"
proof (induction b n rule: digits.induct)
  case (1 b n)
  show ?case
  proof (cases "n < b")
    case True
    then show ?thesis using 1 by (simp add: digits_small)
  next
    case False
    then have "0 < n div b" using "1.prems" by (simp add: div_greater_zero_iff)
    then show ?thesis using 1 False by (simp add: digits_step)
  qed
qed

section \<open>Printing and reading numbers\<close>

definition digit_char :: "nat \<Rightarrow> char" where
  "digit_char d = (if d < 16 then ''0123456789abcdef'' ! d else CHR ''?'')"

definition dec :: "nat \<Rightarrow> string" where
  "dec n = map digit_char (digits 10 n)"

definition hex :: "nat \<Rightarrow> string" where
  "hex n = map digit_char (digits 16 n)"

definition dec_int :: "int \<Rightarrow> string" where
  "dec_int i = (if i < 0 then CHR ''-'' # dec (nat (- i)) else dec (nat i))"

definition pad0 :: "nat \<Rightarrow> string \<Rightarrow> string" where
  "pad0 w s = replicate (w - length s) CHR ''0'' @ s"

definition digit_val :: "char \<Rightarrow> nat option" where
  "digit_val c = (let n = of_char c :: nat in if 48 \<le> n \<and> n \<le> 57 then Some (n - 48) else None)"

definition hex_val :: "char \<Rightarrow> nat option" where
  "hex_val c = (let n = of_char c :: nat in
     if 48 \<le> n \<and> n \<le> 57 then Some (n - 48)
     else if 97 \<le> n \<and> n \<le> 102 then Some (n - 87)
     else if 65 \<le> n \<and> n \<le> 70 then Some (n - 55)
     else None)"

lemma less_16_cases:
  "(d::nat) < 16 \<Longrightarrow> d \<in> {0, 1, 2, 3, 4, 5, 6, 7, 8, 9, 10, 11, 12, 13, 14, 15}"
  unfolding insert_iff empty_iff by presburger

lemma hex_val_digit_char [simp]: "d < 16 \<Longrightarrow> hex_val (digit_char d) = Some d"
  by (drule less_16_cases) (auto simp: digit_char_def hex_val_def)

lemma digit_val_digit_char [simp]: "d < 10 \<Longrightarrow> digit_val (digit_char d) = Some d"
proof -
  assume "d < 10"
  then have "d \<in> {0, 1, 2, 3, 4, 5, 6, 7, 8, 9}" by auto
  then show ?thesis by (auto simp: digit_char_def digit_val_def)
qed

lemma digit_val_Some: "digit_val c = Some d \<Longrightarrow> d < 10"
  by (auto simp: digit_val_def Let_def split: if_splits)

lemma hex_val_Some: "hex_val c = Some d \<Longrightarrow> d < 16"
  by (auto simp: hex_val_def Let_def split: if_splits)

definition hex_read :: "string \<Rightarrow> nat" where
  "hex_read s = from_digits 16 (map (the \<circ> hex_val) s)"

definition dec_read :: "string \<Rightarrow> nat" where
  "dec_read s = from_digits 10 (map (the \<circ> digit_val) s)"

lemma hex_read_hex [simp]: "hex_read (hex n) = n"
proof -
  have "map (the \<circ> hex_val \<circ> digit_char) (digits 16 n) = map id (digits 16 n)"
    by (rule map_cong) (auto dest!: digits_less [rotated])
  then show ?thesis by (simp add: hex_read_def hex_def comp_assoc)
qed

lemma dec_read_dec [simp]: "dec_read (dec n) = n"
proof -
  have "map (the \<circ> digit_val \<circ> digit_char) (digits 10 n) = map id (digits 10 n)"
    by (rule map_cong) (auto dest!: digits_less [rotated])
  then show ?thesis by (simp add: dec_read_def dec_def comp_assoc)
qed

lemma dec_inject [simp]: "dec m = dec n \<longleftrightarrow> m = n"
  by (metis dec_read_dec)

lemma hex_inject [simp]: "hex m = hex n \<longleftrightarrow> m = n"
  by (metis hex_read_hex)

lemma dec_nonempty [simp]: "dec n \<noteq> []"
  by (simp add: dec_def)

lemma hex_nonempty [simp]: "hex n \<noteq> []"
  by (simp add: hex_def)

lemma foldl_zeros: "foldl (\<lambda>a d. a * b + d) (0::nat) (replicate k 0 @ ds) = foldl (\<lambda>a d. a * b + d) 0 ds"
  by (induction k) simp_all

lemma hex_read_pad0 [simp]: "hex_read (pad0 w s) = hex_read s"
proof -
  have "(the \<circ> hex_val) CHR ''0'' = 0" by (simp add: hex_val_def)
  then show ?thesis
    by (simp add: hex_read_def pad0_def from_digits_def foldl_zeros del: foldl_append comp_apply)
qed

lemma pad0_hex_inject [simp]: "pad0 w (hex m) = pad0 w (hex n) \<longleftrightarrow> m = n"
  by (metis hex_read_hex hex_read_pad0)

lemma length_pad0: "length (pad0 w s) = max w (length s)"
  by (simp add: pad0_def)

definition is_dec_digit :: "char \<Rightarrow> bool" where
  "is_dec_digit c \<longleftrightarrow> digit_val c \<noteq> None"

definition is_hex_digit :: "char \<Rightarrow> bool" where
  "is_hex_digit c \<longleftrightarrow> hex_val c \<noteq> None"

lemma dec_digits: "c \<in> set (dec n) \<Longrightarrow> is_dec_digit c"
  by (auto simp: dec_def is_dec_digit_def dest!: digits_less [rotated])

lemma hex_digits: "c \<in> set (hex n) \<Longrightarrow> is_hex_digit c"
  by (auto simp: hex_def is_hex_digit_def dest!: digits_less [rotated])

lemma pad0_hex_digits: "c \<in> set (pad0 w (hex n)) \<Longrightarrow> is_hex_digit c"
  by (auto simp: pad0_def dest: hex_digits) (auto simp: is_hex_digit_def hex_val_def)

lemma dec_no_char: "\<not> is_dec_digit c \<Longrightarrow> c \<notin> set (dec n)"
  using dec_digits by blast

lemma hex_length_le: "0 < k \<Longrightarrow> n < 16 ^ k \<Longrightarrow> length (hex n) \<le> k"
  by (simp add: hex_def length_digits)

lemma dec_length_le: "0 < k \<Longrightarrow> n < 10 ^ k \<Longrightarrow> length (dec n) \<le> k"
  by (simp add: dec_def length_digits)

section \<open>Searching\<close>

definition starts_with :: "string \<Rightarrow> string \<Rightarrow> bool" where
  "starts_with kw s \<longleftrightarrow> take (length kw) s = kw"

fun index_of :: "string \<Rightarrow> string \<Rightarrow> nat option" where
  "index_of [] kw = (if kw = [] then Some 0 else None)"
| "index_of (c # s) kw =
     (if starts_with kw (c # s) then Some 0 else map_option Suc (index_of s kw))"

lemma starts_with_iff: "starts_with kw s \<longleftrightarrow> (\<exists>t. s = kw @ t)"
  unfolding starts_with_def by (metis append_eq_conv_conj append_take_drop_id)

lemma index_of_Some:
  "index_of s kw = Some i \<Longrightarrow> s = take i s @ kw @ drop (i + length kw) s"
proof (induction s kw arbitrary: i rule: index_of.induct)
  case (1 kw)
  then show ?case by (auto split: if_splits)
next
  case (2 c s kw)
  show ?case
  proof (cases "starts_with kw (c # s)")
    case True
    then show ?thesis using "2.prems" by (auto simp: starts_with_iff)
  next
    case False
    then show ?thesis using 2 by auto
  qed
qed

lemma index_of_None: "index_of s kw = None \<Longrightarrow> s \<noteq> u @ kw @ v"
proof (induction s kw arbitrary: u rule: index_of.induct)
  case (1 kw)
  then show ?case by (auto split: if_splits)
next
  case (2 c s kw)
  then have ns: "\<not> starts_with kw (c # s)" and n: "index_of s kw = None"
    by (auto split: if_splits)
  show ?case
  proof (cases u)
    case Nil
    then show ?thesis using ns by (auto simp: starts_with_iff)
  next
    case (Cons d u')
    then show ?thesis using 2 ns n by auto
  qed
qed

text \<open>The first occurrence is found even behind a prefix, if the prefix has none and is
  closed by a byte the keyword does not contain.\<close>

lemma index_of_skip:
  assumes "c \<notin> set kw" "kw \<noteq> []" "index_of p kw = None"
  shows "index_of (p @ c # s) kw = map_option (\<lambda>i. length p + 1 + i) (index_of s kw)"
  using assms(3)
proof (induction p)
  case Nil
  have "\<not> starts_with kw (c # s)"
    using assms(1,2) by (cases kw) (auto simp: starts_with_iff)
  then show ?case by (simp add: option.map_comp comp_def)
next
  case (Cons x p)
  then have ns: "\<not> starts_with kw (x # p)" and n: "index_of p kw = None"
    by (auto split: if_splits)
  have "\<not> starts_with kw (x # p @ c # s)"
  proof
    assume "starts_with kw (x # p @ c # s)"
    then obtain t where t: "(x # p) @ c # s = kw @ t" by (auto simp: starts_with_iff)
    then consider u where "x # p = kw @ u" | u where "x # p @ [c] @ u = kw"
      by (auto simp: append_eq_append_conv2 Cons_eq_append_conv append_eq_Cons_conv)
    then show False
    proof cases
      case 1
      then show False using ns by (simp add: starts_with_iff)
    next
      case 2
      then show False using assms(1) by auto
    qed
  qed
  then show ?case using Cons.IH [OF n] by (simp add: option.map_comp comp_def)
qed

section \<open>Splitting, joining, trimming\<close>

fun split_on :: "char \<Rightarrow> string \<Rightarrow> string list" where
  "split_on c [] = [[]]"
| "split_on c (x # xs) =
     (if x = c then [] # split_on c xs
      else case split_on c xs of [] \<Rightarrow> [[x]] | y # ys \<Rightarrow> (x # y) # ys)"

fun join :: "string \<Rightarrow> string list \<Rightarrow> string" where
  "join sep [] = []"
| "join sep [x] = x"
| "join sep (x # y # ys) = x @ sep @ join sep (y # ys)"

lemma split_on_no_sep: "c \<notin> set s \<Longrightarrow> split_on c s = [s]"
  by (induction s) auto

lemma split_on_append: "c \<notin> set p \<Longrightarrow> split_on c (p @ c # s) = p # split_on c s"
  by (induction p) (auto simp: split_on_no_sep split: list.split)

lemma split_on_join:
  "xs \<noteq> [] \<Longrightarrow> (\<And>x. x \<in> set xs \<Longrightarrow> c \<notin> set x) \<Longrightarrow> split_on c (join [c] xs) = xs"
  by (induction "[c]" xs rule: join.induct) (auto simp: split_on_no_sep split_on_append)

lemma set_join: "set (join sep xs) \<subseteq> set sep \<union> \<Union> (set ` set xs)"
  by (induction sep xs rule: join.induct) auto

text \<open>The byte sequences of the runes \<^verbatim>\<open>unicode.IsSpace\<close> accepts.\<close>

definition space_seqs :: "string list" where
  "space_seqs =
     [[CHR 0x09], [CHR 0x0A], [CHR 0x0B], [CHR 0x0C], [CHR 0x0D], [CHR 0x20],
      [CHR 0xC2, CHR 0x85], [CHR 0xC2, CHR 0xA0], [CHR 0xE1, CHR 0x9A, CHR 0x80],
      [CHR 0xE2, CHR 0x80, CHR 0x80], [CHR 0xE2, CHR 0x80, CHR 0x81],
      [CHR 0xE2, CHR 0x80, CHR 0x82], [CHR 0xE2, CHR 0x80, CHR 0x83],
      [CHR 0xE2, CHR 0x80, CHR 0x84], [CHR 0xE2, CHR 0x80, CHR 0x85],
      [CHR 0xE2, CHR 0x80, CHR 0x86], [CHR 0xE2, CHR 0x80, CHR 0x87],
      [CHR 0xE2, CHR 0x80, CHR 0x88], [CHR 0xE2, CHR 0x80, CHR 0x89],
      [CHR 0xE2, CHR 0x80, CHR 0x8A], [CHR 0xE2, CHR 0x80, CHR 0xA8],
      [CHR 0xE2, CHR 0x80, CHR 0xA9], [CHR 0xE2, CHR 0x80, CHR 0xAF],
      [CHR 0xE2, CHR 0x81, CHR 0x9F], [CHR 0xE3, CHR 0x80, CHR 0x80]]"

fun strip_prefix :: "string list \<Rightarrow> string \<Rightarrow> string option" where
  "strip_prefix [] s = None"
| "strip_prefix (w # ws) s =
     (if starts_with w s then Some (drop (length w) s) else strip_prefix ws s)"

lemma strip_prefix_shorter:
  "strip_prefix ws s = Some t \<Longrightarrow> [] \<notin> set ws \<Longrightarrow> length t < length s"
proof (induction ws)
  case (Cons w ws)
  then show ?case by (cases "starts_with w s") (auto simp: starts_with_iff)
qed simp

function trim_prefixes :: "string list \<Rightarrow> string \<Rightarrow> string" where
  "trim_prefixes ws s =
     (if [] \<in> set ws then s
      else case strip_prefix ws s of None \<Rightarrow> s | Some t \<Rightarrow> trim_prefixes ws t)"
  by pat_completeness auto
termination
  by (relation "measure (length \<circ> snd)") (auto dest: strip_prefix_shorter)

declare trim_prefixes.simps [simp del]

definition trim_space :: "string \<Rightarrow> string" where
  "trim_space s = rev (trim_prefixes (map rev space_seqs) (rev (trim_prefixes space_seqs s)))"

text \<open>Printable ASCII other than the blank: nothing to trim.\<close>

definition plain_char :: "char \<Rightarrow> bool" where
  "plain_char c \<longleftrightarrow> 0x20 < (of_char c :: nat) \<and> (of_char c :: nat) < 0x7F"

lemma strip_prefix_None:
  "plain_char c \<Longrightarrow> list_all (\<lambda>w. w \<noteq> [] \<and> \<not> plain_char (hd w)) ws \<Longrightarrow> strip_prefix ws (c # s) = None"
proof (induction ws)
  case (Cons w ws)
  then show ?case by (cases w) (auto simp: starts_with_iff)
qed simp

lemma strip_prefix_plain:
  assumes "plain_char c"
  shows "strip_prefix space_seqs (c # s) = None" "strip_prefix (map rev space_seqs) (c # s) = None"
  by (rule strip_prefix_None [OF assms], simp add: space_seqs_def plain_char_def)+

lemma trim_prefixes_plain:
  assumes "plain_char c"
  shows "trim_prefixes space_seqs (c # s) = c # s"
    "trim_prefixes (map rev space_seqs) (c # s) = c # s"
  by (subst trim_prefixes.simps, simp add: strip_prefix_plain [OF assms])+

lemma trim_prefixes_Nil: "trim_prefixes ws [] = []"
proof -
  have "[] \<notin> set ws \<Longrightarrow> strip_prefix ws [] = None"
    by (induction ws) (auto simp: starts_with_iff)
  then show ?thesis by (subst trim_prefixes.simps) (auto split: option.split)
qed

lemma trim_space_Nil [simp]: "trim_space [] = []"
  by (simp add: trim_space_def trim_prefixes_Nil)

lemma trim_space_plain:
  assumes "s \<noteq> []" "plain_char (hd s)" "plain_char (last s)"
  shows "trim_space s = s"
proof -
  obtain c t where s: "s = c # t" using assms(1) by (cases s) auto
  obtain d u where r: "rev s = d # u" using assms(1) by (cases "rev s") auto
  have "d = last s" using r assms(1) by (metis hd_rev list.sel(1))
  then have d: "trim_prefixes (map rev space_seqs) (rev s) = rev s"
    unfolding r using assms(3) trim_prefixes_plain(2) by simp
  have c: "trim_prefixes space_seqs s = s" using assms(2) s by (simp add: trim_prefixes_plain)
  show ?thesis by (simp add: trim_space_def c d)
qed

lemma trim_space_blank [simp]: "trim_space (CHR '' '' # s) = trim_space s"
proof -
  have "trim_prefixes space_seqs (CHR '' '' # s) = trim_prefixes space_seqs s"
    by (subst trim_prefixes.simps) (simp add: space_seqs_def starts_with_def)
  then show ?thesis by (simp add: trim_space_def)
qed

section \<open>Formatting slices\<close>

text \<open>\<^verbatim>\<open>%s\<close> applied to a \<^verbatim>\<open>[]string\<close> prints it in brackets, separated by blanks.\<close>

definition fmt_strings :: "string list \<Rightarrow> string" where
  "fmt_strings xs = ''['' @ join '' '' xs @ '']''"

end
