(* ===== verification/GoNet.thy ===== *)
theory GoNet
  imports GoStrings "HOL-Library.Word"
begin

text \<open>
  The parts of Go's \<^verbatim>\<open>net\<close> and \<^verbatim>\<open>net/netip\<close> the operator uses. A \<^verbatim>\<open>net.IP\<close> is a list of
  bytes (\<open>8 word\<close>, so an increment wraps around), 4 or 16 of them, \<open>[]\<close> for nil; an
  \<^verbatim>\<open>*net.IPNet\<close> is the record \<open>ipnet\<close>. \<open>parse_ip\<close>, \<open>parse_cidr\<close>, \<open>ip_string\<close>, \<open>to4\<close>,
  \<open>contains\<close> and \<open>mask_size\<close> are \<^verbatim>\<open>ParseIP\<close>, \<^verbatim>\<open>ParseCIDR\<close>, \<^verbatim>\<open>IP.String\<close>, \<^verbatim>\<open>IP.To4\<close>,
  \<^verbatim>\<open>IPNet.Contains\<close> and \<^verbatim>\<open>IPMask.Size\<close>, for both address families. The lemmas are the
  IPv4 round trip between text and bytes, and the reading of masks.
\<close>

unbundle bit_operations_syntax

type_synonym ip = "8 word list"

record ipnet =
  net_ip :: ip
  net_mask :: ip

section \<open>Address text to bytes\<close>

text \<open>\<^verbatim>\<open>parseIPv4Fields\<close>: the fields read so far, the current field, its number of digits.\<close>

fun v4_fields :: "nat list \<Rightarrow> nat \<Rightarrow> nat \<Rightarrow> string \<Rightarrow> nat list option" where
  "v4_fields fs v dl [] = (if length fs < 3 then None else Some (fs @ [v]))"
| "v4_fields fs v dl (c # s) =
     (case digit_val c of
        Some d \<Rightarrow>
          if dl = 1 \<and> v = 0 then None
          else if v * 10 + d > 255 then None
          else v4_fields fs (v * 10 + d) (dl + 1) s
      | None \<Rightarrow>
          if c \<noteq> CHR ''.'' then None
          else if dl = 0 \<or> s = [] then None
          else if length fs = 3 then None
          else v4_fields (fs @ [v]) 0 0 s)"

definition v4_in_v6 :: ip where
  "v4_in_v6 = replicate 10 0 @ [255, 255]"

definition parse_v4 :: "string \<Rightarrow> ip option" where
  "parse_v4 s = map_option (\<lambda>fs. map of_nat fs) (v4_fields [] 0 0 s)"

text \<open>One group of hexadecimal digits: number of digits, value, rest of the input.\<close>

fun v6_hex :: "nat \<Rightarrow> nat \<Rightarrow> string \<Rightarrow> (nat \<times> nat \<times> string) option" where
  "v6_hex off acc [] = Some (off, acc, [])"
| "v6_hex off acc (c # s) =
     (case hex_val c of
        None \<Rightarrow> Some (off, acc, c # s)
      | Some d \<Rightarrow>
          if off > 3 then None
          else if acc * 16 + d > 65535 then None
          else v6_hex (off + 1) (acc * 16 + d) s)"

text \<open>The main loop of \<^verbatim>\<open>parseIPv6\<close>: bytes so far, position of the ellipsis, input left.\<close>

function v6_loop :: "ip \<Rightarrow> nat option \<Rightarrow> string \<Rightarrow> (ip \<times> nat option \<times> string) option" where
  "v6_loop bs ell s =
     (if 16 \<le> length bs then Some (bs, ell, s)
      else case v6_hex 0 0 s of
        None \<Rightarrow> None
      | Some (off, acc, r) \<Rightarrow>
          if off = 0 then None
          else if r \<noteq> [] \<and> hd r = CHR ''.'' then
            (if ell = None \<and> length bs \<noteq> 12 then None
             else if length bs + 4 > 16 then None
             else case v4_fields [] 0 0 s of
               None \<Rightarrow> None
             | Some fs \<Rightarrow> Some (bs @ map of_nat fs, ell, []))
          else
            (let bs' = bs @ [of_nat (acc div 256), of_nat (acc mod 256)] in
             case r of
               [] \<Rightarrow> Some (bs', ell, [])
             | [c] \<Rightarrow> None
             | c # d # s1 \<Rightarrow>
                 if c \<noteq> CHR '':'' then None
                 else if d = CHR '':'' then
                   (if ell \<noteq> None then None
                    else if s1 = [] then Some (bs', Some (length bs'), [])
                    else v6_loop bs' (Some (length bs')) s1)
                 else v6_loop bs' ell (d # s1)))"
  by pat_completeness auto
termination
  by (relation "measure (\<lambda>(bs, ell, s). 16 - length bs)") auto

declare v6_loop.simps [simp del]

definition v6_finish :: "ip \<times> nat option \<times> string \<Rightarrow> ip option" where
  "v6_finish r = (case r of (bs, ell, s) \<Rightarrow>
     if s \<noteq> [] then None
     else if length bs < 16 then
       (case ell of None \<Rightarrow> None
        | Some e \<Rightarrow> Some (take e bs @ replicate (16 - length bs) 0 @ drop e bs))
     else if ell \<noteq> None then None
     else Some bs)"

text \<open>
  An address with a zone (\<^verbatim>\<open>%eth0\<close>) is refused by both callers of \<^verbatim>\<open>netip.ParseAddr\<close> in
  \<^verbatim>\<open>net\<close>, so it is refused here.
\<close>

definition parse_v6 :: "string \<Rightarrow> ip option" where
  "parse_v6 s =
     (if CHR ''%'' \<in> set s then None
      else if starts_with ''::'' s then
        (if drop 2 s = [] then Some (replicate 16 0)
         else Option.bind (v6_loop [] (Some 0) (drop 2 s)) v6_finish)
      else Option.bind (v6_loop [] None s) v6_finish)"

text \<open>\<^verbatim>\<open>netip.ParseAddr\<close>: the bit length of the family, and the 16-byte form.\<close>

definition parse_addr :: "string \<Rightarrow> (nat \<times> ip) option" where
  "parse_addr s =
     (case dropWhile (\<lambda>c. c \<notin> set ''.:%'') s of
        [] \<Rightarrow> None
      | c # _ \<Rightarrow>
          if c = CHR ''.'' then map_option (\<lambda>b. (32, v4_in_v6 @ b)) (parse_v4 s)
          else if c = CHR '':'' then map_option (\<lambda>b. (128, b)) (parse_v6 s)
          else None)"

definition parse_ip :: "string \<Rightarrow> ip option" where
  "parse_ip s = map_option snd (parse_addr s)"

section \<open>Masks and networks\<close>

fun cidr_mask :: "nat \<Rightarrow> nat \<Rightarrow> ip" where
  "cidr_mask ones 0 = []"
| "cidr_mask ones (Suc l) =
     (if 8 \<le> ones then 255 # cidr_mask (ones - 8) l
      else NOT (drop_bit ones 255) # cidr_mask 0 l)"

definition byte_bits :: "8 word \<Rightarrow> bool list" where
  "byte_bits b = map (\<lambda>i. bit b i) [7, 6, 5, 4, 3, 2, 1, 0]"

text \<open>\<^verbatim>\<open>IPMask.Size\<close>: \<open>(0, 0)\<close> when the ones do not come first.\<close>

definition mask_size :: "ip \<Rightarrow> nat \<times> nat" where
  "mask_size m =
     (let bs = concat (map byte_bits m); n = length (takeWhile id bs)
      in if True \<in> set (drop n bs) then (0, 0) else (n, length bs))"

definition to4 :: "ip \<Rightarrow> ip option" where
  "to4 ip =
     (if length ip = 4 then Some ip
      else if length ip = 16 \<and> take 12 ip = v4_in_v6 then Some (drop 12 ip)
      else None)"

definition and_bytes :: "ip \<Rightarrow> ip \<Rightarrow> ip" where
  "and_bytes ip m = map2 (AND) ip m"

text \<open>\<^verbatim>\<open>IP.Mask\<close>, nil when the lengths do not fit.\<close>

definition ip_mask :: "ip \<Rightarrow> ip \<Rightarrow> ip" where
  "ip_mask ip m =
     (let m' = (if length m = 16 \<and> length ip = 4 \<and> take 12 m = replicate 12 255
                then drop 12 m else m);
          ip' = (if length m' = 4 \<and> length ip = 16 \<and> take 12 ip = v4_in_v6
                 then drop 12 ip else ip)
      in if length ip' \<noteq> length m' then [] else and_bytes ip' m')"

fun dtoi_loop :: "nat \<Rightarrow> string \<Rightarrow> (nat \<times> string) option" where
  "dtoi_loop n [] = Some (n, [])"
| "dtoi_loop n (c # s) =
     (case digit_val c of
        None \<Rightarrow> Some (n, c # s)
      | Some d \<Rightarrow> if n * 10 + d \<ge> 0xFFFFFF then None else dtoi_loop (n * 10 + d) s)"

definition dtoi :: "string \<Rightarrow> nat option" where
  "dtoi s = (case dtoi_loop 0 s of
       None \<Rightarrow> None
     | Some (n, r) \<Rightarrow> if length r = length s then None else if r \<noteq> [] then None else Some n)"

definition parse_cidr :: "string \<Rightarrow> (ip \<times> ipnet) option" where
  "parse_cidr s =
     (case index_of s ''/'' of
        None \<Rightarrow> None
      | Some i \<Rightarrow>
          (case parse_addr (take i s) of
             None \<Rightarrow> None
           | Some (bits, ip) \<Rightarrow>
               (case dtoi (drop (i + 1) s) of
                  None \<Rightarrow> None
                | Some n \<Rightarrow>
                    if n > bits then None
                    else let m = cidr_mask n (bits div 8)
                      in Some (ip, \<lparr>net_ip = ip_mask ip m, net_mask = m\<rparr>))))"

text \<open>\<^verbatim>\<open>IPNet.Contains\<close>, with \<^verbatim>\<open>networkNumberAndMask\<close> written out.\<close>

definition number_and_mask :: "ipnet \<Rightarrow> ip \<times> ip" where
  "number_and_mask n =
     (case to4 (net_ip n) of
        Some ip4 \<Rightarrow>
          if length (net_mask n) = 4 then (ip4, net_mask n)
          else if length (net_mask n) = 16 then (ip4, drop 12 (net_mask n))
          else ([], [])
      | None \<Rightarrow>
          if length (net_ip n) = 16 \<and> length (net_mask n) = 16
          then (net_ip n, net_mask n) else ([], []))"

definition contains :: "ipnet \<Rightarrow> ip \<Rightarrow> bool" where
  "contains n ip =
     (case number_and_mask n of (nn, m) \<Rightarrow>
        let x = (case to4 ip of Some ip4 \<Rightarrow> ip4 | None \<Rightarrow> ip)
        in length x = length nn \<and> and_bytes nn m = and_bytes x m)"

section \<open>Bytes to address text\<close>

definition dotted :: "ip \<Rightarrow> string" where
  "dotted b = join ''.'' (map (dec \<circ> unat) b)"

fun groups16 :: "ip \<Rightarrow> nat list" where
  "groups16 (a # b # bs) = (unat a * 256 + unat b) # groups16 bs"
| "groups16 _ = []"

definition zero_run :: "nat list \<Rightarrow> nat \<Rightarrow> nat" where
  "zero_run gs i = length (takeWhile (\<lambda>g. g = 0) (drop i gs))"

definition best_zero_run :: "nat list \<Rightarrow> nat \<times> nat" where
  "best_zero_run gs =
     foldl (\<lambda>(zs, ze) i. let l = zero_run gs i in
              if 2 \<le> l \<and> ze - zs < l then (i, i + l) else (zs, ze)) (255, 255) [0..<8]"

definition v6_string :: "ip \<Rightarrow> string" where
  "v6_string b =
     (let gs = groups16 b; (zs, ze) = best_zero_run gs
      in if zs = 255 then join '':'' (map hex gs)
         else join '':'' (map hex (take zs gs)) @ ''::'' @ join '':'' (map hex (drop ze gs)))"

definition ip_string :: "ip \<Rightarrow> string" where
  "ip_string ip =
     (if ip = [] then ''<nil>''
      else if length ip \<noteq> 4 \<and> length ip \<noteq> 16 then
        CHR ''?'' # concat (map (\<lambda>b. pad0 2 (hex (unat b))) ip)
      else case to4 ip of Some b \<Rightarrow> dotted b | None \<Rightarrow> v6_string ip)"

text \<open>\<^verbatim>\<open>ip[len(ip)-1]++\<close>: only the last byte moves, and it wraps around.\<close>

definition inc_last :: "ip \<Rightarrow> ip" where
  "inc_last ip = butlast ip @ [last ip + 1]"

section \<open>Masks\<close>

lemma and_255 [simp]: "(a :: 8 word) AND 255 = a"
proof -
  have "(255 :: 8 word) = mask 8" by (simp add: mask_eq_exp_minus_1)
  then show ?thesis by (auto simp: bit_eq_iff bit_simps)
qed

section \<open>IPv4 round trip\<close>

lemma foldl10_mono: "(v::nat) \<le> foldl (\<lambda>a d. a * 10 + d) v ds"
proof (induction ds arbitrary: v)
  case (Cons d ds)
  have "v \<le> v * 10 + d" by simp
  also have "\<dots> \<le> foldl (\<lambda>a d. a * 10 + d) (v * 10 + d) ds" by (rule Cons.IH)
  finally show ?case by simp
qed simp

lemma v4_fields_digits:
  assumes "\<forall>d\<in>set ds. d < 10" "foldl (\<lambda>a d. a * 10 + d) v ds \<le> 255"
    and "dl = 1 \<and> v = 0 \<Longrightarrow> ds = []"
    and "dl = 0 \<Longrightarrow> v = 0 \<and> (ds \<noteq> [] \<and> hd ds = 0 \<longrightarrow> tl ds = [])"
  shows "v4_fields fs v dl (map digit_char ds @ r) =
    v4_fields fs (foldl (\<lambda>a d. a * 10 + d) v ds) (dl + length ds) r"
  using assms
proof (induction ds arbitrary: v dl)
  case (Cons d ds)
  have le: "v * 10 + d \<le> 255"
    using Cons.prems(2) foldl10_mono [of "v * 10 + d" ds] by simp
  have "v4_fields fs (v * 10 + d) (dl + 1) (map digit_char ds @ r) =
      v4_fields fs (foldl (\<lambda>a d. a * 10 + d) (v * 10 + d) ds) (dl + 1 + length ds) r"
    using Cons.prems by (intro Cons.IH) auto
  then show ?case using Cons.prems le by auto
qed simp

lemma v4_fields_dec:
  assumes "n \<le> 255"
  shows "v4_fields fs 0 0 (dec n @ r) = v4_fields fs n (length (dec n)) r"
proof -
  have *: "hd (digits 10 n) = 0 \<Longrightarrow> tl (digits 10 n) = []"
    using digits_hd [of 10 n] by (cases "n = 0") (auto simp: digits_small)
  have "foldl (\<lambda>a d. a * 10 + d) 0 (digits 10 n) = n"
    using from_digits_digits [of 10 n] by (simp add: from_digits_def)
  then show ?thesis
    using v4_fields_digits [of "digits 10 n" 0 0 fs r] assms * digits10_less
    by (auto simp: dec_def)
qed

lemma dot_not_digit [simp]: "digit_val CHR ''.'' = None"
  by (simp add: digit_val_def)

lemma v4_fields_dotted:
  assumes "a \<le> 255" "b \<le> 255" "c \<le> 255" "d \<le> 255"
  shows "v4_fields [] 0 0 (dec a @ ''.'' @ dec b @ ''.'' @ dec c @ ''.'' @ dec d) = Some [a, b, c, d]"
  using v4_fields_dec [OF assms(4), of "[a, b, c]" "[]"]
  by (simp add: v4_fields_dec assms)

lemma dotted_4: "dotted [a, b, c, d] =
   dec (unat a) @ ''.'' @ dec (unat b) @ ''.'' @ dec (unat c) @ ''.'' @ dec (unat d)"
  by (simp add: dotted_def)

lemma unat_byte_le: "unat (a :: 8 word) \<le> 255"
  using unsigned_less [of a, where ?'a = nat] by simp

lemma length_4_iff: "length xs = 4 \<longleftrightarrow> (\<exists>a b c d. xs = [a, b, c, d])"
  by (auto simp: eval_nat_numeral length_Suc_conv)

lemma parse_v4_dotted [simp]: "length b = 4 \<Longrightarrow> parse_v4 (dotted b) = Some b"
  by (auto simp: length_4_iff dotted_4 parse_v4_def unat_byte_le v4_fields_dotted simp del: append.simps)

lemma digit_not_sep: "is_dec_digit c \<Longrightarrow> c \<notin> set ''.:%/''"
  by (auto simp: is_dec_digit_def digit_val_def)

lemma dropWhile_dec:
  "dropWhile (\<lambda>c. c \<notin> set ''.:%'') (dec n @ CHR ''.'' # r) = CHR ''.'' # r"
  using digit_not_sep dec_digits by (subst dropWhile_append2) fastforce+

lemma parse_addr_dotted [simp]:
  assumes "length b = 4"
  shows "parse_addr (dotted b) = Some (32, v4_in_v6 @ b)"
proof -
  obtain a c d e where b: "b = [a, c, d, e]" using assms by (auto simp: length_4_iff)
  have p: "parse_v4 (dec (unat a) @ CHR ''.'' # dec (unat c) @ CHR ''.'' # dec (unat d) @
      CHR ''.'' # dec (unat e)) = Some b"
    using parse_v4_dotted [OF assms] by (simp add: b dotted_4)
  show ?thesis using p dropWhile_dec by (simp add: parse_addr_def b dotted_4 del: set_simps)
qed

lemma slash_not_dotted: "CHR ''/'' \<notin> set (dotted b)"
proof -
  have "CHR ''/'' \<notin> set (dec n)" for n
    by (rule dec_no_char) (simp add: is_dec_digit_def digit_val_def)
  then show ?thesis
    using set_join [of "''.''" "map (dec \<circ> unat) b"] by (auto simp: dotted_def)
qed

section \<open>Masks\<close>

lemma length_cidr_mask [simp]: "length (cidr_mask n l) = l"
  by (induction n l rule: cidr_mask.induct) auto

lemma dtoi_loop_digits:
  assumes "\<forall>d\<in>set ds. d < 10" "foldl (\<lambda>a d. a * 10 + d) v ds < 0xFFFFFF"
  shows "dtoi_loop v (map digit_char ds) = Some (foldl (\<lambda>a d. a * 10 + d) v ds, [])"
  using assms
proof (induction ds arbitrary: v)
  case (Cons d ds)
  then have "v * 10 + d < 0xFFFFFF"
    using foldl10_mono [of "v * 10 + d" ds] by simp
  then show ?case using Cons by simp
qed simp

lemma dtoi_dec: "n < 0xFFFFFF \<Longrightarrow> dtoi (dec n) = Some n"
proof -
  assume n: "n < 0xFFFFFF"
  have f: "foldl (\<lambda>a d. a * 10 + d) 0 (digits 10 n) = n"
    using from_digits_digits [of 10 n] by (simp add: from_digits_def)
  have "dtoi_loop 0 (dec n) = Some (n, [])"
    using dtoi_loop_digits [of "digits 10 n" 0] n digits10_less
    by (simp add: dec_def f)
  then show ?thesis by (simp add: dtoi_def)
qed

lemma index_of_char_skip: "c \<notin> set p \<Longrightarrow> index_of (p @ c # s) [c] = Some (length p)"
  by (induction p) (auto simp: starts_with_def)

text \<open>A dotted address with a prefix length is read back as written.\<close>

lemma parse_cidr_dotted:
  assumes b: "length b = 4" and n: "n \<le> 32"
  shows "parse_cidr (dotted b @ ''/'' @ dec n) =
    Some (v4_in_v6 @ b, \<lparr>net_ip = and_bytes b (cidr_mask n 4), net_mask = cidr_mask n 4\<rparr>)"
proof -
  have i: "index_of (dotted b @ ''/'' @ dec n) ''/'' = Some (length (dotted b))"
    using index_of_char_skip [OF slash_not_dotted] by simp
  have m: "ip_mask (v4_in_v6 @ b) (cidr_mask n 4) = and_bytes b (cidr_mask n 4)"
    by (simp add: ip_mask_def v4_in_v6_def b)
  show ?thesis
    unfolding parse_cidr_def i using b n by (simp add: dtoi_dec m Let_def)
qed

text \<open>A parsed address has 16 bytes, and a parsed network is not empty.\<close>

lemma v4_fields_length:
  "v4_fields fs v d s = Some r \<Longrightarrow> length fs < 4 \<Longrightarrow> length r = 4"
  by (induction fs v d s rule: v4_fields.induct) (auto simp: Let_def split: if_splits option.splits)

lemma v6_loop_length:
  "v6_loop bs ell s = Some (r, e, s') \<Longrightarrow> even (length bs) \<Longrightarrow> length bs \<le> 16 \<Longrightarrow> length r \<le> 16"
proof (induction bs ell s rule: v6_loop.induct)
  case (1 bs ell s)
  have even: "length bs \<noteq> 15" using 1(4) by presburger
  show ?case
    using 1(3,4,5) even 1(1,2)
    by (subst (asm) v6_loop.simps)
      (auto simp: Let_def split: if_splits option.splits prod.splits list.splits dest: v4_fields_length)
qed

lemma parse_v6_length: "parse_v6 s = Some b \<Longrightarrow> length b = 16"
  by (auto simp: parse_v6_def v6_finish_def split: if_splits option.splits prod.splits Option.bind_splits
      dest: v6_loop_length)

lemma parse_addr_cases:
  "parse_addr s = Some (n, ip) \<Longrightarrow> (n = 32 \<and> (\<exists>b. length b = 4 \<and> ip = v4_in_v6 @ b)) \<or> (n = 128 \<and> length ip = 16)"
  by (auto simp: parse_addr_def parse_v4_def split: list.splits if_splits
      dest: parse_v6_length v4_fields_length)

lemma parse_cidr_net_ip:
  assumes "parse_cidr s = Some (x, net)"
  shows "net_ip net \<noteq> []"
proof -
  obtain t k ip n where p: "parse_addr t = Some (k, ip)" and m: "net_ip net = ip_mask ip (cidr_mask n (k div 8))"
    using assms by (auto simp: parse_cidr_def Let_def split: option.splits prod.splits if_splits)
  have "length ip = 16" and k: "k = 32 \<and> take 12 ip = v4_in_v6 \<or> k = 128"
    using parse_addr_cases [OF p] by (auto simp: v4_in_v6_def)
  then have "length (net_ip net) = (if k = 32 then 4 else 16)"
    by (auto simp: m ip_mask_def and_bytes_def Let_def)
  then show ?thesis by (auto split: if_splits)
qed

end
