(* ===== verification/Utils.thy ===== *)
theory Utils
  imports GoNet
begin

text \<open>
  \<^verbatim>\<open>internal/utils/utils.go\<close>, \<^verbatim>\<open>internal/utils/naming.go\<close> and \<^verbatim>\<open>internal/env/env.go\<close>:
  string helpers, the names of the Kubernetes objects the operator creates, and the
  settings read from the process environment. The lemmas say which names can collide.
\<close>

section \<open>Strings and slices (utils.go)\<close>

fun RemoveString :: "string list \<Rightarrow> string \<Rightarrow> string list" where
  "RemoveString [] s = []"
| "RemoveString (item # items) s =
     (if item \<noteq> s then item # RemoveString items s else RemoveString items s)"

definition GetPortNumberFromNetAttachDef :: "string \<Rightarrow> err + string" where
  "GetPortNumberFromNetAttachDef netAttachName =
     (let keyword = ''veth'' in
      case index_of netAttachName keyword of
        None \<Rightarrow> Inl (errorf ''keyword '%s' not found in network attachment name'' [keyword])
      | Some index \<Rightarrow>
          let portNumber = drop (index + length keyword) netAttachName in
          if portNumber = [] then Inl (errorf (''port number not found after keyword '%s'' @ [CHR 0x27]) [keyword])
          else Inr portNumber)"

definition DefaultIfEmpty :: "string \<Rightarrow> string \<Rightarrow> string" where
  "DefaultIfEmpty val def = (if val = [] then def else val)"

lemma RemoveString_filter: "RemoveString xs s = filter (\<lambda>x. x \<noteq> s) xs"
  by (induction xs) simp_all

lemma set_RemoveString [simp]: "set (RemoveString xs s) = set xs - {s}"
  by (auto simp: RemoveString_filter)

section \<open>Names (naming.go)\<close>

datatype switch_type = SlicePacketSwitch | NetworkEdgeDevice

fun switch_type_text :: "switch_type \<Rightarrow> string" where
  "switch_type_text SlicePacketSwitch = ''sps''"
| "switch_type_text NetworkEdgeDevice = ''ned''"

text \<open>\<^verbatim>\<open>hash/fnv.New32\<close>: FNV-1, multiply then exclusive or, on 32 bits.\<close>

definition fnv_step :: "32 word \<Rightarrow> char \<Rightarrow> 32 word" where
  "fnv_step h c = (h * 16777619) XOR of_nat (of_char c)"

definition fnv32 :: "string \<Rightarrow> 32 word" where
  "fnv32 s = foldl fnv_step 2166136261 s"

definition GenerateSwitchPodName :: "string \<Rightarrow> string \<Rightarrow> switch_type \<Rightarrow> string" where
  "GenerateSwitchPodName resourceName nodeName switchType =
     (let sum = fnv32 (resourceName @ nodeName)
      in switch_type_text switchType @ ''-'' @ pad0 4 (hex (unat sum)))"

definition GenerateReplicaSetName :: "string \<Rightarrow> string" where
  "GenerateReplicaSetName switchPodName = switchPodName"

definition GenerateServiceName :: "string \<Rightarrow> string" where
  "GenerateServiceName switchPodName = switchPodName @ ''-svc''"

definition GenerateLPMNetworkName :: "string \<Rightarrow> string" where
  "GenerateLPMNetworkName overlayName = ''lpm-'' @ overlayName"

definition GenerateIdsCMName :: "string \<Rightarrow> string" where
  "GenerateIdsCMName networkName = networkName @ ''-ids-cm''"

definition GenerateIdsDeployname :: "string \<Rightarrow> string" where
  "GenerateIdsDeployname networkName = networkName @ ''-ids''"

text \<open>Multiplication by the FNV prime, which is odd, can be undone.\<close>

lemma fnv_mult_inject: "(a :: 32 word) * 16777619 = b * 16777619 \<longleftrightarrow> a = b"
proof
  have inv: "(16777619 :: 32 word) * 899433627 = 1" by simp
  assume "a * 16777619 = b * 16777619"
  then have "a * (16777619 * 899433627) = b * (16777619 * 899433627)"
    by (simp only: mult.assoc [symmetric])
  then show "a = b" unfolding inv by simp
qed simp

lemma byte_word_inject: "(of_nat (of_char c) :: 32 word) = of_nat (of_char d) \<longleftrightarrow> c = d"
proof
  have s: "(of_char e :: nat) < 2 ^ LENGTH(32)" for e :: char
    by (rule less_trans [OF nat_of_char_less_256]) simp
  assume "(of_nat (of_char c) :: 32 word) = of_nat (of_char d)"
  then have "unat (of_nat (of_char c) :: 32 word) = unat (of_nat (of_char d) :: 32 word)" by simp
  then have "(of_char c :: nat) = of_char d"
    using s [of c] s [of d] by (simp add: unat_of_nat)
  then show "c = d" by simp
qed simp

lemma xor_cancel_left: "(a :: 32 word) XOR b = a XOR c \<longleftrightarrow> b = c"
proof
  assume "a XOR b = a XOR c"
  then have "a XOR (a XOR b) = a XOR (a XOR c)" by (rule arg_cong)
  then show "b = c" by (simp add: xor.assoc [symmetric])
qed simp

lemma xor_cancel_right: "(b :: 32 word) XOR a = c XOR a \<longleftrightarrow> b = c"
  by (simp add: xor.commute [of _ a] xor_cancel_left)

lemma fnv_step_inject_state: "fnv_step h c = fnv_step h' c \<longleftrightarrow> h = h'"
  by (simp add: fnv_step_def xor_cancel_right fnv_mult_inject)

lemma fnv_step_inject_byte: "fnv_step h c = fnv_step h d \<longleftrightarrow> c = d"
  by (simp add: fnv_step_def xor_cancel_left byte_word_inject)

lemma fnv_foldl_inject_state: "foldl fnv_step h s = foldl fnv_step h' s \<longleftrightarrow> h = h'"
  by (induction s arbitrary: h h') (simp_all add: fnv_step_inject_state)

text \<open>Two texts that differ in one byte have different hashes.\<close>

lemma fnv32_one_byte: "fnv32 (p @ c # s) = fnv32 (p @ d # s) \<longleftrightarrow> c = d"
  by (simp add: fnv32_def fnv_foldl_inject_state fnv_step_inject_byte)

lemma GenerateSwitchPodName_eq:
  "GenerateSwitchPodName r n t = GenerateSwitchPodName r' n' t' \<longleftrightarrow>
     t = t' \<and> fnv32 (r @ n) = fnv32 (r' @ n')"
  by (cases t; cases t') (simp_all add: GenerateSwitchPodName_def Let_def word_unat_eq_iff)

section \<open>Settings (env.go)\<close>

text \<open>The process environment is a map; \<^verbatim>\<open>os.LookupEnv\<close> is its lookup.\<close>

type_synonym os_env = "string \<rightharpoonup> string"

definition getEnv :: "os_env \<Rightarrow> string \<Rightarrow> string \<Rightarrow> string" where
  "getEnv os key defaultValue = (case os key of Some value \<Rightarrow> value | None \<Rightarrow> defaultValue)"

definition GetDNSPortNumber :: "os_env \<Rightarrow> string" where
  "GetDNSPortNumber os = getEnv os ''DNS_PORT_NUMBER'' ''30053''"

definition GetDNSGRPCPortNumber :: "os_env \<Rightarrow> string" where
  "GetDNSGRPCPortNumber os = getEnv os ''GRPC_DNS_PORT_NUMBER'' ''30818''"

definition GetSwitchesNamespace :: "os_env \<Rightarrow> string" where
  "GetSwitchesNamespace os = getEnv os ''SWITCHES_NAMESPACE'' ''''"

definition GetControllerIP :: "os_env \<Rightarrow> string" where
  "GetControllerIP os =
     getEnv os ''CONTROLLER_IP'' ''l2sm-controller-service.l2sm-system.svc.cluster.local''"

definition GetControllerPort :: "os_env \<Rightarrow> string" where
  "GetControllerPort os = getEnv os ''CONTROLLER_PORT'' ''8181''"

definition GetIntraConfigmapNamespace :: "os_env \<Rightarrow> string" where
  "GetIntraConfigmapNamespace os = getEnv os ''INTRA_CONFIGMAP_NAMESPACE'' ''kube-system''"

definition GetIntraConfigmapName :: "os_env \<Rightarrow> string" where
  "GetIntraConfigmapName os = getEnv os ''INTRA_CONFIGMAP_NAME'' ''coredns''"

section \<open>Port numbers\<close>

text \<open>The name \<^verbatim>\<open><overlay>-veth<i>\<close> gives back the digits of \<open>i\<close>.\<close>

lemma GetPortNumber_of_veth:
  assumes "index_of overlay ''veth'' = None"
  shows "GetPortNumberFromNetAttachDef (overlay @ ''-veth'' @ dec i) = Inr (dec i)"
proof -
  have "index_of (overlay @ CHR ''-'' # ''veth'' @ dec i) ''veth'' =
      map_option (\<lambda>j. length overlay + 1 + j) (index_of (''veth'' @ dec i) ''veth'')"
    using assms by (intro index_of_skip) simp_all
  moreover have "index_of (''veth'' @ dec i) ''veth'' = Some 0"
    by (simp add: starts_with_def)
  ultimately show ?thesis by (simp add: GetPortNumberFromNetAttachDef_def)
qed

section \<open>Properties\<close>

text \<open>
  The name of a switch pod is \<^verbatim>\<open><kind>-<hash>\<close>, the hash taken over the resource name
  directly followed by the node name. Names of different kinds never collide; within a
  kind, moving one byte from the end of the resource name to the front of the node name
  keeps the name, and changing one byte of either changes it.
\<close>

lemma switch_pod_names:
  "GenerateSwitchPodName r n SlicePacketSwitch \<noteq> GenerateSwitchPodName r' n' NetworkEdgeDevice \<and>
   GenerateSwitchPodName (r @ x) n t = GenerateSwitchPodName r (x @ n) t \<and>
   (GenerateSwitchPodName r (p @ c # s) t = GenerateSwitchPodName r (p @ d # s) t \<longleftrightarrow> c = d) \<and>
   (GenerateSwitchPodName (p @ c # s) n t = GenerateSwitchPodName (p @ d # s) n t \<longleftrightarrow> c = d)"
  using fnv32_one_byte [of "r @ p" c s d] fnv32_one_byte [of p c "s @ n" d]
  by (simp add: GenerateSwitchPodName_eq)

end
