(* ===== verification/IPAlloc.thy ===== *)
theory IPAlloc
  imports Utils
begin

text \<open>
  \<^verbatim>\<open>internal/utils/ip.go\<close>: the static allocation of the probe addresses of an overlay.
  \<open>AllocateIPv4s\<close> is translated with its checks in order, its \<^verbatim>\<open>int\<close> and its \<^verbatim>\<open>uint32\<close> arithmetic; the
  lemmas relate byte lists, 32-bit words and prefix masks, and show that for a CIDR written
  with its network address and a range that does not overflow the addresses are distinct usable hosts of that network.
\<close>

section \<open>Code\<close>

text \<open>\<^verbatim>\<open>binary.BigEndian.Uint32\<close> and \<^verbatim>\<open>PutUint32\<close>.\<close>

definition be32 :: "ip \<Rightarrow> 32 word" where
  "be32 b = foldl (\<lambda>w x. push_bit 8 w OR ucast x) 0 b"

definition put32 :: "32 word \<Rightarrow> ip" where
  "put32 n = [ucast (drop_bit 24 n), ucast (drop_bit 16 n), ucast (drop_bit 8 n), ucast n]"

definition ipv4ToUint32 :: "ip \<Rightarrow> err + 32 word" where
  "ipv4ToUint32 ip =
     (case to4 ip of
        None \<Rightarrow> Inl (errorf ''not an IPv4 address: %v'' [ip_string ip])
      | Some v4 \<Rightarrow> Inr (be32 v4))"

definition uint32ToIPv4 :: "32 word \<Rightarrow> ip" where
  "uint32ToIPv4 n = put32 n"

text \<open>
  Go's \<^verbatim>\<open>int\<close> has 64 bits: \<open>go_int\<close> is the value that is left of a sum. \<^verbatim>\<open>make\<close> panics
  when it is asked for more than \<open>2 ^ 48\<close> bytes; a string takes 16.
\<close>

definition go_int :: "int \<Rightarrow> int" where
  "go_int x = (x + 2 ^ 63) mod 2 ^ 64 - 2 ^ 63"

definition make_strings_ok :: "int \<Rightarrow> bool" where
  "make_strings_ok n \<longleftrightarrow> 16 * n \<le> 2 ^ 48"

definition AllocateIPv4s :: "string \<Rightarrow> int \<Rightarrow> int \<Rightarrow> (err + (string list \<times> string)) flow" where
  "AllocateIPv4s cidr ipStart count =
     (if count \<le> 0 then Val (Inl (errorf ''count must be > 0'' []))
      else if ipStart < 1 then Val (Inl (errorf ''ipStart must be >= 1 (got %d)'' [dec_int ipStart]))
      else case parse_cidr cidr of
        None \<Rightarrow> Val (Inl (Errorf ''invalid CIDR %q: %w'' [cidr]
                      (Some (errorf ''invalid CIDR address: %s'' [cidr]))))
      | Some (ip, ipnet) \<Rightarrow>
          (case to4 ip of
             None \<Rightarrow> Val (Inl (errorf ''CIDR %q is not IPv4 (IPv6 not supported)'' [cidr]))
           | Some base \<Rightarrow>
               (case mask_size (net_mask ipnet) of (ones, bits) \<Rightarrow>
                  if bits \<noteq> 32 then Val (Inl (errorf ''unexpected mask size for %q'' [cidr]))
                  else
                    (let maskStr = ''/'' @ dec ones;
                         total = (2::int) ^ (32 - ones)
                     in if total < 4 then
                          Val (Inl (errorf ''CIDR %q too small / not supported (size=%d)''
                                 [cidr, dec_int total]))
                        else
                          (let minHost = 1; maxHost = total - 2;
                               lastHost = go_int (ipStart + count - 1)
                           in if ipStart < minHost \<or> lastHost > maxHost then
                                Val (Inl (errorf ''CIDR %q cannot allocate %d IPs from start %d (usable host range %d..%d)''
                                       [cidr, dec_int count, dec_int ipStart,
                                        dec_int minHost, dec_int maxHost]))
                              else case ipv4ToUint32 base of
                                Inl e \<Rightarrow> Val (Inl e)
                              | Inr baseU \<Rightarrow>
                                  if \<not> make_strings_ok count then Panic
                                  else Val (Inr (map (\<lambda>i. ip_string (uint32ToIPv4
                                              (baseU + word_of_int (go_int (ipStart + int i)))))
                                         [0..<nat count], maskStr)))))))"

text \<open>The broadcast address of a network, for the specification only.\<close>

definition broadcast :: "ipnet \<Rightarrow> ip" where
  "broadcast net = map2 (OR) (net_ip net) (map NOT (net_mask net))"

section \<open>Integers\<close>

lemma go_int_id: "- (2 ^ 63) \<le> x \<Longrightarrow> x < 2 ^ 63 \<Longrightarrow> go_int x = x"
  by (simp add: go_int_def)

lemma go_int_wraps: "2 ^ 63 \<le> x \<Longrightarrow> x < 2 ^ 64 \<Longrightarrow> go_int x = x - 2 ^ 64"
proof -
  assume x: "2 ^ 63 \<le> x" "x < 2 ^ 64"
  have "(x + 2 ^ 63) mod 2 ^ 64 = (x + 2 ^ 63 - 2 ^ 64) mod 2 ^ 64" by (simp only: minus_mod_self2)
  also have "\<dots> = x + 2 ^ 63 - 2 ^ 64" using x by (intro mod_pos_pos_trivial) simp_all
  finally show ?thesis by (simp add: go_int_def)
qed

lemma word_of_go_int [simp]: "word_of_int (go_int x) = (word_of_int x :: 32 word)"
proof -
  have "(x + 2 ^ 63) mod 2 ^ 64 = x + 2 ^ 63 - 2 ^ 64 * ((x + 2 ^ 63) div 2 ^ 64)" by (rule minus_mult_div_eq_mod [symmetric])
  then have "go_int x = x + 2 ^ 64 * - ((x + 2 ^ 63) div 2 ^ 64)" unfolding go_int_def by simp
  moreover have "word_of_int (2 ^ 64 * k) = (0 :: 32 word)" for k
  proof -
    have "word_of_int (2 ^ 64) = (0 :: 32 word)" by (simp add: word_of_int_eq_iff)
    then show ?thesis by (simp only: of_int_mult mult_zero_left)
  qed
  ultimately show ?thesis by (simp only: of_int_add add_0_right)
qed

section \<open>Bytes and words\<close>

lemma length_put32 [simp]: "length (put32 w) = 4"
  by (simp add: put32_def)

lemma bit_be32:
  "bit (be32 [a, b, c, d]) n \<longleftrightarrow>
     (if n < 8 then bit d n else if n < 16 then bit c (n - 8)
      else if n < 24 then bit b (n - 16) else if n < 32 then bit a (n - 24) else False)"
  by (auto simp: be32_def bit_simps dest: bit_imp_le_length)

lemma be32_put32 [simp]: "be32 (put32 w) = w"
  unfolding put32_def by (rule bit_eqI) (auto simp: bit_be32 bit_simps dest: bit_imp_le_length)

lemma put32_be32 [simp]: "length b = 4 \<Longrightarrow> put32 (be32 b) = b"
  by (auto simp: length_4_iff put32_def bit_be32 bit_simps intro!: bit_word_eqI)

lemma put32_inject [simp]: "put32 v = put32 w \<longleftrightarrow> v = w"
  by (metis be32_put32)

lemma be32_and:
  "length b = 4 \<Longrightarrow> length m = 4 \<Longrightarrow> be32 (and_bytes b m) = be32 b AND be32 m"
  by (auto simp: length_4_iff and_bytes_def bit_be32 bit_simps intro!: bit_word_eqI)

lemma be32_inject: "length a = 4 \<Longrightarrow> length b = 4 \<Longrightarrow> be32 a = be32 b \<longleftrightarrow> a = b"
  by (metis put32_be32)

lemma length_and_bytes [simp]: "length (and_bytes a b) = min (length a) (length b)"
  by (simp add: and_bytes_def)

lemma be32_cidr_mask:
  assumes "n \<le> 32"
  shows "be32 (cidr_mask n 4) = NOT (mask (32 - n))"
proof -
  have "list_all (\<lambda>n. be32 (cidr_mask n 4) = NOT (mask (32 - n))) [0..<33]" by code_simp
  then show ?thesis using assms by (simp only: list_all_iff set_upt) auto
qed

lemma mask_size_cidr_mask:
  assumes "n \<le> 32"
  shows "mask_size (cidr_mask n 4) = (n, 32)"
proof -
  have "list_all (\<lambda>n. mask_size (cidr_mask n 4) = (n, 32)) [0..<33]" by code_simp
  then show ?thesis using assms by (simp only: list_all_iff set_upt) auto
qed

lemma to4_mapped [simp]: "length b = 4 \<Longrightarrow> to4 (v4_in_v6 @ b) = Some b"
  by (simp add: to4_def v4_in_v6_def)

lemma to4_four [simp]: "length b = 4 \<Longrightarrow> to4 b = Some b"
  by (simp add: to4_def)

lemma length_to4: "to4 ip = Some b \<Longrightarrow> length b = 4"
  by (auto simp: to4_def split: if_splits)

lemma ip_string_four: "length b = 4 \<Longrightarrow> ip_string b = dotted b"
  by (auto simp: ip_string_def)

lemma parse_ip_string [simp]: "length b = 4 \<Longrightarrow> parse_ip (ip_string b) = Some (v4_in_v6 @ b)"
  by (simp add: ip_string_four parse_ip_def)

lemma contains_mapped:
  assumes "length (net_ip net) = 4" "net_mask net = cidr_mask n 4" "n \<le> 32" "length b = 4"
  shows "contains net (v4_in_v6 @ b) \<longleftrightarrow>
    be32 (net_ip net) AND NOT (mask (32 - n)) = be32 b AND NOT (mask (32 - n))"
proof -
  have "contains net (v4_in_v6 @ b) \<longleftrightarrow>
      and_bytes (net_ip net) (cidr_mask n 4) = and_bytes b (cidr_mask n 4)"
    using assms by (simp add: contains_def number_and_mask_def Let_def)
  also have "\<dots> \<longleftrightarrow> be32 (and_bytes (net_ip net) (cidr_mask n 4)) = be32 (and_bytes b (cidr_mask n 4))"
    using assms by (simp add: be32_inject)
  finally show ?thesis using assms by (simp add: be32_and be32_cidr_mask)
qed

text \<open>Adding an offset smaller than the host part to a network address.\<close>

lemma network_plus_offset:
  fixes w :: "32 word"
  assumes w: "w AND NOT (mask k) = w" and k: "k \<le> 32" and i: "i < 2 ^ k"
  shows "(w + of_nat i) AND NOT (mask k) = w" "unat (w + of_nat i) = unat w + i"
proof -
  let ?i = "of_nat i :: 32 word"
  have i32: "i < 2 ^ 32"
    using i k by (meson less_le_trans one_le_numeral power_increasing)
  have wb: "k \<le> n" if "bit w n" for n
  proof -
    have "bit (w AND NOT (mask k)) n" using that w by simp
    then show ?thesis by (auto simp: bit_simps)
  qed
  have "take_bit k ?i = ?i"
    using i by (metis of_nat_take_bit take_bit_nat_eq_self)
  then have ib: "n < k" if "bit ?i n" for n
    using that by (metis bit_take_bit_iff)
  have "w AND ?i = 0"
    by (rule bit_eqI) (use wb ib in \<open>fastforce simp: bit_and_iff\<close>)
  then have or: "w + ?i = w OR ?i" by (rule disjunctive_add_eq_or)
  show "(w + ?i) AND NOT (mask k) = w"
    unfolding or
  proof (rule bit_eqI)
    fix n
    show "bit ((w OR ?i) AND NOT (mask k)) n = bit w n"
      using wb [of n] ib [of n] by (auto simp: bit_simps dest: bit_imp_le_length)
  qed
  have "take_bit k w = 0"
    by (rule bit_eqI) (use wb in \<open>auto simp: bit_take_bit_iff leD\<close>)
  then have "take_bit k (unat w) = 0"
    by (metis unsigned_take_bit_eq unsigned_0)
  then have "unat w mod 2 ^ k = 0" by (simp add: take_bit_eq_mod)
  then obtain q where q: "unat w = q * 2 ^ k" by (metis mod_0_imp_dvd dvd_def mult.commute)
  have p: "(2::nat) ^ 32 = 2 ^ (32 - k) * 2 ^ k" using k by (simp flip: power_add)
  have "unat w < 2 ^ 32" using unsigned_less [of w, where ?'a = nat] by simp
  then have "q * 2 ^ k < 2 ^ (32 - k) * 2 ^ k" unfolding q p .
  then have "q < 2 ^ (32 - k)" by simp
  then have "(q + 1) * 2 ^ k \<le> 2 ^ 32" unfolding p by (intro mult_right_mono) simp_all
  then have "unat w + i < 2 ^ 32" using i q by (simp add: algebra_simps)
  then show "unat (w + ?i) = unat w + i"
    using i32 by (simp add: unat_word_ariths unat_of_nat)
qed

section \<open>Reading a CIDR\<close>

lemma parse_addr_bits: "parse_addr s = Some (bits, ip) \<Longrightarrow> bits = 32 \<or> bits = 128"
  by (auto simp: parse_addr_def split: list.splits if_splits)

lemma parse_cidr_Some:
  assumes "parse_cidr s = Some (ip, net)"
  obtains n bits where "bits = 32 \<or> bits = 128" "n \<le> bits"
    "net_mask net = cidr_mask n (bits div 8)" "net_ip net = ip_mask ip (net_mask net)"
proof -
  obtain i bits n where "parse_addr (take i s) = Some (bits, ip)" "\<not> bits < n"
    "net = \<lparr>net_ip = ip_mask ip (cidr_mask n (bits div 8)), net_mask = cidr_mask n (bits div 8)\<rparr>"
    using assms by (auto simp: parse_cidr_def Let_def split: option.splits if_splits)
  then show ?thesis using that [of bits n] parse_addr_bits by auto
qed

lemma mask_size_bits: "mask_size m = (n, b) \<Longrightarrow> b = 0 \<or> b = 8 * length m"
  by (auto simp: mask_size_def Let_def length_concat byte_bits_def sum_list_triv comp_def
      split: if_splits)

lemma ip_mask_to4:
  "to4 ip = Some base \<Longrightarrow> length m = 4 \<Longrightarrow> ip_mask ip m = and_bytes base m"
  by (auto simp: to4_def ip_mask_def Let_def split: if_splits)

text \<open>An IPv4 CIDR: the mask has \<open>n\<close> leading ones and the network is the masked address.\<close>

lemma parse_cidr_v4:
  assumes "parse_cidr s = Some (ip, net)" "to4 ip = Some base" "mask_size (net_mask net) = (n, 32)"
  shows "n \<le> 32" "net_mask net = cidr_mask n 4" "net_ip net = and_bytes base (cidr_mask n 4)"
    "be32 (net_ip net) = be32 base AND NOT (mask (32 - n))"
proof -
  obtain k bits where k: "bits = 32 \<or> bits = 128" "k \<le> bits"
    "net_mask net = cidr_mask k (bits div 8)" "net_ip net = ip_mask ip (net_mask net)"
    using assms(1) by (rule parse_cidr_Some)
  have "length (net_mask net) = 4" using mask_size_bits [OF assms(3)] by simp
  then have bits: "bits = 32" using k by auto
  then have kn: "k = n" using k assms(3) mask_size_cidr_mask [of k] by simp
  show "n \<le> 32" "net_mask net = cidr_mask n 4" using k bits kn by simp_all
  then show "net_ip net = and_bytes base (cidr_mask n 4)"
    using k ip_mask_to4 [OF assms(2)] by simp
  then show "be32 (net_ip net) = be32 base AND NOT (mask (32 - n))"
    using \<open>n \<le> 32\<close> length_to4 [OF assms(2)] by (simp add: be32_and be32_cidr_mask)
qed

lemma broadcast_offset:
  assumes "length (net_ip net) = 4" "net_mask net = cidr_mask n 4" "n \<le> 32"
    and w: "be32 (net_ip net) AND NOT (mask (32 - n)) = be32 (net_ip net)"
  shows "be32 (broadcast net) = be32 (net_ip net) + of_nat (2 ^ (32 - n) - 1)"
proof -
  let ?w = "be32 (net_ip net)" and ?m = "mask (32 - n) :: 32 word"
  have "be32 (broadcast net) = ?w OR NOT (be32 (cidr_mask n 4))"
  proof -
    obtain a b c d where m: "cidr_mask n 4 = [a, b, c, d]"
      using length_cidr_mask [of n 4] unfolding length_4_iff by blast
    show ?thesis using assms(1,2) unfolding m
      by (auto simp: broadcast_def length_4_iff bit_be32 bit_simps intro!: bit_word_eqI)
  qed
  also have "\<dots> = ?w OR ?m" using assms(3) by (simp add: be32_cidr_mask)
  also have "\<dots> = ?w + ?m"
  proof (rule disjunctive_add_eq_or [symmetric], rule bit_eqI)
    fix j
    have "bit ?w j = bit (?w AND NOT ?m) j" using w by simp
    then show "bit (?w AND ?m) j = bit (0 :: 32 word) j" by (auto simp: bit_simps)
  qed
  also have "?m = of_nat (2 ^ (32 - n) - 1)" by (metis mask_eq_exp_minus_1 of_nat_mask_eq)
  finally show ?thesis .
qed

section \<open>Properties\<close>

text \<open>What a successful allocation returns, before looking at the network.\<close>

lemma AllocateIPv4s_Inr:
  assumes "AllocateIPv4s cidr start count = Val (Inr (ips, msk))" "start + count \<le> 2 ^ 63"
    and "parse_cidr cidr = Some (ip, net)" "to4 ip = Some base"
  obtains n where "mask_size (net_mask net) = (n, 32)" "msk = ''/'' @ dec n"
    "1 \<le> start" "0 < count" "start + count - 1 \<le> 2 ^ (32 - n) - 2"
    "ips = map (\<lambda>i. ip_string (put32 (be32 base + word_of_int (start + int i)))) [0..<nat count]"
proof -
  note def = AllocateIPv4s_def Let_def ipv4ToUint32_def uint32ToIPv4_def
  obtain n b where ms: "mask_size (net_mask net) = (n, b)" by fastforce
  have c: "\<not> count \<le> 0" using assms(1) by (intro notI) (simp add: def)
  have s: "\<not> start < 1" using assms(1) c by (intro notI) (simp add: def)
  note cs = c s assms(3,4) ms
  have last: "go_int (start + count - 1) = start + count - 1" using c s assms(2) by (intro go_int_id) simp_all
  have b: "b = 32" using assms(1) by (rule contrapos_pp) (simp add: def cs)
  have t: "\<not> (2::int) ^ (32 - n) < 4" using assms(1) by (rule contrapos_pn) (simp add: def cs b)
  have l: "\<not> start + count - 1 > 2 ^ (32 - n) - 2"
    using assms(1) by (rule contrapos_pn) (simp add: def cs b t last)
  have make: "make_strings_ok count" using assms(1) l s by (rule_tac ccontr) (simp add: def cs b t last to4_four [OF length_to4 [OF assms(4)]])
  have "to4 base = Some base" by (rule to4_four [OF length_to4 [OF assms(4)]])
  then have "ips = map (\<lambda>i. ip_string (put32 (be32 base + word_of_int (start + int i)))) [0..<nat count]
      \<and> msk = ''/'' @ dec n"
    using assms(1) l s by (simp add: def cs b t last make)
  then show ?thesis using that [of n] ms b c s l by simp
qed

lemma host_offset:
  assumes "1 \<le> start" "0 < count" "start + count - 1 \<le> 2 ^ k - 2" "i < nat count"
  obtains m where "word_of_int (start + int i) = (of_nat m :: 32 word)" "m = nat start + i"
    "1 \<le> m" "m < 2 ^ k - 1"
proof
  have i: "start + int i = int (nat start + i)" using assms(1) by simp
  show "word_of_int (start + int i) = (of_nat (nat start + i) :: 32 word)"
    unfolding i by simp
  have "int (nat start + i + 1) < int (2 ^ k)" using assms by simp
  then have "nat start + i + 1 < 2 ^ k" by (simp only: of_nat_less_iff)
  then show "nat start + i < 2 ^ k - 1" by simp
qed (use assms in auto)

lemma AllocateIPv4s_result:
  assumes A: "AllocateIPv4s cidr start count = Val (Inr (ips, msk))" "start + count \<le> 2 ^ 63"
    and P: "parse_cidr cidr = Some (ip, net)" and B: "to4 ip = Some (net_ip net)"
  shows "length ips = nat count" "distinct ips"
    "msk = ''/'' @ dec (fst (mask_size (net_mask net)))"
    "s \<in> set ips \<Longrightarrow> \<exists>a b. parse_ip s = Some a \<and> to4 a = Some b \<and> contains net a \<and>
       b \<noteq> net_ip net \<and> b \<noteq> broadcast net"
proof -
  let ?w = "be32 (net_ip net)"
  obtain n where n: "mask_size (net_mask net) = (n, 32)" "msk = ''/'' @ dec n"
    and r: "1 \<le> start" "0 < count" "start + count - 1 \<le> 2 ^ (32 - n) - 2"
    and ips: "ips = map (\<lambda>i. ip_string (put32 (?w + word_of_int (start + int i)))) [0..<nat count]"
    using AllocateIPv4s_Inr [OF A P B] by blast
  note v4 = parse_cidr_v4 [OF P B n(1)]
  have len: "length (net_ip net) = 4" by (rule length_to4 [OF B])
  have w: "?w AND NOT (mask (32 - n)) = ?w" using v4(4) by simp
  show "length ips = nat count" using ips by simp
  show "msk = ''/'' @ dec (fst (mask_size (net_mask net)))" using n by simp
  have off: "\<exists>m. ips ! i = ip_string (put32 (?w + of_nat m)) \<and> m = nat start + i \<and> 1 \<le> m \<and> m < 2 ^ (32 - n) - 1"
    if "i < nat count" for i
    using host_offset [OF r that] ips that by (metis (no_types, lifting) diff_zero length_upt nth_map nth_upt add_0)
  have un: "unat (?w + of_nat m) = unat ?w + m" if "m < 2 ^ (32 - n)" for m
    using network_plus_offset(2) [OF w _ that] by simp
  have str: "ip_string (put32 a) = ip_string (put32 b) \<longleftrightarrow> a = b" for a b
    by (metis length_put32 option.inject parse_ip_string put32_inject same_append_eq)
  show "distinct ips"
    unfolding distinct_conv_nth
  proof (intro allI impI)
    fix i j assume ij: "i < length ips" "j < length ips" "i \<noteq> j"
    then obtain m m' where "ips ! i = ip_string (put32 (?w + of_nat m))" "m = nat start + i"
      "m < 2 ^ (32 - n) - 1" "ips ! j = ip_string (put32 (?w + of_nat m'))" "m' = nat start + j"
      "m' < 2 ^ (32 - n) - 1" using off ips by fastforce
    then show "ips ! i \<noteq> ips ! j" using ij un [of m] un [of m'] str by fastforce
  qed
  assume "s \<in> set ips"
  then obtain i where "i < nat count" "s = ips ! i" using ips by (auto simp: in_set_conv_nth)
  then obtain m where m: "s = ip_string (put32 (?w + of_nat m))" "1 \<le> m" "m < 2 ^ (32 - n) - 1"
    using off by blast
  let ?b = "put32 (?w + of_nat m)"
  have k: "m < 2 ^ (32 - n)" using m(3) by simp
  have "contains net (v4_in_v6 @ ?b)"
    using contains_mapped [OF len v4(2,1), of ?b] network_plus_offset(1) [OF w _ k] w by simp
  moreover have "?b \<noteq> net_ip net"
    using un [OF k] m(2) len by (metis be32_put32 add_cancel_left_right not_one_le_zero)
  moreover have "be32 ?b \<noteq> be32 (broadcast net)"
    using broadcast_offset [OF len v4(2,1) w] un [OF k] un [of "2 ^ (32 - n) - 1"] m(3) by fastforce
  then have "?b \<noteq> broadcast net" by metis
  ultimately show "\<exists>a b. parse_ip s = Some a \<and> to4 a = Some b \<and> contains net a \<and>
       b \<noteq> net_ip net \<and> b \<noteq> broadcast net"
    using m(1) parse_ip_string [of ?b] to4_mapped [of ?b]
    by - (rule exI [of _ "v4_in_v6 @ ?b"], rule exI [of _ ?b], auto)
qed

text \<open>
  C29. \<open>AllocateIPv4s\<close>, given a CIDR written with its network address and a range whose end
  does not overflow an \<^verbatim>\<open>int\<close>: when it succeeds, it returns exactly
  \<open>count\<close> addresses, pairwise different, each an IPv4 address of the network that is
  neither the network address nor the broadcast address, and the prefix length as the mask.
\<close>

theorem AllocateIPv4s_hosts:
  assumes "AllocateIPv4s cidr start count = Val (Inr (ips, msk))" and "start + count \<le> 2 ^ 63"
    and "parse_cidr cidr = Some (ip, net)" and "to4 ip = Some (net_ip net)"
  shows "length ips = nat count \<and> distinct ips \<and>
    msk = ''/'' @ dec (fst (mask_size (net_mask net))) \<and>
    (\<forall>s\<in>set ips. \<exists>a b. parse_ip s = Some a \<and> to4 a = Some b \<and> contains net a \<and>
       b \<noteq> net_ip net \<and> b \<noteq> broadcast net)"
  using AllocateIPv4s_result [OF assms] by blast

text \<open>Addresses used by the witnesses.\<close>

lemmas ip_eval = dotted_def dec_def digits.simps digit_char_def be32_def put32_def
  ip_string_four upt_rec

lemma cidr_lit:
  "''10.0.0.200/24'' = dotted [10, 0, 0, 200] @ ''/'' @ dec 24"
  "''10.0.0.0/24'' = dotted [10, 0, 0, 0] @ ''/'' @ dec 24"
  by (simp_all add: ip_eval)

lemma mask_24: "cidr_mask 24 4 = [255, 255, 255, 0]"
  by code_simp

lemma mask_size_24: "mask_size [255, 255, 255, 0] = (24, 32)"
  using mask_size_cidr_mask [of 24] by (simp add: mask_24)

lemma parse_cidr_lit:
  "parse_cidr ''10.0.0.200/24'' =
     Some (v4_in_v6 @ [10, 0, 0, 200], \<lparr>net_ip = [10, 0, 0, 0], net_mask = [255, 255, 255, 0]\<rparr>)"
  "parse_cidr ''10.0.0.0/24'' =
     Some (v4_in_v6 @ [10, 0, 0, 0], \<lparr>net_ip = [10, 0, 0, 0], net_mask = [255, 255, 255, 0]\<rparr>)"
  unfolding cidr_lit by (subst parse_cidr_dotted; simp add: mask_24 and_bytes_def)+

theorem AllocateIPv4s_hosts_witness:
  "\<exists>ips. AllocateIPv4s ''10.0.0.0/24'' 2 3 = Val (Inr (ips, ''/24'')) \<and> distinct ips \<and> length ips = 3"
proof -
  have A: "AllocateIPv4s ''10.0.0.0/24'' 2 3 =
      Val (Inr ([''10.0.0.2'', ''10.0.0.3'', ''10.0.0.4''], ''/24''))"
    by (simp add: AllocateIPv4s_def parse_cidr_lit mask_size_24 Let_def ipv4ToUint32_def
        uint32ToIPv4_def go_int_def make_strings_ok_def ip_eval)
  show ?thesis
    using A AllocateIPv4s_hosts [OF A _ parse_cidr_lit(2)] by simp
qed

text \<open>
  C33. \<open>AllocateIPv4s\<close> on a CIDR in dotted notation, for any two values of Go's \<^verbatim>\<open>int\<close>, succeeds exactly when the start and the
  count are positive, the prefix leaves at least two host bits, and the last requested host
  number stays below the broadcast address, or is so large that the sum overflows: then the check is passed, and only
  a count that \<^verbatim>\<open>make\<close> cannot serve (a panic) stands in the way.
\<close>

theorem AllocateIPv4s_accepts:
  assumes b: "length b = 4" and n: "n \<le> 32" and int: "start < 2 ^ 63" "count < 2 ^ 63"
  shows "(\<exists>r. AllocateIPv4s (dotted b @ ''/'' @ dec n) start count = Val (Inr r)) \<longleftrightarrow>
    0 < count \<and> 1 \<le> start \<and> n \<le> 30 \<and>
    (start + count - 1 \<le> 2 ^ (32 - n) - 2 \<or> 2 ^ 63 \<le> start + count - 1 \<and> count \<le> 2 ^ 44)"
proof (cases "0 < count \<and> 1 \<le> start")
  case True
  note p = parse_cidr_dotted [OF b n]
  have t: "(2::int) ^ (32 - n) < 4 \<longleftrightarrow> \<not> n \<le> 30"
  proof -
    have "(2::int) ^ (32 - n) < 2 ^ 2 \<longleftrightarrow> 32 - n < 2"
      by (rule power_strict_increasing_iff) simp
    then show ?thesis by auto
  qed
  have total: "(2::int) ^ (32 - n) \<le> 2 ^ 32" by (rule power_increasing) simp_all
  have last: "go_int (start + count - 1) \<le> 2 ^ (32 - n) - 2 \<and> make_strings_ok count \<longleftrightarrow>
      start + count - 1 \<le> 2 ^ (32 - n) - 2 \<or> 2 ^ 63 \<le> start + count - 1 \<and> count \<le> 2 ^ 44" if "n \<le> 30"
  proof (cases "2 ^ 63 \<le> start + count - 1")
    case w: True
    have "(4::int) \<le> 2 ^ (32 - n)" using t that by simp
    moreover have "go_int (start + count - 1) = start + count - 1 - 2 ^ 64" using w int by (intro go_int_wraps) simp_all
    ultimately show ?thesis using w int total by (auto simp: make_strings_ok_def)
  next
    case False
    then have "go_int (start + count - 1) = start + count - 1" using True by (intro go_int_id) simp_all
    then show ?thesis using False True total by (auto simp: make_strings_ok_def)
  qed
  have "(\<exists>r. AllocateIPv4s (dotted b @ ''/'' @ dec n) start count = Val (Inr r)) \<longleftrightarrow>
      n \<le> 30 \<and> go_int (start + count - 1) \<le> 2 ^ (32 - n) - 2 \<and> make_strings_ok count"
    using True by (auto simp: AllocateIPv4s_def p b mask_size_cidr_mask n Let_def ipv4ToUint32_def t
        simp del: append.simps)
  then show ?thesis using last True by blast
qed (auto simp: AllocateIPv4s_def)

theorem AllocateIPv4s_accepts_witness:
  "\<exists>r. AllocateIPv4s (dotted [10, 0, 0, 0] @ ''/'' @ dec 24) (2 ^ 63 - 1) 2 = Val (Inr r)"
  using AllocateIPv4s_accepts [of "[10, 0, 0, 0]" 24 "2 ^ 63 - 1" 2] by simp

text \<open>What the overflow lets through: the addresses before the network and of the network itself.\<close>

lemma AllocateIPv4s_overflow:
  "AllocateIPv4s ''10.0.0.0/24'' (2 ^ 63 - 1) 2 = Val (Inr ([''9.255.255.255'', ''10.0.0.0''], ''/24''))"
  by (simp add: AllocateIPv4s_def parse_cidr_lit mask_size_24 Let_def ipv4ToUint32_def uint32ToIPv4_def
      go_int_def make_strings_ok_def ip_eval)

text \<open>
  The offsets are added to the address written before the slash, not to the network
  address: for a CIDR with host bits set, addresses outside the CIDR are handed out.
\<close>

lemma AllocateIPv4s_leaves_network:
  "\<exists>ips ip net s a. AllocateIPv4s ''10.0.0.200/24'' 2 100 = Val (Inr (ips, ''/24'')) \<and>
     parse_cidr ''10.0.0.200/24'' = Some (ip, net) \<and>
     s \<in> set ips \<and> parse_ip s = Some a \<and> \<not> contains net a"
proof -
  let ?ips = "map (\<lambda>i. ip_string (put32 (be32 [10, 0, 0, 200] + word_of_int (2 + int i)))) [0..<100]"
  have A: "AllocateIPv4s ''10.0.0.200/24'' 2 100 = Val (Inr (?ips, ''/24''))"
    by (simp add: AllocateIPv4s_def parse_cidr_lit mask_size_24 Let_def ipv4ToUint32_def
        uint32ToIPv4_def go_int_id make_strings_ok_def dec_def digits.simps digit_char_def)
  have "ip_string (put32 (be32 [10, 0, 0, 200] + word_of_int (2 + int 99))) \<in> set ?ips"
    unfolding set_map by (rule imageI) simp
  moreover have "ip_string (put32 (be32 [10, 0, 0, 200] + word_of_int (2 + int 99))) = ip_string [10, 0, 1, 45]"
    by (simp add: ip_eval)
  ultimately have "ip_string [10, 0, 1, 45] \<in> set ?ips" by simp
  moreover have "\<not> contains \<lparr>net_ip = [10, 0, 0, 0], net_mask = [255, 255, 255, 0]\<rparr> (v4_in_v6 @ [10, 0, 1, 45])"
    by (simp add: contains_def number_and_mask_def and_bytes_def)
  moreover have "parse_ip (ip_string [10, 0, 1, 45]) = Some (v4_in_v6 @ [10, 0, 1, 45])"
    by (rule parse_ip_string) simp
  ultimately show ?thesis
    by (intro exI conjI) (rule A parse_cidr_lit(1) | assumption)+
qed

end
