(* ===== verification/AddressPool.thy ===== *)
theory AddressPool
  imports IPAlloc
begin

text \<open>
  \<^verbatim>\<open>GetNextAvailableIP\<close> of \<^verbatim>\<open>internal/controller/pod_utils.go\<close>: the address the webhook gives
  to a pod interface. The search loop moves only the last byte and has no exit when every
  address it visits is contained and taken, so it is a \<open>partial_function\<close>: \<open>None\<close> is a loop
  that never ends. When there is no last assigned address the loop variable is the very
  slice the network holds (\<^verbatim>\<open>startIP = ipNet.IP\<close>), so incrementing it moves the network too;
  the flag \<open>aliased\<close> says so.
\<close>

section \<open>Code\<close>

partial_function (option) scan ::
  "bool \<Rightarrow> ipnet \<Rightarrow> ip \<Rightarrow> (string \<Rightarrow> bool) \<Rightarrow> ip option option" where
  "scan aliased ipNet ip taken =
     (if contains ipNet ip then
        (if \<not> taken (ip_string ip) then Some (Some ip)
         else scan aliased (if aliased then ipNet\<lparr>net_ip := inc_last ip\<rparr> else ipNet)
                (inc_last ip) taken)
      else Some None)"

definition GetNextAvailableIP ::
  "string \<Rightarrow> string \<Rightarrow> gomap \<Rightarrow> (err + string \<times> string) flow" where
  "GetNextAvailableIP networkCIDR lastAssignedIP assignedIPs =
     (case parse_cidr networkCIDR of
        None \<Rightarrow> Val (Inl (errorf ''invalid CIDR: %s'' [networkCIDR]))
      | Some (_, ipNet) \<Rightarrow>
          (let subnetMask = ''/'' @ dec (fst (mask_size (net_mask ipNet)));
               taken = (\<lambda>s. map_get assignedIPs s \<noteq> None);
               r = (if lastAssignedIP = [] \<or> parse_ip lastAssignedIP = None
                    then (if net_ip ipNet = [] then None
                          else let startIP = inc_last (net_ip ipNet)
                            in Some (scan True (ipNet\<lparr>net_ip := startIP\<rparr>) startIP taken))
                    else Some (scan False ipNet (inc_last (the (parse_ip lastAssignedIP))) taken))
           in case r of
                None \<Rightarrow> Panic
              | Some None \<Rightarrow> Hang
              | Some (Some (Some ip)) \<Rightarrow> Val (Inr (ip_string ip, subnetMask))
              | Some (Some None) \<Rightarrow>
                  Val (Inl (errorf ''no available IPs in CIDR: %s'' [networkCIDR]))))"

section \<open>The scan as a search over 256 addresses\<close>

text \<open>The address \<open>k\<close> rounds later, and the network the loop then sees.\<close>

definition nth_ip :: "ip \<Rightarrow> nat \<Rightarrow> ip" where
  "nth_ip ip k = butlast ip @ [last ip + of_nat k]"

definition nth_net :: "bool \<Rightarrow> ipnet \<Rightarrow> ip \<Rightarrow> nat \<Rightarrow> ipnet" where
  "nth_net aliased net ip k = (if aliased \<and> 0 < k then net\<lparr>net_ip := nth_ip ip k\<rparr> else net)"

definition stops :: "bool \<Rightarrow> ipnet \<Rightarrow> ip \<Rightarrow> (string \<Rightarrow> bool) \<Rightarrow> nat \<Rightarrow> bool" where
  "stops aliased net ip taken k \<longleftrightarrow>
     \<not> contains (nth_net aliased net ip k) (nth_ip ip k) \<or> \<not> taken (ip_string (nth_ip ip k))"

lemma inc_last_nth_ip: "ip \<noteq> [] \<Longrightarrow> inc_last (nth_ip ip k) = nth_ip ip (Suc k)"
  by (simp add: inc_last_def nth_ip_def algebra_simps)

lemma nth_ip_0 [simp]: "ip \<noteq> [] \<Longrightarrow> nth_ip ip 0 = ip"
  by (simp add: nth_ip_def)

lemma nth_ip_mod: "nth_ip ip (k mod 256) = nth_ip ip k"
proof -
  have "(of_nat (k mod 2 ^ LENGTH(8)) :: 8 word) = of_nat k"
    by (simp add: word_of_nat_eq_iff take_bit_eq_mod)
  then show ?thesis by (simp add: nth_ip_def)
qed

lemma nth_net_Suc:
  "(if a then (nth_net a net ip k)\<lparr>net_ip := nth_ip ip (Suc k)\<rparr> else nth_net a net ip k) =
   nth_net a net ip (Suc k)"
  by (simp add: nth_net_def)

lemma scan_unfold:
  assumes "ip \<noteq> []"
  shows "scan a (nth_net a net ip k) (nth_ip ip k) taken =
    (if contains (nth_net a net ip k) (nth_ip ip k) then
       if \<not> taken (ip_string (nth_ip ip k)) then Some (Some (nth_ip ip k))
       else scan a (nth_net a net ip (Suc k)) (nth_ip ip (Suc k)) taken
     else Some None)"
  by (subst scan.simps) (cases a; simp add: inc_last_nth_ip [OF assms] nth_net_def)

lemma scan_skip:
  assumes "ip \<noteq> []" "\<forall>j<k. \<not> stops a net ip taken j"
  shows "scan a (nth_net a net ip 0) (nth_ip ip 0) taken =
    scan a (nth_net a net ip k) (nth_ip ip k) taken"
  using assms(2)
proof (induction k)
  case (Suc k)
  then have "\<not> stops a net ip taken k" by simp
  then show ?case using Suc scan_unfold [OF assms(1), of a net k taken]
    by (simp add: stops_def)
qed simp

lemma stops_mod:
  assumes "a \<Longrightarrow> net_ip net = ip" "ip \<noteq> []"
  shows "stops a net ip taken (k mod 256) = stops a net ip taken k"
proof -
  have "nth_net a net ip k = (if a then net\<lparr>net_ip := nth_ip ip k\<rparr> else net)" for k
    using assms by (cases "k = 0") (auto simp: nth_net_def)
  then show ?thesis by (simp add: stops_def nth_ip_mod)
qed

lemma scan_stop:
  assumes "ip \<noteq> []" "stops a net ip taken k" "\<forall>j<k. \<not> stops a net ip taken j"
  shows "scan a net ip taken =
    Some (if contains (nth_net a net ip k) (nth_ip ip k) then Some (nth_ip ip k) else None)"
proof -
  have "scan a net ip taken = scan a (nth_net a net ip 0) (nth_ip ip 0) taken"
    using assms(1) by (simp add: nth_net_def)
  also have "\<dots> = scan a (nth_net a net ip k) (nth_ip ip k) taken"
    by (rule scan_skip [OF assms(1,3)])
  finally show ?thesis
    using assms(2) scan_unfold [OF assms(1), of a net k taken] by (auto simp: stops_def)
qed

text \<open>If the loop ends, one of the addresses it visits stops it.\<close>

lemma scan_Some_stops:
  assumes "scan a net' ip' taken = Some r" "ip \<noteq> []"
    "net' = nth_net a net ip k" "ip' = nth_ip ip k"
  shows "\<exists>j. stops a net ip taken j"
  using assms
proof (induction a net' ip' taken r arbitrary: k rule: scan.raw_induct [rotated, consumes 1, case_names step])
  case (step scan' a n i taken r)
  show ?case
  proof (cases "stops a net ip taken k")
    case False
    then have "scan' a (nth_net a net ip (Suc k)) (nth_ip ip (Suc k)) taken = Some r"
      using step.prems step.hyps
      by (cases a; cases "0 < k") (auto simp: stops_def inc_last_nth_ip nth_net_def)
    then show ?thesis using step.IH step.prems(1) by blast
  qed blast
qed

lemma scan_cases:
  assumes "ip \<noteq> []" "a \<Longrightarrow> net_ip net = ip"
  obtains (hang) "scan a net ip taken = None" "\<forall>k. \<not> stops a net ip taken k"
  | (stop) k where "k < 256" "stops a net ip taken k" "\<forall>j<k. \<not> stops a net ip taken j"
      "scan a net ip taken =
        Some (if contains (nth_net a net ip k) (nth_ip ip k) then Some (nth_ip ip k) else None)"
proof (cases "\<exists>k. stops a net ip taken k")
  case True
  define k where "k = (LEAST k. stops a net ip taken k)"
  have k: "stops a net ip taken k" unfolding k_def by (rule LeastI_ex [OF True])
  have l: "\<forall>j<k. \<not> stops a net ip taken j" unfolding k_def by (blast dest: not_less_Least)
  have "k < 256"
  proof (rule ccontr)
    assume "\<not> k < 256"
    then have "k mod 256 < k" using mod_less_divisor [of 256 k] by linarith
    then show False using k l stops_mod [of a net ip taken k] assms by blast
  qed
  then show thesis using k l scan_stop [OF assms(1) k l] by (rule stop)
next
  case False
  have "scan a net ip taken = None"
  proof (cases "scan a net ip taken")
    case (Some r)
    then show ?thesis
      using False scan_Some_stops [of a net ip taken r ip net 0] assms(1) by (auto simp: nth_net_def)
  qed
  then show thesis using hang False by blast
qed

section \<open>Properties\<close>

lemma parse_ip_nonempty: "parse_ip s = Some l \<Longrightarrow> l \<noteq> []"
  by (auto simp: parse_ip_def parse_addr_def parse_v6_def v6_finish_def v4_in_v6_def
      split: list.splits if_splits option.splits prod.splits Option.bind_splits)

lemma next_ip_last:
  assumes "parse_cidr cidr = Some (x, net)" "prev \<noteq> []" "parse_ip prev = Some l"
  shows "GetNextAvailableIP cidr prev m =
    (case scan False net (inc_last l) (\<lambda>s. map_get m s \<noteq> None) of
       None \<Rightarrow> Hang
     | Some (Some ip) \<Rightarrow> Val (Inr (ip_string ip, ''/'' @ dec (fst (mask_size (net_mask net)))))
     | Some None \<Rightarrow> Val (Inl (errorf ''no available IPs in CIDR: %s'' [cidr])))"
  by (simp add: GetNextAvailableIP_def assms Let_def split: option.split)

lemma next_ip_no_last:
  assumes "parse_cidr cidr = Some (x, net)" "prev = [] \<or> parse_ip prev = None" "net_ip net \<noteq> []"
  shows "GetNextAvailableIP cidr prev m =
    (case scan True (net\<lparr>net_ip := inc_last (net_ip net)\<rparr>) (inc_last (net_ip net))
        (\<lambda>s. map_get m s \<noteq> None) of
       None \<Rightarrow> Hang
     | Some (Some ip) \<Rightarrow> Val (Inr (ip_string ip, ''/'' @ dec (fst (mask_size (net_mask net)))))
     | Some None \<Rightarrow> Val (Inl (errorf ''no available IPs in CIDR: %s'' [cidr])))"
  using assms(2) by (simp add: GetNextAvailableIP_def assms(1,3) Let_def split: option.split)

lemma next_ip_no_panic: "GetNextAvailableIP c prev m \<noteq> Panic"
  by (auto simp: GetNextAvailableIP_def Let_def split: option.splits sum.splits dest: parse_cidr_net_ip)

lemma inc_last_nonempty [simp]: "inc_last ip \<noteq> []"
  by (simp add: inc_last_def)

lemma nth_ip_inc_last: "ip \<noteq> [] \<Longrightarrow> nth_ip (inc_last ip) k = nth_ip ip (Suc k)"
  by (simp add: inc_last_def nth_ip_def algebra_simps)

text \<open>What is known of an address that is returned.\<close>

lemma next_ip_found:
  assumes r: "GetNextAvailableIP cidr prev m = Val (Inr (s, sz))"
  shows "map_get m s = None \<and> (\<exists>x net. parse_cidr cidr = Some (x, net) \<and>
    (\<forall>l. prev \<noteq> [] \<and> parse_ip prev = Some l \<longrightarrow>
       (\<exists>k. s = ip_string (nth_ip l k) \<and> 0 < k \<and> k \<le> 256 \<and> contains net (nth_ip l k) \<and>
          (\<forall>j. 0 < j \<and> j < k \<longrightarrow> map_get m (ip_string (nth_ip l j)) \<noteq> None))))"
proof -
  let ?t = "\<lambda>s. map_get m s \<noteq> None"
  obtain x net where p: "parse_cidr cidr = Some (x, net)"
    using r by (auto simp: GetNextAvailableIP_def split: option.splits)
  show ?thesis
  proof (cases "prev = [] \<or> parse_ip prev = None")
    case True
    let ?n = "net\<lparr>net_ip := inc_last (net_ip net)\<rparr>" and ?i = "inc_last (net_ip net)"
    have "net_ip net \<noteq> []"
      using r p True by (auto simp: GetNextAvailableIP_def Let_def)
    note e = next_ip_no_last [OF p True this, of m]
    have "map_get m s = None"
      by (rule scan_cases [of ?i True ?n ?t]) (use r e in \<open>auto simp: stops_def split: if_splits\<close>)
    then show ?thesis using p True by auto
  next
    case False
    then obtain l where l: "parse_ip prev = Some l" "prev \<noteq> []" by auto
    let ?i = "inc_last l"
    note e = next_ip_last [OF p l(2,1), of m]
    have ne: "l \<noteq> []" using parse_ip_nonempty [OF l(1)] .
    have "map_get m s = None \<and> (\<exists>k. s = ip_string (nth_ip l k) \<and> 0 < k \<and> k \<le> 256 \<and>
        contains net (nth_ip l k) \<and>
        (\<forall>j. 0 < j \<and> j < k \<longrightarrow> map_get m (ip_string (nth_ip l j)) \<noteq> None))"
    proof (rule scan_cases [of ?i False net ?t])
      fix k assume k: "k < 256" "stops False net ?i ?t k" "\<forall>j<k. \<not> stops False net ?i ?t j"
        "scan False net ?i ?t =
          Some (if contains (nth_net False net ?i k) (nth_ip ?i k) then Some (nth_ip ?i k) else None)"
      then have c: "contains net (nth_ip l (Suc k))" "s = ip_string (nth_ip l (Suc k))"
        using r e by (auto simp: nth_net_def nth_ip_inc_last [OF ne] split: if_splits)
      have "map_get m (ip_string (nth_ip l j)) \<noteq> None" if "0 < j" "j < Suc k" for j
      proof -
        obtain i where "j = Suc i" using \<open>0 < j\<close> by (cases j) auto
        then show ?thesis using k(3) that nth_ip_inc_last [OF ne] by (auto simp: stops_def)
      qed
      then show ?thesis
        using k(1,2) c by (intro conjI exI [of _ "Suc k"])
          (auto simp: stops_def nth_net_def nth_ip_inc_last [OF ne])
    qed (use e r in auto)
    then show ?thesis using p l by auto
  qed
qed

text \<open>
  C20. An address that \<open>GetNextAvailableIP\<close> returns is not among the assigned ones; and when
  the last assigned address is known, it is the first such address after it, and it lies in
  the CIDR.
\<close>

theorem next_ip_fresh:
  assumes r: "GetNextAvailableIP cidr prev m = Val (Inr (s, sz))"
  shows "map_get m s = None \<and> (\<exists>x net. parse_cidr cidr = Some (x, net) \<and>
    (\<forall>l. prev \<noteq> [] \<and> parse_ip prev = Some l \<longrightarrow>
       (\<exists>k. s = ip_string (nth_ip l k) \<and> 0 < k \<and> k \<le> 256 \<and> contains net (nth_ip l k) \<and>
          (\<forall>j. 0 < j \<and> j < k \<longrightarrow> map_get m (ip_string (nth_ip l j)) \<noteq> None))))"
  by (rule next_ip_found [OF r])

lemma contains_self: "length a = 4 \<Longrightarrow> length (net_mask net) = 4 \<Longrightarrow> contains (net\<lparr>net_ip := a\<rparr>) a"
  by (simp add: contains_def number_and_mask_def)

lemma length_nth_ip [simp]: "ip \<noteq> [] \<Longrightarrow> length (nth_ip ip k) = length ip"
  by (simp add: nth_ip_def)

lemma nth_ip_last_byte:
  assumes "ip \<noteq> []" shows "\<exists>k<256. nth_ip ip k = butlast ip @ [x]"
proof -
  have "nth_ip ip (unat (x - last ip)) = butlast ip @ [x]"
    by (simp add: nth_ip_def)
  moreover have "unat (x - last ip) < 256"
    using unat_byte_le [of "x - last ip"] by simp
  ultimately show ?thesis by blast
qed

lemma next_ip_v4:
  assumes b: "length b = 4" and n: "n \<le> 32" and prev: "prev = [] \<or> parse_ip prev = None"
  defines "base \<equiv> and_bytes b (cidr_mask n 4)"
  obtains
    (hang) "GetNextAvailableIP (dotted b @ ''/'' @ dec n) prev m = Hang"
      "\<forall>x. map_get m (ip_string (butlast base @ [x])) \<noteq> None"
  | (found) x where
      "GetNextAvailableIP (dotted b @ ''/'' @ dec n) prev m =
         Val (Inr (ip_string (butlast base @ [x]), ''/'' @ dec n))"
      "map_get m (ip_string (butlast base @ [x])) = None"
proof -
  let ?net = "\<lparr>net_ip = base, net_mask = cidr_mask n 4\<rparr>"
  let ?t = "\<lambda>s. map_get m s \<noteq> None" and ?i = "inc_last base"
  have len: "length base = 4" using b by (simp add: base_def length_cidr_mask)
  then have ne: "base \<noteq> []" by auto
  have p: "parse_cidr (dotted b @ ''/'' @ dec n) = Some (v4_in_v6 @ b, ?net)"
    using parse_cidr_dotted [OF b n] by (simp add: base_def)
  note e = next_ip_no_last [OF p prev, of m, simplified, OF ne]
  have li: "length ?i = 4" using len by (simp add: inc_last_def)
  have c: "contains (nth_net True (?net\<lparr>net_ip := ?i\<rparr>) ?i k) (nth_ip ?i k)" for k
    using contains_self [of "nth_ip ?i k" "?net"] li
    by (cases "k = 0") (auto simp: nth_net_def length_cidr_mask)
  have sz: "fst (mask_size (cidr_mask n 4)) = n" using mask_size_cidr_mask [OF n] by simp
  show thesis
  proof (rule scan_cases [of ?i True "?net\<lparr>net_ip := ?i\<rparr>" ?t])
    assume h: "scan True (?net\<lparr>net_ip := ?i\<rparr>) ?i ?t = None"
      "\<forall>k. \<not> stops True (?net\<lparr>net_ip := ?i\<rparr>) ?i ?t k"
    have "map_get m (ip_string (butlast base @ [x])) \<noteq> None" for x
    proof -
      obtain k where k: "nth_ip ?i k = butlast base @ [x]"
        using nth_ip_last_byte [of ?i x] by (auto simp: inc_last_def)
      then show ?thesis
        using h(2) [rule_format, of k] c [of k] unfolding stops_def by simp
    qed
    then show thesis using hang e h(1) by simp
  next
    fix k assume k: "stops True (?net\<lparr>net_ip := ?i\<rparr>) ?i ?t k"
      "scan True (?net\<lparr>net_ip := ?i\<rparr>) ?i ?t =
        Some (if contains (nth_net True (?net\<lparr>net_ip := ?i\<rparr>) ?i k) (nth_ip ?i k)
              then Some (nth_ip ?i k) else None)"
    have "nth_ip ?i k = butlast base @ [last base + 1 + of_nat k]"
      by (simp add: nth_ip_def inc_last_def)
    then show thesis using found [of "last base + 1 + of_nat k"] e k c [of k] sz
      by (simp add: stops_def)
  qed simp_all
qed

text \<open>On an IPv4 CIDR every address returned is a dotted one.\<close>

lemma contains_dotted:
  assumes "length (net_ip net) = 4" "length (net_mask net) = 4" "contains net ip"
  shows "\<exists>x. length x = 4 \<and> ip_string ip = dotted x"
  using assms
  by (cases "to4 ip") (auto simp: contains_def number_and_mask_def to4_def ip_string_def split: if_splits)

lemma next_ip_dotted:
  assumes b: "length b = 4" and n: "n \<le> 32"
    and r: "GetNextAvailableIP (dotted b @ ''/'' @ dec n) prev m = Val (Inr (s, sz))"
  shows "\<exists>x. length x = 4 \<and> s = dotted x \<and> map_get m s = None"
proof (cases "prev = [] \<or> parse_ip prev = None")
  case True
  have "length (butlast (and_bytes b (cidr_mask n 4)) @ [x]) = 4" for x
    using b by (simp add: and_bytes_def)
  note l = this
  show ?thesis
  proof (rule next_ip_v4 [OF b n True, of m])
    fix x
    let ?x = "butlast (and_bytes b (cidr_mask n 4)) @ [x]"
    assume "GetNextAvailableIP (dotted b @ ''/'' @ dec n) prev m = Val (Inr (ip_string ?x, ''/'' @ dec n))"
      "map_get m (ip_string ?x) = None"
    then show ?thesis using r l [of x] by (intro exI [of _ ?x]) (simp only: ip_string_four; simp)
  qed (use r in simp)
next
  case False
  let ?net = "\<lparr>net_ip = and_bytes b (cidr_mask n 4), net_mask = cidr_mask n 4\<rparr>"
  have p: "parse_cidr (dotted b @ ''/'' @ dec n) = Some (v4_in_v6 @ b, ?net)"
    by (rule parse_cidr_dotted [OF b n])
  from next_ip_found [OF r] p False obtain l k where "s = ip_string (nth_ip l k)" "contains ?net (nth_ip l k)"
    "map_get m s = None" by auto
  with contains_dotted [of ?net] show ?thesis using b by (auto simp: and_bytes_def)
qed

text \<open>
  C35. On an IPv4 CIDR with no last assigned address \<open>GetNextAvailableIP\<close> never reports that
  the pool is empty, because the loop moves the network together with the address: it
  returns an address with the leading three bytes of the network, and it does not return at
  all exactly when the 256 addresses with those bytes are all assigned.
\<close>

theorem next_ip_never_exhausted:
  assumes "length b = 4" "n \<le> 32" "prev = [] \<or> parse_ip prev = None"
  shows "(GetNextAvailableIP (dotted b @ ''/'' @ dec n) prev m = Hang \<longleftrightarrow>
      (\<forall>x. map_get m (ip_string (butlast (and_bytes b (cidr_mask n 4)) @ [x])) \<noteq> None)) \<and>
    (\<forall>e. GetNextAvailableIP (dotted b @ ''/'' @ dec n) prev m \<noteq> Val (Inl e)) \<and>
    GetNextAvailableIP (dotted b @ ''/'' @ dec n) prev m \<noteq> Panic"
  by (rule next_ip_v4 [OF assms, of m]) auto

theorem next_ip_never_exhausted_witness:
  "GetNextAvailableIP (dotted [10, 0, 0, 0] @ ''/'' @ dec 24) [] (Some (\<lambda>_. Some ''pod'')) = Hang"
  using next_ip_never_exhausted [of "[10, 0, 0, 0]" 24 "[]" "Some (\<lambda>_. Some ''pod'')"]
  by simp

text \<open>
  The pool is left silently: when every address of an IPv4 CIDR is assigned, and one of
  the 256 addresses with its leading three bytes is not, a pod whose network has no last
  assigned address gets an address outside the CIDR.
\<close>

lemma next_ip_leaves_pool:
  assumes "length b = 4" "n \<le> 32" "prev = [] \<or> parse_ip prev = None"
    and full: "\<forall>a. length a = 4 \<and> contains (snd (the (parse_cidr (dotted b @ ''/'' @ dec n)))) a \<longrightarrow>
      map_get m (ip_string a) \<noteq> None"
    and gap: "map_get m (ip_string (butlast (and_bytes b (cidr_mask n 4)) @ [x])) = None"
  shows "\<exists>a. GetNextAvailableIP (dotted b @ ''/'' @ dec n) prev m =
      Val (Inr (ip_string a, ''/'' @ dec n)) \<and> length a = 4 \<and>
    \<not> contains (snd (the (parse_cidr (dotted b @ ''/'' @ dec n)))) a"
proof (rule next_ip_v4 [OF assms(1-3), of m])
  fix y assume y: "GetNextAvailableIP (dotted b @ ''/'' @ dec n) prev m =
      Val (Inr (ip_string (butlast (and_bytes b (cidr_mask n 4)) @ [y]), ''/'' @ dec n))"
    "map_get m (ip_string (butlast (and_bytes b (cidr_mask n 4)) @ [y])) = None"
  have "length (butlast (and_bytes b (cidr_mask n 4)) @ [y]) = 4"
    using assms(1) by (simp add: length_cidr_mask)
  then show ?thesis using y full by blast
qed (use gap in blast)

theorem next_ip_fresh_witness:
  "GetNextAvailableIP ''10.0.0.0/24'' ''10.0.0.2'' (Some [''10.0.0.3'' \<mapsto> ''pod'']) =
     Val (Inr (''10.0.0.4'', ''/24'')) \<and> map_get (Some [''10.0.0.3'' \<mapsto> ''pod'']) ''10.0.0.4'' = None"
proof -
  have l: "parse_ip ''10.0.0.2'' = Some (v4_in_v6 @ [10, 0, 0, 2])"
    using parse_ip_string [of "[10, 0, 0, 2]"] by (simp add: ip_string_four ip_eval)
  let ?net = "\<lparr>net_ip = [10, 0, 0, 0], net_mask = [255, 255, 255, 0]\<rparr>"
  let ?t = "\<lambda>s. map_get (Some [''10.0.0.3'' \<mapsto> ''pod'']) s \<noteq> None"
  have c: "contains ?net (v4_in_v6 @ [10, 0, 0, x])" for x
    by (simp add: contains_def number_and_mask_def and_bytes_def)
  have i: "ip_string (v4_in_v6 @ [10, 0, 0, x]) = dotted [10, 0, 0, x]" for x
    by (simp add: ip_string_def v4_in_v6_def to4_def)
  have "scan False ?net (v4_in_v6 @ [10, 0, 0, 3]) ?t = scan False ?net (v4_in_v6 @ [10, 0, 0, 4]) ?t"
    by (subst scan.simps) (simp only: c i if_True, simp add: ip_eval inc_last_def butlast_append)
  also have "\<dots> = Some (Some (v4_in_v6 @ [10, 0, 0, 4]))"
    by (subst scan.simps) (simp only: c i if_True, simp add: ip_eval)
  finally have "scan False ?net (inc_last (v4_in_v6 @ [10, 0, 0, 2])) ?t = Some (Some (v4_in_v6 @ [10, 0, 0, 4]))"
    by (simp add: inc_last_def butlast_append)
  then have r: "GetNextAvailableIP ''10.0.0.0/24'' ''10.0.0.2'' (Some [''10.0.0.3'' \<mapsto> ''pod'']) =
     Val (Inr (''10.0.0.4'', ''/24''))"
    using next_ip_last [OF parse_cidr_lit(2) _ l, of "Some [''10.0.0.3'' \<mapsto> ''pod'']"]
    by (simp add: i ip_eval mask_size_24)
  then show ?thesis using next_ip_fresh [OF r] by simp
qed

end
