(* ===== verification/GoJson.thy ===== *)
theory GoJson
  imports GoStrings
begin

text \<open>
  The parts of \<^verbatim>\<open>encoding/json\<close> (Go 1.23) the program relies on: the scanner with its string,
  number and nesting rules, \<^verbatim>\<open>unquote\<close> (escapes, surrogate pairs, replacement of invalid
  UTF-8), and the string encoder with HTML escaping. The parser takes fuel; \<open>json_parse\<close>
  gives it one unit per byte of input, which is enough (\<open>parse_value_fuel\<close>: more fuel
  changes nothing). \<open>scan_quote\<close> and \<open>unquote_escape\<close> are the round trip of strings.
\<close>

section \<open>UTF-8\<close>

abbreviation byte :: "char \<Rightarrow> nat" where
  "byte c \<equiv> of_char c"

definition in_range :: "nat \<Rightarrow> nat \<Rightarrow> char \<Rightarrow> bool" where
  "in_range lo hi c \<longleftrightarrow> lo \<le> byte c \<and> byte c \<le> hi"

text \<open>The bounds of the second byte of a sequence, by its first byte (the table of \<^verbatim>\<open>utf8\<close>).\<close>

definition second_ok :: "char \<Rightarrow> char \<Rightarrow> bool" where
  "second_ok a b \<longleftrightarrow>
     in_range (if byte a = 0xE0 then 0xA0 else if byte a = 0xF0 then 0x90 else 0x80)
       (if byte a = 0xED then 0x9F else if byte a = 0xF4 then 0x8F else 0xBF) b"

text \<open>
  \<^verbatim>\<open>utf8.DecodeRune\<close>: the number of bytes of the sequence at the front; 0 for an invalid one
  (Go's \<open>(RuneError, 1)\<close>).
\<close>

definition seq_len :: "string \<Rightarrow> nat" where
  "seq_len s = (case s of
       [] \<Rightarrow> 0
     | a # r \<Rightarrow>
         if byte a < 0x80 then 1
         else if in_range 0xC2 0xDF a then
           (case r of b # _ \<Rightarrow> if second_ok a b then 2 else 0 | _ \<Rightarrow> 0)
         else if in_range 0xE0 0xEF a then
           (case r of b # c # _ \<Rightarrow>
              if second_ok a b \<and> in_range 0x80 0xBF c then 3 else 0 | _ \<Rightarrow> 0)
         else if in_range 0xF0 0xF4 a then
           (case r of b # c # d # _ \<Rightarrow>
              if second_ok a b \<and> in_range 0x80 0xBF c \<and> in_range 0x80 0xBF d then 4 else 0
            | _ \<Rightarrow> 0)
         else 0)"

text \<open>\<^verbatim>\<open>utf8.AppendRune\<close>.\<close>

definition encode_rune :: "nat \<Rightarrow> string" where
  "encode_rune r =
     (if r < 0x80 then [char_of r]
      else if r < 0x800 then [char_of (0xC0 + r div 64), char_of (0x80 + r mod 64)]
      else if r < 0x10000 then
        [char_of (0xE0 + r div 4096), char_of (0x80 + r div 64 mod 64), char_of (0x80 + r mod 64)]
      else [char_of (0xF0 + r div 262144), char_of (0x80 + r div 4096 mod 64),
            char_of (0x80 + r div 64 mod 64), char_of (0x80 + r mod 64)])"

definition replacement :: string where
  "replacement = encode_rune 0xFFFD"

text \<open>A string with every invalid byte replaced: what survives a trip through JSON.\<close>

function sanitize :: "string \<Rightarrow> string" where
  "sanitize [] = []"
| "sanitize (c # s) =
     (let k = seq_len (c # s)
      in if k = 0 then replacement @ sanitize s
         else take k (c # s) @ sanitize (drop k (c # s)))"
  by pat_completeness auto
termination by (relation "measure length") auto

section \<open>Encoding a string\<close>

definition is_html :: "char \<Rightarrow> bool" where
  "is_html c \<longleftrightarrow> c = CHR ''<'' \<or> c = CHR ''>'' \<or> c = CHR ''&''"

definition escape_ascii :: "char \<Rightarrow> string" where
  "escape_ascii c =
     (if c = CHR 0x22 \<or> c = CHR 0x5C then [CHR 0x5C, c]
      else if c = CHR 0x08 then [CHR 0x5C, CHR ''b'']
      else if c = CHR 0x0C then [CHR 0x5C, CHR ''f'']
      else if c = CHR 0x0A then [CHR 0x5C, CHR ''n'']
      else if c = CHR 0x0D then [CHR 0x5C, CHR ''r'']
      else if c = CHR 0x09 then [CHR 0x5C, CHR ''t'']
      else if byte c < 0x20 \<or> is_html c then [CHR 0x5C, CHR ''u''] @ pad0 4 (hex (byte c))
      else [c])"

text \<open>\<^verbatim>\<open>appendString\<close> without the quotes: U+2028 and U+2029 are escaped as well.\<close>

function escape :: "string \<Rightarrow> string" where
  "escape [] = []"
| "escape (c # s) =
     (let k = seq_len (c # s)
      in if k = 0 then [CHR 0x5C, CHR ''u''] @ ''fffd'' @ escape s
         else if k = 1 then escape_ascii c @ escape s
         else if take k (c # s) = encode_rune 0x2028 then
           [CHR 0x5C, CHR ''u''] @ ''2028'' @ escape (drop k (c # s))
         else if take k (c # s) = encode_rune 0x2029 then
           [CHR 0x5C, CHR ''u''] @ ''2029'' @ escape (drop k (c # s))
         else take k (c # s) @ escape (drop k (c # s)))"
  by pat_completeness auto
termination by (relation "measure length") auto

definition json_string :: "string \<Rightarrow> string" where
  "json_string s = [CHR 0x22] @ escape s @ [CHR 0x22]"

section \<open>Decoding a string\<close>

text \<open>The scanner: the bytes up to the closing quote, checked, and the bytes after it.\<close>

fun scan_quoted :: "string \<Rightarrow> (string \<times> string) option" where
  "scan_quoted [] = None"
| "scan_quoted (c # s) =
     (if c = CHR 0x22 then Some ([], s)
      else if c = CHR 0x5C then
        (case s of
           [] \<Rightarrow> None
         | e # t \<Rightarrow>
             if e = CHR ''u'' then
               (case t of
                  a # b # c' # d # u \<Rightarrow>
                    if list_all is_hex_digit [a, b, c', d]
                    then map_option (\<lambda>(q, r). (c # e # a # b # c' # d # q, r)) (scan_quoted u)
                    else None
                | _ \<Rightarrow> None)
             else if e \<in> set ''bfnrt/'' \<or> e = CHR 0x5C \<or> e = CHR 0x22
             then map_option (\<lambda>(q, r). (c # e # q, r)) (scan_quoted t)
             else None)
      else if byte c < 0x20 then None
      else map_option (\<lambda>(q, r). (c # q, r)) (scan_quoted s))"

definition unescape_char :: "char \<Rightarrow> char" where
  "unescape_char e =
     (if e = CHR ''b'' then CHR 0x08 else if e = CHR ''f'' then CHR 0x0C
      else if e = CHR ''n'' then CHR 0x0A else if e = CHR ''r'' then CHR 0x0D
      else if e = CHR ''t'' then CHR 0x09 else e)"

text \<open>\<^verbatim>\<open>getu4\<close>: the value of a \<^verbatim>\<open>\uXXXX\<close> at the front.\<close>

definition getu4 :: "string \<Rightarrow> nat option" where
  "getu4 s = (case s of
       x # u # a # b # c # d # _ \<Rightarrow>
         if x = CHR 0x5C \<and> u = CHR ''u'' \<and> list_all is_hex_digit [a, b, c, d]
         then Some (hex_read [a, b, c, d]) else None
     | _ \<Rightarrow> None)"

definition is_surrogate :: "nat \<Rightarrow> bool" where
  "is_surrogate r \<longleftrightarrow> 0xD800 \<le> r \<and> r \<le> 0xDFFF"

text \<open>\<^verbatim>\<open>unquote\<close> on a scanned string: a surrogate without its partner becomes U+FFFD.\<close>

function unquote :: "string \<Rightarrow> string" where
  "unquote [] = []"
| "unquote (c # s) =
     (if c = CHR 0x5C then
        (case getu4 (c # s) of
           Some r \<Rightarrow>
             if is_surrogate r then
               (case getu4 (drop 5 s) of
                  Some r2 \<Rightarrow>
                    if r < 0xDC00 \<and> 0xDC00 \<le> r2 \<and> r2 \<le> 0xDFFF
                    then encode_rune (0x10000 + (r - 0xD800) * 0x400 + (r2 - 0xDC00)) @
                      unquote (drop 11 s)
                    else replacement @ unquote (drop 5 s)
                | None \<Rightarrow> replacement @ unquote (drop 5 s))
             else encode_rune r @ unquote (drop 5 s)
         | None \<Rightarrow>
             (case s of [] \<Rightarrow> [] | e # t \<Rightarrow> unescape_char e # unquote t))
      else let k = seq_len (c # s)
        in if k = 0 then replacement @ unquote s
           else take k (c # s) @ unquote (drop k (c # s)))"
  by pat_completeness auto
termination by (relation "measure length") auto

section \<open>Round trip of strings\<close>

lemma seq_len_take: "seq_len x = k \<Longrightarrow> 0 < k \<Longrightarrow> seq_len (take k x @ r) = k"
  by (auto simp: seq_len_def split: list.splits if_splits)

lemma seq_len_le: "seq_len x \<le> length x"
  by (auto simp: seq_len_def split: list.splits)

lemma seq_len_high:
  "seq_len x = k \<Longrightarrow> 1 < k \<Longrightarrow> c \<in> set (take k x) \<Longrightarrow> 0x80 \<le> byte c"
  by (auto simp: seq_len_def in_range_def second_ok_def split: list.splits if_splits)

lemma seq_len_1: "seq_len (c # s) = 1 \<longleftrightarrow> byte c < 0x80"
  by (auto simp: seq_len_def split: list.splits)

lemma hex4:
  assumes "n < 65536"
  obtains a b c d where "pad0 4 (hex n) = [a, b, c, d]" "list_all is_hex_digit [a, b, c, d]"
    "hex_read [a, b, c, d] = n"
proof -
  have "length (pad0 4 (hex n)) = 4"
    using hex_length_le [of 4 n] assms by (simp add: length_pad0)
  then obtain a b c d where p: "pad0 4 (hex n) = [a, b, c, d]"
    by (auto simp: numeral_eq_Suc length_Suc_conv)
  moreover have "list_all is_hex_digit [a, b, c, d]"
    using pad0_hex_digits [of _ 4 n] unfolding p list_all_iff by blast
  moreover have "hex_read [a, b, c, d] = n"
    using hex_read_pad0 [of 4 "hex n"] by (simp add: p)
  ultimately show thesis by (rule that)
qed

text \<open>Text that the scanner takes as part of a string whatever follows.\<close>

definition scannable :: "string \<Rightarrow> bool" where
  "scannable p \<longleftrightarrow> (\<forall>t q r. scan_quoted t = Some (q, r) \<longrightarrow> scan_quoted (p @ t) = Some (p @ q, r))"

lemma scannableD: "scannable p \<Longrightarrow> scan_quoted t = Some (q, r) \<Longrightarrow> scan_quoted (p @ t) = Some (p @ q, r)"
  by (simp add: scannable_def)

lemma scannable_high: "\<forall>c\<in>set p. 0x80 \<le> byte c \<Longrightarrow> scannable p"
  unfolding scannable_def by (induction p) auto

lemma scannable_u: "list_all is_hex_digit [a, b, c, d] \<Longrightarrow> scannable ([CHR 0x5C, CHR ''u''] @ [a, b, c, d])"
  by (simp add: scannable_def)

lemma unquote_u:
  "list_all is_hex_digit [a, b, c, d] \<Longrightarrow> \<not> is_surrogate (hex_read [a, b, c, d]) \<Longrightarrow>
    unquote ([CHR 0x5C, CHR ''u''] @ [a, b, c, d] @ s) =
    encode_rune (hex_read [a, b, c, d]) @ unquote s"
  by (simp add: getu4_def)

lemma scannable_escape_ascii:
  assumes "byte c < 0x80"
  shows "scannable (escape_ascii c)"
proof (cases "byte c < 0x20 \<or> is_html c")
  case True
  have "byte c < 65536" using assms by simp
  then obtain a b d e where "pad0 4 (hex (byte c)) = [a, b, d, e]" "list_all is_hex_digit [a, b, d, e]"
    by (rule hex4)
  then show ?thesis
    using scannable_u [of a b d e] True by (auto simp: escape_ascii_def is_html_def scannable_def)
qed (auto simp: escape_ascii_def scannable_def)

lemma unquote_two:
  assumes "e \<noteq> CHR ''u''"
  shows "unquote (CHR 0x5C # e # t) = unescape_char e # unquote t"
proof -
  have "getu4 (CHR 0x5C # e # t) = None" using assms by (simp add: getu4_def split: list.split)
  then show ?thesis by (subst unquote.simps) simp
qed

lemma unquote_one:
  assumes "byte c < 0x80" "c \<noteq> CHR 0x5C"
  shows "unquote (c # s) = c # unquote s"
proof -
  have "seq_len (c # s) = 1" using assms(1) seq_len_1 by blast
  then show ?thesis using assms(2) by simp
qed

lemma unquote_seq:
  assumes "seq_len x = k" "1 < k"
  shows "unquote (take k x @ s) = take k x @ unquote s"
proof -
  obtain c y where x: "take k x = c # y"
    using assms seq_len_le [of x] by (cases "take k x") auto
  then have "0x80 \<le> byte c" using seq_len_high [OF assms] by simp
  then have "c \<noteq> CHR 0x5C" by auto
  moreover have "seq_len (c # y @ s) = k" using seq_len_take [of x k s] assms x by simp
  moreover have "k = length (c # y)" using x seq_len_le [of x] assms by (metis length_take min.absorb2)
  ultimately show ?thesis using assms(2) unfolding x by (simp add: Let_def)
qed

declare unquote.simps(2) [simp del]

lemma unquote_escape_ascii:
  assumes "byte c < 0x80"
  shows "unquote (escape_ascii c @ s) = c # unquote s"
proof (cases "c \<in> {CHR 0x22, CHR 0x5C, CHR 0x08, CHR 0x0C, CHR 0x0A, CHR 0x0D, CHR 0x09}")
  case True
  then show ?thesis by (auto simp: escape_ascii_def unquote_two unescape_char_def)
next
  case plain: False
  show ?thesis
  proof (cases "byte c < 0x20 \<or> is_html c")
    case True
    have "byte c < 65536" using assms by simp
    then obtain a b d e where h: "pad0 4 (hex (byte c)) = [a, b, d, e]"
      "list_all is_hex_digit [a, b, d, e]" "hex_read [a, b, d, e] = byte c"
      by (rule hex4)
    have "encode_rune (byte c) = [c]" using assms by (simp add: encode_rune_def)
    moreover have "\<not> is_surrogate (byte c)" using assms by (simp add: is_surrogate_def)
    moreover have "escape_ascii c = [CHR 0x5C, CHR ''u''] @ [a, b, d, e]"
      using plain True h(1) by (simp add: escape_ascii_def)
    ultimately show ?thesis using unquote_u [OF h(2), of s] h(3) by simp
  next
    case False
    then show ?thesis using plain assms by (simp add: escape_ascii_def unquote_one)
  qed
qed

lemma hex_read_lits:
  "hex_read ''fffd'' = 0xFFFD" "hex_read ''2028'' = 0x2028" "hex_read ''2029'' = 0x2029"
  by (simp_all add: hex_read_def from_digits_def hex_val_def)

lemma hex_digit_lits:
  "list_all is_hex_digit ''fffd''" "list_all is_hex_digit ''2028''" "list_all is_hex_digit ''2029''"
  by (simp_all add: is_hex_digit_def hex_val_def)

lemma scannable_escape: "scannable (escape s)"
proof (induction s rule: escape.induct)
  case (2 c s)
  let ?k = "seq_len (c # s)" and ?p = "take (seq_len (c # s)) (c # s)"
  have u: "scannable ([CHR 0x5C, CHR ''u''] @ x)" if "x \<in> {''fffd'', ''2028'', ''2029''}" for x
    using that hex_digit_lits scannable_u by fastforce
  have app: "scannable (p @ q)" if "scannable p" "scannable q" for p q
    using that by (simp add: scannable_def)
  have high: "scannable ?p" if "1 < ?k"
    using seq_len_high [OF refl that] by (blast intro: scannable_high)
  consider "?k = 0" | "?k = 1" | "1 < ?k" by linarith
  then show ?case
  proof cases
    case 1
    then show ?thesis using app [OF u [of "''fffd''"] 2(1) [OF refl]] by simp
  next
    case b: 2
    then have "byte c < 0x80" using seq_len_1 by blast
    then show ?thesis using app [OF scannable_escape_ascii 2(2) [OF refl]] b by simp
  next
    case 3
    then have "?k \<noteq> 0" "?k \<noteq> 1" by auto
    note IH = 2(3-5) [OF refl this]
    consider "?p = encode_rune 0x2028" | "?p \<noteq> encode_rune 0x2028" "?p = encode_rune 0x2029"
      | "?p \<noteq> encode_rune 0x2028" "?p \<noteq> encode_rune 0x2029" by blast
    then show ?thesis
    proof cases
      case a: 1
      then show ?thesis using app [OF u [of "''2028''"] IH(1)] 3 by simp
    next
      case a: 2
      then show ?thesis using app [OF u [of "''2029''"] IH(2)] 3 by simp
    next
      case a: 3
      then show ?thesis using app [OF high [OF 3] IH(3) [OF a]] 3 by (simp add: Let_def)
    qed
  qed
qed (simp add: scannable_def)

lemma scan_quote: "scan_quoted (escape s @ CHR 0x22 # r) = Some (escape s, r)"
  using scannableD [OF scannable_escape, of "CHR 0x22 # r" "[]" r s] by simp

lemma unquote_lit:
  "unquote ([CHR 0x5C, CHR ''u''] @ ''fffd'' @ s) = replacement @ unquote s"
  "unquote ([CHR 0x5C, CHR ''u''] @ ''2028'' @ s) = encode_rune 0x2028 @ unquote s"
  "unquote ([CHR 0x5C, CHR ''u''] @ ''2029'' @ s) = encode_rune 0x2029 @ unquote s"
  using unquote_u [OF hex_digit_lits(1), of s] unquote_u [OF hex_digit_lits(2), of s]
    unquote_u [OF hex_digit_lits(3), of s]
  by (simp_all add: hex_read_lits is_surrogate_def replacement_def)

lemma unquote_escape: "unquote (escape s) = sanitize s"
proof (induction s rule: escape.induct)
  case (2 c s)
  let ?k = "seq_len (c # s)" and ?p = "take (seq_len (c # s)) (c # s)"
  consider "?k = 0" | "?k = 1" | "1 < ?k" by linarith
  then show ?case
  proof cases
    case 1
    then show ?thesis using unquote_lit(1) 2(1) [OF refl] by simp
  next
    case b: 2
    then have "byte c < 0x80" using seq_len_1 by blast
    then show ?thesis using unquote_escape_ascii [of c "escape s"] 2(2) [OF refl] b by simp
  next
    case 3
    then have "?k \<noteq> 0" "?k \<noteq> 1" by auto
    note IH = 2(3-5) [OF refl this]
    consider "?p = encode_rune 0x2028" | "?p \<noteq> encode_rune 0x2028" "?p = encode_rune 0x2029"
      | "?p \<noteq> encode_rune 0x2028" "?p \<noteq> encode_rune 0x2029" by blast
    then have "unquote (escape (c # s)) = ?p @ unquote (escape (drop ?k (c # s)))"
    proof cases
      case a: 1
      then show ?thesis using unquote_lit(2) 3 by simp
    next
      case a: 2
      then show ?thesis using unquote_lit(3) 3 by simp
    next
      case a: 3
      then show ?thesis using unquote_seq [OF refl 3] 3 by (simp add: Let_def)
    qed
    moreover have "unquote (escape (drop ?k (c # s))) = sanitize (drop ?k (c # s))"
      using IH by blast
    ultimately show ?thesis using 3 by (simp add: Let_def)
  qed
qed simp

section \<open>Values\<close>

datatype json = JNull | JBool bool | JNum string | JStr string | JArr "json list"
  | JObj "(string \<times> json) list"

definition is_ws :: "char \<Rightarrow> bool" where
  "is_ws c \<longleftrightarrow> c = CHR '' '' \<or> c = CHR 0x09 \<or> c = CHR 0x0D \<or> c = CHR 0x0A"

abbreviation skip_ws :: "string \<Rightarrow> string" where
  "skip_ws \<equiv> dropWhile is_ws"

definition scan_digits :: "string \<Rightarrow> (string \<times> string) option" where
  "scan_digits s = (case takeWhile is_dec_digit s of
       [] \<Rightarrow> None | ds \<Rightarrow> Some (ds, dropWhile is_dec_digit s))"

definition scan_frac :: "string \<Rightarrow> (string \<times> string) option" where
  "scan_frac s = (case s of
       c # r \<Rightarrow> if c = CHR ''.'' then map_option (\<lambda>(q, r). (c # q, r)) (scan_digits r) else Some ([], s)
     | [] \<Rightarrow> Some ([], s))"

definition scan_exp :: "string \<Rightarrow> (string \<times> string) option" where
  "scan_exp s = (case s of
       c # r \<Rightarrow>
         if c \<in> set ''eE'' then
           (case r of
              x # y \<Rightarrow> if x \<in> set ''+-'' then map_option (\<lambda>(q, r). (c # x # q, r)) (scan_digits y)
                       else map_option (\<lambda>(q, r). (c # q, r)) (scan_digits r)
            | [] \<Rightarrow> None)
         else Some ([], s)
     | [] \<Rightarrow> Some ([], s))"

text \<open>A number without its sign: a lone 0 or digits not starting with 0, fraction, exponent.\<close>

definition scan_number :: "string \<Rightarrow> (string \<times> string) option" where
  "scan_number s =
     Option.bind (case s of
         c # r \<Rightarrow> if c = CHR ''0'' then Some ([c], r) else scan_digits s
       | [] \<Rightarrow> None)
     (\<lambda>(i, r). Option.bind (scan_frac r)
     (\<lambda>(f, r). map_option (\<lambda>(e, r). (i @ f @ e, r)) (scan_exp r)))"

definition max_depth :: nat where
  "max_depth = 10000"

definition parse_scalar :: "char \<Rightarrow> string \<Rightarrow> (json \<times> string) option" where
  "parse_scalar c r =
     (if c = CHR 0x22 then map_option (\<lambda>(q, r). (JStr (unquote q), r)) (scan_quoted r)
      else if c = CHR ''-'' then map_option (\<lambda>(q, r). (JNum (c # q), r)) (scan_number r)
      else if is_dec_digit c then map_option (\<lambda>(q, r). (JNum q, r)) (scan_number (c # r))
      else if starts_with ''null'' (c # r) then Some (JNull, drop 3 r)
      else if starts_with ''true'' (c # r) then Some (JBool True, drop 3 r)
      else if starts_with ''false'' (c # r) then Some (JBool False, drop 4 r)
      else None)"

fun parse_value :: "nat \<Rightarrow> nat \<Rightarrow> string \<Rightarrow> (json \<times> string) option"
  and parse_elems :: "nat \<Rightarrow> nat \<Rightarrow> string \<Rightarrow> (json list \<times> string) option"
  and parse_members :: "nat \<Rightarrow> nat \<Rightarrow> string \<Rightarrow> ((string \<times> json) list \<times> string) option" where
  "parse_value 0 d s = None"
| "parse_value (Suc n) d s =
     (case skip_ws s of
        [] \<Rightarrow> None
      | c # r \<Rightarrow>
          if c = CHR ''['' then
            if max_depth \<le> d then None
            else if starts_with '']'' (skip_ws r) then Some (JArr [], tl (skip_ws r))
            else map_option (\<lambda>(vs, r). (JArr vs, r)) (parse_elems n (Suc d) r)
          else if c = CHR ''{'' then
            if max_depth \<le> d then None
            else if starts_with ''}'' (skip_ws r) then Some (JObj [], tl (skip_ws r))
            else map_option (\<lambda>(ms, r). (JObj ms, r)) (parse_members n (Suc d) r)
          else parse_scalar c r)"
| "parse_elems 0 d s = None"
| "parse_elems (Suc n) d s =
     (case parse_value n d s of
        None \<Rightarrow> None
      | Some (v, r) \<Rightarrow>
          (case skip_ws r of
             [] \<Rightarrow> None
           | c # t \<Rightarrow>
               if c = CHR '','' then map_option (\<lambda>(vs, r). (v # vs, r)) (parse_elems n d t)
               else if c = CHR '']'' then Some ([v], t)
               else None))"
| "parse_members 0 d s = None"
| "parse_members (Suc n) d s =
     (case skip_ws s of
        [] \<Rightarrow> None
      | c # t \<Rightarrow>
          if c \<noteq> CHR 0x22 then None
          else (case scan_quoted t of
             None \<Rightarrow> None
           | Some (k, u) \<Rightarrow>
               if \<not> starts_with '':'' (skip_ws u) then None
               else (case parse_value n d (tl (skip_ws u)) of
                  None \<Rightarrow> None
                | Some (v, r) \<Rightarrow>
                    (case skip_ws r of
                       [] \<Rightarrow> None
                     | c # x \<Rightarrow>
                         if c = CHR '','' then
                           map_option (\<lambda>(ms, r). ((unquote k, v) # ms, r)) (parse_members n d x)
                         else if c = CHR ''}'' then Some ([(unquote k, v)], x)
                         else None))))"

definition json_parse :: "string \<Rightarrow> json option" where
  "json_parse s = (case parse_value (2 * length s + 1) 0 s of
       Some (v, r) \<Rightarrow> if skip_ws r = [] then Some v else None
     | None \<Rightarrow> None)"

section \<open>The fuel is enough\<close>

lemma skip_ws_len: "length (skip_ws s) \<le> length s"
  by (rule length_dropWhile_le)

lemma skip_ws_Cons: "skip_ws s = c # r \<Longrightarrow> length r < length s"
  using skip_ws_len [of s] by simp

lemma scan_quoted_len: "scan_quoted s = Some (q, r) \<Longrightarrow> length r < length s"
proof (induction s arbitrary: q r rule: length_induct)
  case (1 s)
  have IH: "length r < length t" if "scan_quoted t = Some (q, r)" "length t < length s" for t q r
    using 1 that by blast
  obtain c u where s: "s = c # u" using "1.prems" by (cases s) auto
  show ?case
    using "1.prems" unfolding s scan_quoted.simps
    by (auto simp: s simp del: scan_quoted.simps split: if_splits list.splits dest!: IH)
qed

lemma scan_digits_len: "scan_digits s = Some (q, r) \<Longrightarrow> length r < length s"
  by (auto simp: scan_digits_def split: list.splits)
    (metis append_Cons length_Cons length_append less_add_Suc2 takeWhile_dropWhile_id)

lemma scan_frac_len: "scan_frac s = Some (q, r) \<Longrightarrow> length r \<le> length s"
  by (cases s) (auto simp: scan_frac_def split: if_splits dest: scan_digits_len)

lemma scan_exp_len: "scan_exp s = Some (q, r) \<Longrightarrow> length r \<le> length s"
  by (auto simp: scan_exp_def split: list.splits if_splits dest: scan_digits_len)

lemma scan_number_len:
  assumes "scan_number s = Some (q, r)" shows "length r < length s"
proof -
  obtain i x f y e where *: "(case s of c # r \<Rightarrow> if c = CHR ''0'' then Some ([c], r) else scan_digits s
       | [] \<Rightarrow> None) = Some (i, x)" "scan_frac x = Some (f, y)" "scan_exp y = Some (e, r)"
    using assms by (auto simp: scan_number_def bind_eq_Some_conv)
  have "length x < length s"
    using *(1) by (auto split: list.splits if_splits dest: scan_digits_len)
  then show ?thesis using scan_frac_len [OF *(2)] scan_exp_len [OF *(3)] by simp
qed

lemma parse_scalar_len: "parse_scalar c t = Some (v, r) \<Longrightarrow> length r \<le> length t"
  by (auto simp: parse_scalar_def split: if_splits
      dest!: scan_quoted_len scan_number_len)

lemma parse_len:
  "parse_value n d s = Some (v, r) \<Longrightarrow> length r < length s"
  "parse_elems n d s = Some (vs, r) \<Longrightarrow> length r < length s"
  "parse_members n d s = Some (ms, r) \<Longrightarrow> length r < length s"
proof (induction n d s and n d s and n d s arbitrary: v r and vs r and ms r
    rule: parse_value_parse_elems_parse_members.induct)
  case (2 n d s)
  obtain c t where t: "skip_ws s = c # t" using "2.prems" by (auto split: list.splits)
  have l: "length t < length s" using skip_ws_Cons [OF t] .
  have w: "length (tl (skip_ws t)) \<le> length t" using skip_ws_len [of t] by simp
  have c: "CHR ''{'' \<noteq> CHR ''[''" by simp
  consider "c = CHR ''[''" | "c = CHR ''{''" | "c \<noteq> CHR ''[''" "c \<noteq> CHR ''{''" by blast
  then show ?case
  proof cases
    case 1
    show ?thesis using "2.prems" "2.IH"(1) [OF t 1] l w
      by (auto simp: t 1 split: if_splits)
  next
    case a: 2
    have "c \<noteq> CHR ''[''" using a by simp
    then show ?thesis using "2.prems" "2.IH"(2) [OF t _ a] l w
      by (auto simp: t a split: if_splits)
  next
    case 3
    then show ?thesis using "2.prems" parse_scalar_len [of c t v r] l by (simp add: t)
  qed
next
  case (4 n d s)
  then show ?case
    by (auto split: option.splits list.splits if_splits dest!: skip_ws_Cons) fastforce+
next
  case (6 n d s)
  obtain c t k u v x where t: "skip_ws s = c # t" "c = CHR 0x22" "scan_quoted t = Some (k, u)"
    "starts_with '':'' (skip_ws u)" "parse_value n d (tl (skip_ws u)) = Some (v, x)"
    using "6.prems" by (auto split: option.splits list.splits if_splits)
  have "length t < length s" "length u < length t" "length (tl (skip_ws u)) \<le> length u"
    using skip_ws_Cons [OF t(1)] scan_quoted_len [OF t(3)] skip_ws_len [of u] by auto
  moreover have "length x < length (tl (skip_ws u))"
    using "6.IH"(1) [OF t(1) _ t(3) refl _ t(5)] t by simp
  moreover obtain c' y where y: "skip_ws x = c' # y"
      "(case (c' = CHR '','') of True \<Rightarrow> \<exists>ms'. parse_members n d y = Some (ms', r) | False \<Rightarrow> r = y)"
    using "6.prems" t by (auto split: list.splits if_splits)
  moreover have "length r \<le> length y"
  proof (cases "c' = CHR '',''")
    case True
    then obtain ms' where "parse_members n d y = Some (ms', r)" using y(2) by auto
    then show ?thesis
      using "6.IH"(2) [OF t(1) _ t(3) refl _ t(5) refl y(1) True, of ms' r] t by simp
  qed (use y(2) in simp)
  ultimately show ?case using skip_ws_Cons [OF y(1)] by linarith
qed auto

declare parse_value.simps(2) [simp del] parse_elems.simps(2) [simp del] parse_members.simps(2) [simp del]

lemmas parse_steps = parse_value.simps(2) parse_elems.simps(2) parse_members.simps(2)

text \<open>With two units per byte, more fuel changes nothing.\<close>

lemma parse_fuel:
  "(\<forall>d s. 2 * length s + 1 \<le> n \<longrightarrow> parse_value (Suc n) d s = parse_value n d s) \<and>
   (\<forall>d s. 2 * length s + 2 \<le> n \<longrightarrow> parse_elems (Suc n) d s = parse_elems n d s) \<and>
   (\<forall>d s. 2 * length s + 2 \<le> n \<longrightarrow> parse_members (Suc n) d s = parse_members n d s)"
proof (induction n)
  case (Suc n)
  note V = Suc [THEN conjunct1, rule_format] and E = Suc [THEN conjunct2, THEN conjunct1, rule_format]
    and M = Suc [THEN conjunct2, THEN conjunct2, rule_format]
  have val: "parse_value (Suc (Suc n)) d s = parse_value (Suc n) d s"
    if "2 * length s + 1 \<le> Suc n" for d s
  proof (cases "skip_ws s")
    case (Cons c r)
    then have "length r < length s" by (rule skip_ws_Cons)
    then have "2 * length r + 2 \<le> n" using that by linarith
    then have "parse_elems (Suc n) (Suc d) r = parse_elems n (Suc d) r"
      "parse_members (Suc n) (Suc d) r = parse_members n (Suc d) r" by (rule E, rule M)
    then show ?thesis unfolding parse_value.simps(2) Cons list.case by (simp only:)
  next
    case Nil
    then show ?thesis unfolding parse_value.simps(2) Nil by (simp only: list.case)
  qed
  have elems: "parse_elems (Suc (Suc n)) d s = parse_elems (Suc n) d s"
    if "2 * length s + 2 \<le> Suc n" for d s
  proof -
    have "2 * length s + 1 \<le> n" using that by simp
    then have v: "parse_value (Suc n) d s = parse_value n d s" by (rule V)
    show ?thesis
    proof (cases "parse_value n d s")
      case None
      then show ?thesis unfolding parse_elems.simps(2) v by simp
    next
      case (Some p)
      obtain x r where p: "p = (x, r)" by (cases p)
      then have l: "length r < length s" using parse_len(1) Some by blast
      show ?thesis
      proof (cases "skip_ws r")
        case Nil
        then show ?thesis unfolding parse_elems.simps(2) v Some p option.case prod.case Nil list.case by simp
      next
        case (Cons c t)
        have "parse_elems (Suc n) d t = parse_elems n d t"
          using skip_ws_Cons [OF Cons] l \<open>2 * length s + 2 \<le> Suc n\<close> by (intro E) linarith
        then show ?thesis
          unfolding parse_elems.simps(2) v Some p option.case prod.case Cons list.case by (simp only:)
      qed
    qed
  qed
  have members: "parse_members (Suc (Suc n)) d s = parse_members (Suc n) d s"
    if "2 * length s + 2 \<le> Suc n" for d s
  proof -
    have v: "parse_value (Suc n) d (tl (skip_ws u)) = parse_value n d (tl (skip_ws u))"
      and m: "\<And>x r c y. parse_value n d (tl (skip_ws u)) = Some (x, r) \<Longrightarrow> skip_ws r = c # y \<Longrightarrow>
        parse_members (Suc n) d y = parse_members n d y"
      if "skip_ws s = c # t" "scan_quoted t = Some (k, u)" for c t k u
    proof -
      have l: "length (tl (skip_ws u)) < length s"
        using skip_ws_Cons [OF that(1)] scan_quoted_len [OF that(2)] skip_ws_len [of u] by simp
      then show "parse_value (Suc n) d (tl (skip_ws u)) = parse_value n d (tl (skip_ws u))"
        using \<open>2 * length s + 2 \<le> Suc n\<close> by (intro V) linarith
      fix x r c' y assume "parse_value n d (tl (skip_ws u)) = Some (x, r)" "skip_ws r = c' # y"
      then show "parse_members (Suc n) d y = parse_members n d y"
        using parse_len(1) skip_ws_Cons l \<open>2 * length s + 2 \<le> Suc n\<close> by (intro M) fastforce
    qed
    note S = parse_members.simps(2) [of "Suc n" d s] parse_members.simps(2) [of n d s]
    show ?thesis
    proof (cases "skip_ws s")
      case (Cons c t)
      show ?thesis
      proof (cases "scan_quoted t")
        case (Some ku)
        obtain k u where "ku = (k, u)" by (cases ku)
        note Q = Some [unfolded this]
        note V = v [OF Cons Q] and M = m [OF Cons Q]
        show ?thesis
        proof (cases "parse_value n d (tl (skip_ws u))")
          case (Some xr)
          obtain x r where "xr = (x, r)" by (cases xr)
          note P = Some [unfolded this]
          note M' = M [OF P]
          show ?thesis
            by (cases "skip_ws r")
              (simp_all add: S Cons Q V P M' del: dropWhile_eq_Nil_conv)
        qed (simp add: S Cons Q V)
      qed (simp add: S Cons)
    qed (simp add: S del: dropWhile_eq_Nil_conv)
  qed
  show ?case using val elems members by blast
qed simp

lemma parse_value_fuel:
  assumes "2 * length s + 1 \<le> n"
  shows "parse_value n d s = parse_value (2 * length s + 1) d s"
  using assms
proof (induction n rule: dec_induct)
  case (step n)
  then show ?case using parse_fuel by simp
qed simp

section \<open>Printing a value and reading it back\<close>

fun print_json :: "json \<Rightarrow> string" where
  "print_json JNull = ''null''"
| "print_json (JBool b) = (if b then ''true'' else ''false'')"
| "print_json (JNum s) = s"
| "print_json (JStr s) = json_string s"
| "print_json (JArr vs) = ''['' @ join '','' (map print_json vs) @ '']''"
| "print_json (JObj ms) =
     ''{'' @ join '','' (map (\<lambda>(k, v). json_string k @ '':'' @ print_json v) ms) @ ''}''"

text \<open>The value read back: its strings sanitized; numbers are left out.\<close>

fun json_clean :: "json \<Rightarrow> json" where
  "json_clean (JStr s) = JStr (sanitize s)"
| "json_clean (JArr vs) = JArr (map json_clean vs)"
| "json_clean (JObj ms) = JObj (map (\<lambda>(k, v). (sanitize k, json_clean v)) ms)"
| "json_clean v = v"

fun json_depth :: "json \<Rightarrow> nat" where
  "json_depth (JArr vs) = Suc (foldr max (map json_depth vs) 0)"
| "json_depth (JObj ms) = Suc (foldr max (map (\<lambda>(k, v). json_depth v) ms) 0)"
| "json_depth v = 0"

fun no_num :: "json \<Rightarrow> bool" where
  "no_num (JNum s) = False"
| "no_num (JArr vs) = list_all no_num vs"
| "no_num (JObj ms) = list_all (\<lambda>(k, v). no_num v) ms"
| "no_num v = True"

lemma print_head:
  "no_num v \<Longrightarrow> \<exists>c r. print_json v = c # r \<and> \<not> is_ws c \<and> c \<noteq> CHR '']''"
  by (cases v) (auto simp: json_string_def is_ws_def)

lemma foldr_max_le: "x \<in> set xs \<Longrightarrow> x \<le> foldr max xs (0 :: nat)"
  by (induction xs) auto

text \<open>A text that is read as a value, whatever follows it.\<close>

definition reads_as :: "string \<Rightarrow> json \<Rightarrow> bool" where
  "reads_as t v \<longleftrightarrow> (\<forall>n d r. d + json_depth v \<le> max_depth \<longrightarrow> 2 * length (t @ r) + 1 \<le> n \<longrightarrow>
     parse_value n d (t @ r) = Some (json_clean v, r))"

abbreviation reads_back :: "json \<Rightarrow> bool" where
  "reads_back v \<equiv> reads_as (print_json v) v"

lemma skip_ws_print [simp]: "no_num v \<Longrightarrow> skip_ws (print_json v @ r) = print_json v @ r"
  using print_head [of v] by auto

lemma parse_elems_texts:
  assumes "\<forall>x\<in>set xs. reads_as (f x) (g x) \<and> d + json_depth (g x) \<le> max_depth" "xs \<noteq> []"
    "2 * length (join '','' (map f xs) @ '']'' @ r) + 2 \<le> n"
  shows "parse_elems n d (join '','' (map f xs) @ '']'' @ r) = Some (map (json_clean \<circ> g) xs, r)"
  using assms
proof (induction xs arbitrary: n)
  case (Cons v vs)
  obtain m where n: "n = Suc m" using Cons.prems(3) by (cases n) auto
  have v: "parse_value m d (f v @ t) = Some (json_clean (g v), t)"
    if "2 * length (f v @ t) + 1 \<le> m" for t
    using Cons.prems(1) that by (simp add: reads_as_def)
  show ?case
  proof (cases vs)
    case Nil
    then show ?thesis
      using Cons.prems(3) v [of "'']'' @ r"] by (simp add: parse_steps n is_ws_def)
  next
    case (Cons w ws)
    let ?t = "join '','' (map f vs) @ '']'' @ r"
    have "parse_elems m d ?t = Some (map (json_clean \<circ> g) vs, r)"
      using Cons.IH [of m] Cons.prems Cons by (simp add: n)
    moreover have "parse_value m d (f v @ '','' @ ?t) = Some (json_clean (g v), '','' @ ?t)"
      using Cons.prems(3) Cons by (intro v) (simp add: n)
    ultimately show ?thesis using Cons by (simp add: parse_steps n is_ws_def)
  qed
qed simp

lemma parse_elems_print:
  assumes "\<forall>v\<in>set vs. reads_back v \<and> d + json_depth v \<le> max_depth" "vs \<noteq> []"
    "2 * length (join '','' (map print_json vs) @ '']'' @ r) + 2 \<le> n"
  shows "parse_elems n d (join '','' (map print_json vs) @ '']'' @ r) = Some (map json_clean vs, r)"
  using parse_elems_texts [of vs print_json "\<lambda>v. v" d r n] assms by (simp add: comp_def)

definition print_member :: "string \<times> json \<Rightarrow> string" where
  "print_member m = json_string (fst m) @ '':'' @ print_json (snd m)"

lemma parse_members_print:
  assumes "\<forall>(k, v)\<in>set ms. reads_back v \<and> no_num v \<and> d + json_depth v \<le> max_depth" "ms \<noteq> []"
    "2 * length (join '','' (map print_member ms) @ ''}'' @ r) + 2 \<le> n"
  shows "parse_members n d (join '','' (map print_member ms) @ ''}'' @ r) =
    Some (map (\<lambda>(k, v). (sanitize k, json_clean v)) ms, r)"
  using assms
proof (induction ms arbitrary: n)
  case (Cons m ms)
  obtain k v where m: "m = (k, v)" by (cases m)
  obtain f where n: "n = Suc f" using Cons.prems(3) by (cases n) auto
  have step: "parse_members n d (print_member m @ t) =
      (case skip_ws t of
         [] \<Rightarrow> None
       | c # x \<Rightarrow>
           if c = CHR '','' then
             map_option (\<lambda>(ms, r). ((unquote (escape k), json_clean v) # ms, r)) (parse_members f d x)
           else if c = CHR ''}'' then Some ([(unquote (escape k), json_clean v)], x)
           else None)"
    if "2 * length (print_member m @ t) \<le> f" for t
  proof -
    have "parse_value f d (print_json v @ t) = Some (json_clean v, t)"
      using Cons.prems(1) that by (auto simp: m reads_as_def print_member_def json_string_def)
    moreover have "scan_quoted (escape k @ CHR 0x22 # CHR '':'' # print_json v @ t) =
        Some (escape k, CHR '':'' # print_json v @ t)" by (rule scan_quote)
    ultimately show ?thesis
      by (simp add: parse_steps m n print_member_def json_string_def is_ws_def starts_with_def)
  qed
  show ?case
  proof (cases ms)
    case Nil
    then show ?thesis
      using Cons.prems(3) step [of "''}'' @ r"] by (simp add: parse_steps n m is_ws_def unquote_escape)
  next
    case (Cons m2 ms2)
    let ?t = "join '','' (map print_member ms) @ ''}'' @ r"
    have "parse_members f d ?t = Some (map (\<lambda>(k, v). (sanitize k, json_clean v)) ms, r)"
      using Cons.IH [of f] Cons.prems Cons by (simp add: n)
    then show ?thesis
      using Cons Cons.prems(3) step [of "'','' @ ?t"] by (simp add: parse_steps n m is_ws_def unquote_escape)
  qed
qed simp

lemma parse_print: "no_num v \<Longrightarrow> reads_back v"
proof (induction v)
  case (JArr vs)
  have sub: "reads_back v \<and> Suc d + json_depth v \<le> max_depth"
    if "v \<in> set vs" "d + json_depth (JArr vs) \<le> max_depth" for v d
    using JArr that foldr_max_le [of "json_depth v" "map json_depth vs"]
    by (auto simp: list_all_iff)
  show ?case
    unfolding reads_as_def
  proof (intro allI impI)
    fix n d r assume d: "d + json_depth (JArr vs) \<le> max_depth"
      and n: "2 * length (print_json (JArr vs) @ r) + 1 \<le> n"
    obtain m where m: "n = Suc m" using n by (cases n) auto
    show "parse_value n d (print_json (JArr vs) @ r) = Some (json_clean (JArr vs), r)"
    proof (cases vs)
      case Nil
      then show ?thesis using d by (simp add: parse_steps m is_ws_def starts_with_def)
    next
      case (Cons w ws)
      have w: "no_num w" using JArr.prems Cons by simp
      obtain c x where j: "print_json w = c # x" "\<not> is_ws c" "c \<noteq> CHR '']''"
        using print_head [OF w] by blast
      obtain y where y: "join '','' (map print_json vs) @ '']'' @ r = c # y"
        using j Cons by (cases ws) auto
      have "parse_elems m (Suc d) (join '','' (map print_json vs) @ '']'' @ r) =
          Some (map json_clean vs, r)"
        using sub d n Cons by (intro parse_elems_print) (auto simp: m)
      then show ?thesis
        using d j y by (simp add: parse_steps m is_ws_def starts_with_def)
    qed
  qed
next
  case (JObj ms)
  have sub: "reads_back v \<and> no_num v \<and> Suc d + json_depth v \<le> max_depth"
    if "(k, v) \<in> set ms" "d + json_depth (JObj ms) \<le> max_depth" for k v d
    using JObj that foldr_max_le [of "json_depth v" "map (\<lambda>(k, v). json_depth v) ms"]
    by (fastforce simp: list_all_iff)
  show ?case
    unfolding reads_as_def
  proof (intro allI impI)
    fix n d r assume d: "d + json_depth (JObj ms) \<le> max_depth"
      and n: "2 * length (print_json (JObj ms) @ r) + 1 \<le> n"
    obtain m where m: "n = Suc m" using n by (cases n) auto
    have pm: "map (\<lambda>(k, v). json_string k @ '':'' @ print_json v) ms = map print_member ms"
      by (auto simp: print_member_def)
    show "parse_value n d (print_json (JObj ms) @ r) = Some (json_clean (JObj ms), r)"
    proof (cases ms)
      case Nil
      then show ?thesis using d by (simp add: parse_steps m is_ws_def starts_with_def)
    next
      case (Cons w ws)
      then have "ms \<noteq> []" by simp
      have n': "2 * length (join '','' (map print_member ms) @ ''}'' @ r) + 2 \<le> m"
        using n unfolding print_json.simps pm by (simp add: m)
      obtain y where y: "join '','' (map print_member ms) @ ''}'' @ r = CHR 0x22 # y"
        using Cons by (cases ws) (auto simp: print_member_def json_string_def)
      have "parse_members m (Suc d) (join '','' (map print_member ms) @ ''}'' @ r) =
          Some (map (\<lambda>(k, v). (sanitize k, json_clean v)) ms, r)"
        using sub d n' \<open>ms \<noteq> []\<close> by (intro parse_members_print) auto
      then show ?thesis
        using d unfolding print_json.simps pm append_assoc y m
        by (simp add: parse_steps is_ws_def starts_with_def)
    qed
  qed
next
  case (JStr s)
  have "parse_value (Suc m) d (print_json (JStr s) @ r) = Some (json_clean (JStr s), r)" for m d r
    by (simp add: parse_steps json_string_def is_ws_def parse_scalar_def scan_quote unquote_escape)
  then show ?case unfolding reads_as_def by (metis Suc_eq_plus1 Suc_le_D)
next
  case JNull
  have "parse_value (Suc m) d (print_json JNull @ r) = Some (json_clean JNull, r)" for m d r
    by (simp add: parse_steps is_ws_def parse_scalar_def starts_with_def is_dec_digit_def digit_val_def)
  then show ?case unfolding reads_as_def by (metis Suc_eq_plus1 Suc_le_D)
next
  case (JBool b)
  have "parse_value (Suc m) d (print_json (JBool b) @ r) = Some (json_clean (JBool b), r)" for m d r
    by (cases b) (simp_all add: parse_steps is_ws_def parse_scalar_def starts_with_def is_dec_digit_def digit_val_def)
  then show ?case unfolding reads_as_def by (metis Suc_eq_plus1 Suc_le_D)
qed simp

text \<open>What is printed is read back, up to the replacement of invalid bytes.\<close>

lemma json_parse_print:
  assumes "no_num v" "json_depth v \<le> max_depth"
  shows "json_parse (print_json v) = Some (json_clean v)"
proof -
  have "parse_value (2 * length (print_json v) + 1) 0 (print_json v @ []) = Some (json_clean v, [])"
    by (rule parse_print [OF assms(1), unfolded reads_as_def, rule_format]) (use assms(2) in simp_all)
  then show ?thesis unfolding json_parse_def by simp
qed

section \<open>Text that was not printed by the encoder\<close>

text \<open>Characters that stand for themselves in a string, and white space before a value.\<close>

definition unescaped :: "char \<Rightarrow> bool" where
  "unescaped c \<longleftrightarrow> 0x20 \<le> byte c \<and> byte c < 0x80 \<and> c \<noteq> CHR 0x22 \<and> c \<noteq> CHR 0x5C"

lemma scan_unescaped: "list_all unescaped s \<Longrightarrow> scan_quoted (s @ CHR 0x22 # r) = Some (s, r)"
  by (induction s) (auto simp: unescaped_def)

lemma unquote_unescaped: "list_all unescaped s \<Longrightarrow> unquote s = s"
  by (induction s) (auto simp: unescaped_def unquote_one)

lemma sanitize_ascii: "\<forall>c\<in>set s. byte c < 0x80 \<Longrightarrow> sanitize s = s"
proof (induction s)
  case (Cons c s)
  then have "seq_len (c # s) = 1" using seq_len_1 by simp
  then show ?case using Cons by (simp add: sanitize.simps(2))
qed simp

lemma sanitize_unescaped: "list_all unescaped s \<Longrightarrow> sanitize s = s"
  by (rule sanitize_ascii) (auto simp: unescaped_def list_all_iff)

lemma reads_string: "list_all unescaped s \<Longrightarrow> reads_as (CHR 0x22 # s @ [CHR 0x22]) (JStr s)"
  unfolding reads_as_def
proof (intro allI impI)
  fix n d r assume s: "list_all unescaped s" and "2 * length ((CHR 0x22 # s @ [CHR 0x22]) @ r) + 1 \<le> n"
  then obtain m where "n = Suc m" by (cases n) auto
  then show "parse_value n d ((CHR 0x22 # s @ [CHR 0x22]) @ r) = Some (json_clean (JStr s), r)"
    using s by (simp add: parse_steps is_ws_def parse_scalar_def scan_unescaped unquote_unescaped sanitize_unescaped)
qed

lemma parse_value_ws: "list_all is_ws w \<Longrightarrow> parse_value n d (w @ s) = parse_value n d s"
  by (cases n) (simp_all add: parse_value.simps(2) dropWhile_append1 list_all_iff)

lemma parse_members_ws: "list_all is_ws w \<Longrightarrow> parse_members n d (w @ s) = parse_members n d s"
  by (cases n) (simp_all add: parse_members.simps(2) list_all_iff)

lemma parse_members_step:
  assumes k: "list_all unescaped k" and w: "list_all is_ws w" and t: "reads_as t v" "d + json_depth v \<le> max_depth"
    and f: "2 * length (t @ r) + 1 \<le> f"
  shows "parse_members (Suc f) d (CHR 0x22 # k @ CHR 0x22 # CHR '':'' # w @ t @ r) =
    (case skip_ws r of
       [] \<Rightarrow> None
     | c # x \<Rightarrow>
         if c = CHR '','' then map_option (\<lambda>(ms, r). ((k, json_clean v) # ms, r)) (parse_members f d x)
         else if c = CHR ''}'' then Some ([(k, json_clean v)], x)
         else None)"
proof -
  have "parse_value f d (w @ t @ r) = Some (json_clean v, r)"
    using t f by (simp add: parse_value_ws [OF w] reads_as_def)
  then show ?thesis
    unfolding parse_members.simps(2)
    using k by (simp add: is_ws_def starts_with_def scan_unescaped) (unfold unquote_unescaped [OF k], rule refl)
qed

lemma reads_array:
  assumes "\<forall>x\<in>set xs. reads_as (f x) (g x)" "\<forall>x\<in>set xs. \<exists>c r. f x = c # r \<and> \<not> is_ws c \<and> c \<noteq> CHR '']''"
  shows "reads_as (''['' @ join '','' (map f xs) @ '']'') (JArr (map g xs))"
  unfolding reads_as_def
proof (intro allI impI)
  fix n d r assume d: "d + json_depth (JArr (map g xs)) \<le> max_depth"
    and n: "2 * length ((''['' @ join '','' (map f xs) @ '']'') @ r) + 1 \<le> n"
  obtain m where m: "n = Suc m" using n by (cases n) auto
  show "parse_value n d ((''['' @ join '','' (map f xs) @ '']'') @ r) = Some (json_clean (JArr (map g xs)), r)"
  proof (cases xs)
    case Nil
    then show ?thesis using d by (simp add: parse_steps m is_ws_def starts_with_def)
  next
    case (Cons x ys)
    obtain c u where c: "f x = c # u" "\<not> is_ws c" "c \<noteq> CHR '']''" using assms(2) Cons by auto
    obtain y where y: "join '','' (map f xs) @ '']'' @ r = c # y" using c Cons by (cases ys) auto
    have "Suc d + json_depth (g z) \<le> max_depth" if "z \<in> set xs" for z
      using d that foldr_max_le [of "json_depth (g z)" "map json_depth (map g xs)"] by auto
    then have "parse_elems m (Suc d) (join '','' (map f xs) @ '']'' @ r) = Some (map (json_clean \<circ> g) xs, r)"
      using assms(1) n Cons by (intro parse_elems_texts) (auto simp: m)
    then show ?thesis using d c y by (simp add: parse_steps m is_ws_def starts_with_def comp_def)
  qed
qed

lemma json_parse_reads: "reads_as t v \<Longrightarrow> json_depth v \<le> max_depth \<Longrightarrow> json_parse t = Some (json_clean v)"
  unfolding json_parse_def reads_as_def by (drule spec [of _ "2 * length t + 1"], drule spec [of _ 0], drule spec [of _ "[]"]) simp

end
