(* ===== verification/Annotations.thy ===== *)
theory Annotations
  imports Prelude GoJson GoNet "HOL-Library.Word"
begin

text \<open>
  \<^verbatim>\<open>internal/networkannotation/networkannotation.go\<close>: the annotation a pod carries to ask for
  networks, and the one Multus reads. Decoding follows \<^verbatim>\<open>json.Unmarshal\<close> into a
  \<^verbatim>\<open>[]NetworkAnnotation\<close>: keys match without regard to case, an unknown key is skipped, null
  leaves a field as it is, and a value of the wrong type is an error that does not stop the
  decoding. A repeated \<^verbatim>\<open>ips\<close> key reuses the elements of the earlier slice, as Go does.
\<close>

section \<open>Code\<close>

record network_annotation =
  na_name :: string
  na_namespace :: string
  na_ips :: "string list"
  na_ifname :: string

definition new_annotation :: network_annotation where
  "new_annotation = \<lparr>na_name = [], na_namespace = [], na_ips = [], na_ifname = []\<rparr>"

definition MULTUS_ANNOTATION_KEY :: string where
  "MULTUS_ANNOTATION_KEY = ''k8s.v1.cni.cncf.io/networks''"

definition NET_ATTACH_LABEL_PREFIX :: string where
  "NET_ATTACH_LABEL_PREFIX = ''used-''"

definition L2SM_NETWORK_ANNOTATION :: string where
  "L2SM_NETWORK_ANNOTATION = ''l2sm/networks''"

text \<open>The struct tags: field order, and \<^verbatim>\<open>omitempty\<close> on all but the name.\<close>

definition annotation_json :: "network_annotation \<Rightarrow> json" where
  "annotation_json a = JObj
     ([(''name'', JStr (na_name a))] @
      (if na_namespace a = [] then [] else [(''namespace'', JStr (na_namespace a))]) @
      (if na_ips a = [] then [] else [(''ips'', JArr (map JStr (na_ips a)))]) @
      (if na_ifname a = [] then [] else [(''ifname'', JStr (na_ifname a))]))"

text \<open>Its callers build the slice with \<^verbatim>\<open>append\<close> on a nil one, so an empty list is a nil slice.\<close>

definition MultusAnnotationToString :: "network_annotation list \<Rightarrow> string" where
  "MultusAnnotationToString multusAnnotations =
     (if multusAnnotations = [] then ''null''
      else print_json (JArr (map annotation_json multusAnnotations)))"

subsection \<open>Decoding\<close>

text \<open>\<^verbatim>\<open>foldName\<close>: ASCII letters in upper case; U+017F and U+212A fold to S and K.\<close>

definition upper_ascii :: "char \<Rightarrow> char" where
  "upper_ascii c = (if 97 \<le> byte c \<and> byte c \<le> 122 then char_of (byte c - 32) else c)"

fun fold_name :: "string \<Rightarrow> string" where
  "fold_name [] = []"
| "fold_name (c # s) =
     (if starts_with [CHR 0xC5, CHR 0xBF] (c # s) then CHR ''S'' # fold_name (drop 1 s)
      else if starts_with [CHR 0xE2, CHR 0x84, CHR 0xAA] (c # s) then CHR ''K'' # fold_name (drop 2 s)
      else upper_ascii c # fold_name s)"

text \<open>Storing a value into a string: the new content, and whether the types disagree.\<close>

definition decode_string :: "string \<Rightarrow> json \<Rightarrow> string \<times> bool" where
  "decode_string old v = (case v of
       JStr s \<Rightarrow> (s, False) | JNull \<Rightarrow> (old, False) | _ \<Rightarrow> (old, True))"

fun decode_strings :: "string list \<Rightarrow> json list \<Rightarrow> string list \<times> bool" where
  "decode_strings old [] = ([], False)"
| "decode_strings old (v # vs) =
     (let (s, e) = decode_string (case old of [] \<Rightarrow> [] | o1 # _ \<Rightarrow> o1) v;
          (ss, es) = decode_strings (tl old) vs
      in (s # ss, e \<or> es))"

definition decode_slice :: "string list \<Rightarrow> json \<Rightarrow> string list \<times> bool" where
  "decode_slice old v = (case v of
       JArr vs \<Rightarrow> decode_strings old vs | JNull \<Rightarrow> ([], False) | _ \<Rightarrow> (old, True))"

definition decode_field :: "network_annotation \<Rightarrow> string \<times> json \<Rightarrow> network_annotation \<times> bool" where
  "decode_field a m = (case m of (k, v) \<Rightarrow>
     if fold_name k = ''NAME'' then
       (let (s, e) = decode_string (na_name a) v in (a\<lparr>na_name := s\<rparr>, e))
     else if fold_name k = ''NAMESPACE'' then
       (let (s, e) = decode_string (na_namespace a) v in (a\<lparr>na_namespace := s\<rparr>, e))
     else if fold_name k = ''IPS'' then
       (let (s, e) = decode_slice (na_ips a) v in (a\<lparr>na_ips := s\<rparr>, e))
     else if fold_name k = ''IFNAME'' then
       (let (s, e) = decode_string (na_ifname a) v in (a\<lparr>na_ifname := s\<rparr>, e))
     else (a, False))"

fun decode_fields :: "network_annotation \<Rightarrow> (string \<times> json) list \<Rightarrow> network_annotation \<times> bool" where
  "decode_fields a [] = (a, False)"
| "decode_fields a (m # ms) =
     (let (a', e) = decode_field a m; (a'', es) = decode_fields a' ms in (a'', e \<or> es))"

definition decode_annotation :: "json \<Rightarrow> network_annotation \<times> bool" where
  "decode_annotation v = (case v of
       JObj ms \<Rightarrow> decode_fields new_annotation ms
     | JNull \<Rightarrow> (new_annotation, False)
     | _ \<Rightarrow> (new_annotation, True))"

text \<open>\<^verbatim>\<open>json.Unmarshal([]byte(annotations), &networks)\<close>: the slice, and whether it failed.\<close>

definition decode_networks :: "string \<Rightarrow> network_annotation list \<times> bool" where
  "decode_networks s = (case json_parse s of
       None \<Rightarrow> ([], True)
     | Some (JArr vs) \<Rightarrow>
         (map (fst \<circ> decode_annotation) vs, list_ex (snd \<circ> decode_annotation) vs)
     | Some JNull \<Rightarrow> ([], False)
     | Some _ \<Rightarrow> ([], True))"

definition ExtractNetworks :: "string \<Rightarrow> string \<Rightarrow> err + network_annotation list" where
  "ExtractNetworks annotations namespace =
     (let (networks, failed) = decode_networks annotations;
          names = filter (\<lambda>n. n \<noteq> []) (map trim_space (split_on (CHR '','') annotations));
          networks' = (if failed then networks @ map (\<lambda>n. new_annotation\<lparr>na_name := n\<rparr>) names
                       else networks)
      in Inr (map (\<lambda>n. n\<lparr>na_namespace := namespace\<rparr>) networks'))"

text \<open>The argument is what \<^verbatim>\<open>rand.Uint64\<close> returned.\<close>

definition GenerateIPv6Address :: "64 word \<Rightarrow> network_annotation \<Rightarrow> network_annotation" where
  "GenerateIPv6Address interfaceID network =
     (let h = pad0 16 (hex (unat interfaceID));
          ipv6Address = ''fe80::'' @ take 4 h @ '':'' @ take 4 (drop 4 h) @ '':'' @
            take 4 (drop 8 h) @ '':'' @ drop 12 h @ ''/64''
      in network\<lparr>na_ips := na_ips network @ [ipv6Address]\<rparr>)"

section \<open>Round trip\<close>

definition clean_annotation :: "network_annotation \<Rightarrow> network_annotation" where
  "clean_annotation a = \<lparr>na_name = sanitize (na_name a), na_namespace = sanitize (na_namespace a),
     na_ips = map sanitize (na_ips a), na_ifname = sanitize (na_ifname a)\<rparr>"

lemma fold_name_keys [simp]:
  "fold_name ''name'' = ''NAME''" "fold_name ''namespace'' = ''NAMESPACE''"
  "fold_name ''ips'' = ''IPS''" "fold_name ''ifname'' = ''IFNAME''"
  by (simp_all add: starts_with_def upper_ascii_def char_of_def bit_0)

declare fold_name.simps [simp del]

lemma sanitize_keys [simp]:
  "sanitize ''name'' = ''name''" "sanitize ''namespace'' = ''namespace''"
  "sanitize ''ips'' = ''ips''" "sanitize ''ifname'' = ''ifname''"
  by (rule sanitize_ascii; simp)+

declare sanitize.simps(2) [simp del]

lemma decode_strings_JStr: "decode_strings old (map (\<lambda>s. JStr (f s)) ss) = (map f ss, False)"
  by (induction ss arbitrary: old) (simp_all add: decode_string_def)

lemma decode_annotation_json:
  "decode_annotation (json_clean (annotation_json a)) = (clean_annotation a, False)"
  by (simp add: annotation_json_def decode_annotation_def decode_field_def decode_string_def
      decode_slice_def decode_strings_JStr comp_def new_annotation_def clean_annotation_def)

lemma annotation_json_shape:
  "no_num (annotation_json a)" "json_depth (annotation_json a) \<le> 2"
proof -
  have "foldr max (map json_depth (map JStr ss)) 0 = 0" for ss
    by (induction ss) auto
  then show "no_num (annotation_json a)" "json_depth (annotation_json a) \<le> 2"
    by (auto simp: annotation_json_def list_all_iff)
qed

lemma decode_multus:
  "decode_networks (MultusAnnotationToString xs) = (map clean_annotation xs, False)"
proof (cases "xs = []")
  case True
  have "json_parse (print_json JNull) = Some JNull"
    using json_parse_print [of JNull] by simp
  then show ?thesis using True by (simp add: decode_networks_def MultusAnnotationToString_def)
next
  case False
  let ?v = "JArr (map annotation_json xs)"
  have "foldr max (map json_depth (map annotation_json xs)) 0 \<le> 2"
    using annotation_json_shape(2) by (induction xs) auto
  then have "json_parse (print_json ?v) = Some (json_clean ?v)"
    using annotation_json_shape(1)
    by (intro json_parse_print) (simp_all add: list_all_iff max_depth_def)
  then show ?thesis
    using False decode_annotation_json
    by (simp add: decode_networks_def MultusAnnotationToString_def comp_def list_ex_iff)
qed

text \<open>
  C31. \<open>ExtractNetworks\<close> reads back what \<open>MultusAnnotationToString\<close> printed, for every list of
  annotations, the empty one included: only the namespace is replaced, and bytes that are
  not UTF-8 are.
\<close>

theorem ExtractNetworks_MultusAnnotationToString:
  "ExtractNetworks (MultusAnnotationToString xs) ns =
     Inr (map (\<lambda>a. (clean_annotation a)\<lparr>na_namespace := ns\<rparr>) xs)"
  by (simp add: ExtractNetworks_def decode_multus Let_def comp_def)

lemma ExtractNetworks_total: "\<exists>xs. ExtractNetworks a ns = Inr xs"
  by (cases "decode_networks a") (simp add: ExtractNetworks_def Let_def)

section \<open>Comma-separated names\<close>

text \<open>The characters of a Kubernetes name, and a list of such names.\<close>

definition name_char :: "char \<Rightarrow> bool" where
  "name_char c \<longleftrightarrow> is_dec_digit c \<or> (97 \<le> byte c \<and> byte c \<le> 122) \<or> c = CHR ''-'' \<or> c = CHR ''.''"

definition k8s_name :: "string \<Rightarrow> bool" where
  "k8s_name s \<longleftrightarrow> s \<noteq> [] \<and> list_all name_char s"

lemma digit_byte: "is_dec_digit c \<Longrightarrow> 48 \<le> byte c \<and> byte c \<le> 57"
  by (auto simp: is_dec_digit_def digit_val_def Let_def split: if_splits)

lemma name_char_plain: "name_char c \<Longrightarrow> plain_char c \<and> c \<noteq> CHR '',''"
  by (auto simp: name_char_def plain_char_def dest: digit_byte)

lemma name_char_not:
  "name_char c \<Longrightarrow> \<not> is_ws c \<and> c \<noteq> CHR ''['' \<and> c \<noteq> CHR ''{'' \<and> c \<noteq> CHR 0x22"
  by (auto simp: name_char_def is_ws_def dest: digit_byte)

lemma json_parse_names:
  assumes s: "\<forall>c\<in>set s. name_char c \<or> c = CHR '',''" and v: "json_parse s = Some v"
  shows "v = JNull \<and> s = ''null'' \<or> (\<exists>b. v = JBool b) \<or> (\<exists>t. v = JNum t)"
proof -
  have ws: "skip_ws t = t" if "set t \<subseteq> set s" for t
  proof (cases t)
    case (Cons c r)
    then have "\<not> is_ws c" using s that name_char_not by (fastforce simp: is_ws_def)
    then show ?thesis by (simp add: Cons)
  qed simp
  obtain r where r: "parse_value (2 * length s + 1) 0 s = Some (v, r)" "skip_ws r = []"
    using v by (auto simp: json_parse_def split: option.splits if_splits)
  obtain c t where c: "s = c # t"
    using r(1) by (cases s) (simp_all add: parse_steps)
  have cc: "c \<noteq> CHR ''[''" "c \<noteq> CHR ''{''" "c \<noteq> CHR 0x22"
    using s name_char_not unfolding c by auto
  have "parse_scalar c t = Some (v, r)"
    using r(1) ws [of s] cc by (simp add: parse_steps c)
  then consider "v = JNull" "starts_with ''null'' (c # t)" "r = drop 3 t"
    | "\<exists>b. v = JBool b" | "\<exists>q. v = JNum q"
    using cc by (auto simp: parse_scalar_def split: if_splits)
  then show ?thesis
  proof cases
    case 1
    have "set (drop 3 t) \<subseteq> set s" using set_drop_subset [of 3 t] c by auto
    then have "drop 3 t = []" using ws 1(3) r(2) by simp
    then have "s = ''null''" using 1(2) append_take_drop_id [of 4 s]
      by (simp add: c starts_with_def)
    then show ?thesis using 1 by simp
  qed auto
qed

text \<open>
  A comma-separated list of network names is read as exactly these names, in order and
  with repetitions, in the given namespace, unless the whole text is the word \<open>null\<close>.
\<close>

lemma ExtractNetworks_names:
  assumes names: "list_all k8s_name names" and ne: "names \<noteq> []"
    and null: "join '','' names \<noteq> ''null''"
  shows "ExtractNetworks (join '','' names) ns =
    Inr (map (\<lambda>n. new_annotation\<lparr>na_name := n, na_namespace := ns\<rparr>) names)"
proof -
  let ?s = "join '','' names"
  have "c \<in> set ?s \<Longrightarrow> name_char c \<or> c = CHR '',''" for c
    using set_join [of "'',''" names] names by (fastforce simp: list_all_iff k8s_name_def)
  then have "v \<noteq> JNull \<and> (\<forall>vs. v \<noteq> JArr vs)" if "json_parse ?s = Some v" for v
    using json_parse_names [OF _ that] null by blast
  then have d: "decode_networks ?s = ([], True)"
    by (auto simp: decode_networks_def split: option.split json.split)
  have "trim_space n = n" if "n \<in> set names" for n
    using that names name_char_plain
    by (intro trim_space_plain) (auto simp: list_all_iff k8s_name_def)
  then have t: "map trim_space names = names" by (simp add: map_idI)
  have "split_on CHR '','' ?s = names"
    using names ne name_char_plain
    by (intro split_on_join) (auto simp: list_all_iff k8s_name_def)
  moreover have "filter (\<lambda>n. n \<noteq> []) names = names"
    using names by (simp add: list_all_iff k8s_name_def filter_id_conv)
  ultimately show ?thesis
    by (simp add: ExtractNetworks_def d t comp_def)
qed

text \<open>
  A single network called \<open>null\<close> is dropped without an error: the text is valid JSON.
\<close>

lemma ExtractNetworks_null: "ExtractNetworks ''null'' ns = Inr []"
proof -
  have "json_parse ''null'' = Some JNull" using json_parse_print [of JNull] by simp
  then show ?thesis by (simp add: ExtractNetworks_def decode_networks_def)
qed

section \<open>IPv6 addresses\<close>

lemma v6_hex4:
  assumes "list_all is_hex_digit [a, b, c, d]" "r = [] \<or> hd r = CHR '':''"
  shows "v6_hex 0 0 ([a, b, c, d] @ r) = Some (4, hex_read [a, b, c, d], r)"
proof -
  obtain w x y z where v: "hex_val a = Some w" "hex_val b = Some x" "hex_val c = Some y" "hex_val d = Some z"
    using assms(1) by (auto simp: is_hex_digit_def)
  have "w < 16" "x < 16" "y < 16" "z < 16" using v hex_val_Some by blast+
  moreover have "hex_val CHR '':'' = None" by (simp add: hex_val_def)
  ultimately show ?thesis
    using assms(2) v by (cases r) (auto simp: hex_read_def from_digits_def)
qed

abbreviation bytes16 :: "nat \<Rightarrow> ip" where
  "bytes16 n \<equiv> [of_nat (n div 256), of_nat (n mod 256)]"

lemma hex_digit_not_sep: "is_hex_digit c \<Longrightarrow> c \<notin> set ''.:%/''"
  by (auto simp: is_hex_digit_def hex_val_def)

lemma v6_loop_group:
  assumes "list_all is_hex_digit g" "length g = 4" "length bs < 16" "s \<noteq> []" "hd s \<noteq> CHR '':''"
  shows "v6_loop bs ell (g @ '':'' @ s) = v6_loop (bs @ bytes16 (hex_read g)) ell s"
proof -
  obtain a b c d where g: "g = [a, b, c, d]" using assms(2) by (auto simp: numeral_eq_Suc length_Suc_conv)
  obtain x t where s: "s = x # t" using assms(4) by (cases s) auto
  have "v6_hex 0 0 ([a, b, c, d] @ ('':'' @ s)) = Some (4, hex_read [a, b, c, d], '':'' @ s)"
    using assms(1) by (intro v6_hex4) (simp_all add: g)
  then show ?thesis using assms by (subst v6_loop.simps) (simp add: g s Let_def)
qed

lemma v6_loop_last:
  assumes "list_all is_hex_digit g" "length g = 4" "length bs < 16"
  shows "v6_loop bs ell g = Some (bs @ bytes16 (hex_read g), ell, [])"
proof -
  obtain a b c d where g: "g = [a, b, c, d]" using assms(2) by (auto simp: numeral_eq_Suc length_Suc_conv)
  have "v6_hex 0 0 ([a, b, c, d] @ []) = Some (4, hex_read [a, b, c, d], [])"
    using assms(1) by (intro v6_hex4) (simp_all add: g)
  then show ?thesis using assms by (subst v6_loop.simps) (simp add: g Let_def)
qed

lemma v6_loop_ellipsis:
  assumes "list_all is_hex_digit g" "length g = 4" "s \<noteq> []"
  shows "v6_loop [] None (g @ ''::'' @ s) = v6_loop (bytes16 (hex_read g)) (Some (Suc (Suc 0))) s"
proof -
  obtain a b c d where g: "g = [a, b, c, d]" using assms(2) by (auto simp: numeral_eq_Suc length_Suc_conv)
  have "v6_hex 0 0 ([a, b, c, d] @ (''::'' @ s)) = Some (4, hex_read [a, b, c, d], ''::'' @ s)"
    using assms(1) by (intro v6_hex4) (simp_all add: g)
  then show ?thesis using assms by (subst v6_loop.simps) (simp add: g Let_def)
qed

lemma parse_v6_link_local:
  assumes g: "\<forall>g\<in>{g1, g2, g3, g4}. list_all is_hex_digit g \<and> length g = 4"
  shows "parse_addr (''fe80::'' @ g1 @ '':'' @ g2 @ '':'' @ g3 @ '':'' @ g4) =
    Some (128, [0xFE, 0x80] @ replicate 6 0 @ bytes16 (hex_read g1) @ bytes16 (hex_read g2) @
      bytes16 (hex_read g3) @ bytes16 (hex_read g4))"
proof -
  have no: "h \<noteq> [] \<and> hd h \<noteq> CHR '':'' \<and> CHR ''%'' \<notin> set h" if "h \<in> {g1, g2, g3, g4}" for h
    using g that hex_digit_not_sep by (cases h) (fastforce simp: list_all_iff)+
  let ?s1 = "g1 @ '':'' @ g2 @ '':'' @ g3 @ '':'' @ g4"
  have "list_all is_hex_digit ''fe80''" by (simp add: is_hex_digit_def hex_val_def)
  moreover have "?s1 \<noteq> []" using no by simp
  moreover have "bytes16 (hex_read ''fe80'') = [0xFE, 0x80]"
    by (simp add: hex_read_def from_digits_def hex_val_def)
  ultimately have "v6_loop [] None (''fe80::'' @ ?s1) = v6_loop [0xFE, 0x80] (Some (Suc (Suc 0))) ?s1"
    using v6_loop_ellipsis [of "''fe80''" ?s1] by simp
  also have "\<dots> = v6_loop ([0xFE, 0x80] @ bytes16 (hex_read g1)) (Some (Suc (Suc 0))) (g2 @ '':'' @ g3 @ '':'' @ g4)"
    using g no by (intro v6_loop_group) auto
  also have "\<dots> = v6_loop (([0xFE, 0x80] @ bytes16 (hex_read g1)) @ bytes16 (hex_read g2)) (Some (Suc (Suc 0))) (g3 @ '':'' @ g4)"
    using g no by (intro v6_loop_group) auto
  also have "\<dots> = v6_loop ((([0xFE, 0x80] @ bytes16 (hex_read g1)) @ bytes16 (hex_read g2)) @
      bytes16 (hex_read g3)) (Some (Suc (Suc 0))) g4"
    using g no by (intro v6_loop_group) auto
  also have "\<dots> = Some (((([0xFE, 0x80] @ bytes16 (hex_read g1)) @ bytes16 (hex_read g2)) @
      bytes16 (hex_read g3)) @ bytes16 (hex_read g4), Some (Suc (Suc 0)), [])"
    using g by (intro v6_loop_last) auto
  finally have l: "v6_loop [] None (''fe80::'' @ ?s1) = \<dots>" .
  have "CHR ''%'' \<notin> set ?s1" using no by auto
  then have "parse_v6 (''fe80::'' @ ?s1) = Some ([0xFE, 0x80] @ replicate 6 0 @
      bytes16 (hex_read g1) @ bytes16 (hex_read g2) @ bytes16 (hex_read g3) @ bytes16 (hex_read g4))"
    using l by (simp add: parse_v6_def starts_with_def v6_finish_def)
  then show ?thesis by (simp add: parse_addr_def)
qed

lemma drop_take_groups:
  assumes "length h = 16"
  shows "h = take 4 h @ take 4 (drop 4 h) @ take 4 (drop 8 h) @ drop 12 h"
  using append_take_drop_id [of 4 h] append_take_drop_id [of 4 "drop 4 h"]
    append_take_drop_id [of 4 "drop 8 h"] by simp

lemma cidr_mask_64: "cidr_mask 64 16 = replicate 8 255 @ replicate 8 0"
  by code_simp

lemma ip_mask_64:
  assumes "length a = 16"
  shows "ip_mask a (cidr_mask 64 16) = take 8 a @ replicate 8 0"
proof -
  have "and_bytes a (replicate 8 255 @ replicate 8 0) = take 8 a @ replicate 8 0"
    by (rule nth_equalityI) (auto simp: and_bytes_def assms nth_append)
  then show ?thesis using assms by (simp add: ip_mask_def cidr_mask_64)
qed

text \<open>
  \<open>GenerateIPv6Address\<close> adds one address: it parses, it lies in \<open>fe80::/64\<close>, and
  different random numbers give different addresses.
\<close>

lemma GenerateIPv6Address_link_local:
  "\<exists>s a. na_ips (GenerateIPv6Address r n) = na_ips n @ [s] \<and> length a = 16 \<and>
     take 8 a = [0xFE, 0x80] @ replicate 6 0 \<and>
     parse_cidr s = Some (a, \<lparr>net_ip = take 8 a @ replicate 8 0, net_mask = cidr_mask 64 16\<rparr>) \<and>
     (GenerateIPv6Address r' n = GenerateIPv6Address r n \<longleftrightarrow> r' = r)"
proof -
  define txt6 where "txt6 r = ''fe80::'' @ take 4 (pad0 16 (hex (unat r))) @ '':'' @
     take 4 (drop 4 (pad0 16 (hex (unat r)))) @ '':'' @ take 4 (drop 8 (pad0 16 (hex (unat r)))) @
     '':'' @ drop 12 (pad0 16 (hex (unat r)))" for r :: "64 word"
  let ?h = "\<lambda>r :: 64 word. pad0 16 (hex (unat r))"
  have len: "length (?h r) = 16" for r
    using hex_length_le [of 16 "unat r"] unsigned_less [of r, where ?'a = nat]
    by (simp add: length_pad0)
  have digits: "list_all is_hex_digit (?h r)" for r
    using pad0_hex_digits by (auto simp: list_all_iff)
  have ips: "na_ips (GenerateIPv6Address r n) = na_ips n @ [txt6 r @ ''/64'']" for r
    by (simp add: GenerateIPv6Address_def txt6_def Let_def)
  have inj: "txt6 r' = txt6 r \<longleftrightarrow> r' = r"
  proof
    assume "txt6 r' = txt6 r"
    then have "take 4 (?h r') = take 4 (?h r)" "take 4 (drop 4 (?h r')) = take 4 (drop 4 (?h r))"
      "take 4 (drop 8 (?h r')) = take 4 (drop 8 (?h r))" "drop 12 (?h r') = drop 12 (?h r)"
      using len by (auto simp: txt6_def)
    then have "?h r' = ?h r"
      using drop_take_groups [OF len [of r]] drop_take_groups [OF len [of r']] by simp
    then show "r' = r" by (simp add: unsigned_word_eqI)
  qed simp
  define a where "a = [0xFE, 0x80] @ replicate 6 0 @ bytes16 (hex_read (take 4 (?h r))) @
      bytes16 (hex_read (take 4 (drop 4 (?h r)))) @ bytes16 (hex_read (take 4 (drop 8 (?h r)))) @
      bytes16 (hex_read (drop 12 (?h r)))"
  have addr: "parse_addr (txt6 r) = Some (128, a)"
    unfolding txt6_def a_def
    by (rule parse_v6_link_local)
      (use len digits in \<open>auto simp: list_all_iff dest!: in_set_takeD in_set_dropD\<close>)
  have "c \<noteq> CHR ''/''" if "c \<in> set (?h r)" for c
    using that digits [of r] hex_digit_not_sep by (auto simp: list_all_iff)
  then have slash: "CHR ''/'' \<notin> set (txt6 r)"
    by (auto simp: txt6_def dest!: in_set_takeD in_set_dropD)
  have dtoi: "dtoi ''64'' = Some 64"
    using dtoi_dec [of 64] by (simp add: dec_def digits.simps digit_char_def)
  have "ip_mask a (cidr_mask 64 16) = take 8 a @ replicate 8 0"
    by (rule ip_mask_64) (simp add: a_def)
  then have "parse_cidr (txt6 r @ ''/64'') =
      Some (a, \<lparr>net_ip = take 8 a @ replicate 8 0, net_mask = cidr_mask 64 16\<rparr>)"
    using index_of_char_skip [OF slash, of "''64''"] addr dtoi by (simp add: parse_cidr_def Let_def)
  moreover have "GenerateIPv6Address r' n = GenerateIPv6Address r n \<longleftrightarrow> r' = r"
    using ips [of r] ips [of r'] inj by auto
  ultimately show ?thesis
    using ips [of r] by (intro exI [of _ "txt6 r @ ''/64''"] exI [of _ a]) (simp add: a_def)
qed

end
