(* ===== verification/Types.thy ===== *)
theory Types
  imports Prelude "HOL-Library.Word"
begin

text \<open>
  The data of the operator: the custom resources of \<^verbatim>\<open>api/v1\<close> and the Kubernetes objects it
  reads and writes, as records with the fields the code touches. Optional pointers are
  options, \<^verbatim>\<open>map[string]string\<close> is \<open>gomap\<close>, a deletion timestamp is the flag \<open>om_deleted\<close>,
  and \<open>om_owner\<close> is the owner reference marked as controller: API version, kind and name.
\<close>

section \<open>Object metadata\<close>

record obj_meta =
  om_name :: string
  om_namespace :: string
  om_labels :: gomap
  om_annotations :: gomap
  om_finalizers :: "string list"
  om_deleted :: bool
  om_generation :: int
  om_uid :: string
  om_version :: string
  om_owner :: "(string \<times> string \<times> string) option"

definition new_meta :: "string \<Rightarrow> string \<Rightarrow> obj_meta" where
  "new_meta name ns = \<lparr>om_name = name, om_namespace = ns, om_labels = None, om_annotations = None,
     om_finalizers = [], om_deleted = False, om_generation = 0, om_uid = [], om_version = [],
     om_owner = None\<rparr>"

type_synonym key = "string \<times> string"

section \<open>Network types and connectivity (l2network_types.go)\<close>

definition NetworkTypeExtVnet :: string where "NetworkTypeExtVnet = ''ext-vnet''"

definition NetworkTypeVnet :: string where "NetworkTypeVnet = ''vnet''"

definition NetworkTypeVlink :: string where "NetworkTypeVlink = ''vlink''"

datatype connectivity_status = OnlineStatus | OfflineStatus | UnknownStatus

fun connectivity_text :: "connectivity_status \<Rightarrow> string" where
  "connectivity_text OnlineStatus = ''Available''"
| "connectivity_text OfflineStatus = ''Unavailable''"
| "connectivity_text UnknownStatus = ''Unknown''"

section \<open>Providers (provider_types.go)\<close>

record provider_spec =
  pv_name :: string
  pv_domain :: "string list"
  pv_sdn_port :: string
  pv_dns_port :: string
  pv_dns_grpc_port :: string
  pv_of_port :: string

section \<open>L2Network\<close>

record ids_rule_source =
  rs_name :: string
  rs_url :: string
  rs_inline :: string
  rs_config_map_ref :: "string option"

record ids_rules =
  ids_enabled :: bool
  ids_home_net :: "string list"
  ids_use_et_open :: bool
  ids_custom_sources :: "ids_rule_source list"
  ids_ignore_ports :: "int list"
  ids_node :: string
  ids_profile :: string
  ids_namespace :: string

record l2network_spec =
  ns_type :: string
  ns_config :: "string option"
  ns_provider :: "provider_spec option"
  ns_network_cidr :: string
  ns_pod_address_range :: string
  ns_ids :: "ids_rules option"

record l2network_status =
  st_connected_pods :: int
  st_last_assigned_ip :: string
  st_assigned_ips :: gomap
  st_internal :: "connectivity_status option"
  st_provider :: "connectivity_status option"

record l2network =
  net_meta :: obj_meta
  net_spec :: l2network_spec
  net_status :: l2network_status

abbreviation net_name :: "l2network \<Rightarrow> string" where
  "net_name n \<equiv> om_name (net_meta n)"

section \<open>Quarantine requests (quarantinepodrequest_types.go)\<close>

record label_selector =
  sel_match_labels :: gomap
  sel_match_expressions :: "(string \<times> string \<times> string list) list"

text \<open>The message of a condition is kept like an error: its format and its arguments.\<close>

record condition =
  cd_type :: string
  cd_status :: string
  cd_generation :: int
  cd_reason :: string
  cd_message :: err

record quarantine_selector =
  qs_pods :: label_selector
  qs_networks :: label_selector

record quarantine_spec =
  qr_selector :: quarantine_selector
  qr_target :: string

record quarantine_status =
  qt_generation :: int
  qt_source :: string
  qt_target :: string
  qt_matched :: int
  qt_moved :: int
  qt_conditions :: "condition list"

record quarantine_request =
  qp_meta :: obj_meta
  qp_spec :: quarantine_spec
  qp_status :: quarantine_status

section \<open>Pods, nodes, attachment definitions\<close>

record pod =
  pod_meta :: obj_meta
  pod_node :: string

record k8s_node =
  node_meta :: obj_meta
  node_addresses :: "(string \<times> string) list"

record nad =
  nad_meta :: obj_meta
  nad_config :: string

abbreviation nad_name :: "nad \<Rightarrow> string" where
  "nad_name n \<equiv> om_name (nad_meta n)"

section \<open>Workloads\<close>

record env_var =
  ev_name :: string
  ev_value :: string
  ev_field_path :: "string option"

record volume_mount =
  vm_name :: string
  vm_path :: string
  vm_sub_path :: string
  vm_read_only :: bool

record container =
  ct_name :: string
  ct_image :: string
  ct_pull_policy :: string
  ct_command :: "string list"
  ct_args :: "string list"
  ct_env :: "env_var list"
  ct_ports :: "(string \<times> int) list"
  ct_mounts :: "volume_mount list"
  ct_privileged :: bool
  ct_capabilities :: "string list"

definition new_container :: "string \<Rightarrow> string \<Rightarrow> container" where
  "new_container name img = \<lparr>ct_name = name, ct_image = img, ct_pull_policy = [],
     ct_command = [], ct_args = [], ct_env = [], ct_ports = [], ct_mounts = [],
     ct_privileged = False, ct_capabilities = []\<rparr>"

text \<open>A config map volume has its name and the items it maps (all when empty).\<close>

datatype volume_source =
  ConfigMapSource string "(string \<times> string) list"
| ProjectedSource "string list"
| EmptyDirSource

record volume =
  vol_name :: string
  vol_source :: volume_source

record pod_spec =
  ps_init_containers :: "container list"
  ps_containers :: "container list"
  ps_volumes :: "volume list"
  ps_host_network :: bool
  ps_node_selector :: gomap
  ps_node_name :: string
  ps_tolerate_all :: bool
  ps_service_account :: string

definition new_pod_spec :: pod_spec where
  "new_pod_spec = \<lparr>ps_init_containers = [], ps_containers = [], ps_volumes = [],
     ps_host_network = False, ps_node_selector = None, ps_node_name = [],
     ps_tolerate_all = False, ps_service_account = []\<rparr>"

text \<open>A replica set or a deployment: selector, template labels and annotations, pod spec.\<close>

record workload =
  wl_meta :: obj_meta
  wl_replicas :: "int option"
  wl_selector :: gomap
  wl_labels :: gomap
  wl_annotations :: gomap
  wl_pod :: pod_spec

record config_map =
  cm_meta :: obj_meta
  cm_data :: gomap

record service =
  svc_meta :: obj_meta
  svc_cluster_ip :: string
  svc_selector :: gomap
  svc_ports :: "(string \<times> string \<times> int) list"

record k8s_event =
  ke_generate_name :: string
  ke_namespace :: string
  ke_object :: "string \<times> string \<times> string \<times> string \<times> string"
  ke_reason :: string
  ke_message :: string
  ke_type :: string

text \<open>What the operator creates.\<close>

datatype obj =
  OEvent k8s_event
| OConfigMap config_map
| ODeployment workload
| OReplicaSet workload
| OService service
| ONad nad

section \<open>Switch templates (networkedgedevice_types.go)\<close>

record switch_pod_spec =
  sp_volumes :: "volume list"
  sp_init_containers :: "container list"
  sp_containers :: "container list"
  sp_host_network :: bool

record switch_template =
  sw_meta :: obj_meta
  sw_spec :: switch_pod_spec

record neighbor_spec =
  nb_node :: string
  nb_domain :: string
  nb_lpm_ip :: "string option"

record node_config =
  nc_node :: string
  nc_address :: string

record export_metric_spec =
  ex_method :: string
  ex_service_account :: string
  ex_config :: gomap

record metric_spec =
  mt_name :: string
  mt_interval :: "int option"
  mt_script :: "(string \<times> string) option"

record monitor_spec =
  mo_metrics :: "metric_spec list"
  mo_spread_factor :: string
  mo_export :: "export_metric_spec option"
  mo_network_cidr :: "string option"
  mo_ip_cidr :: "string option"

record network_edge_device =
  ned_meta :: obj_meta
  ned_provider :: "provider_spec option"
  ned_node_config :: "node_config option"
  ned_neighbors :: "neighbor_spec list"
  ned_template :: "switch_template option"
  ned_monitor :: "monitor_spec option"

section \<open>Overlays (overlay_types.go)\<close>

definition OVERLAY_PROVIDER :: string where
  "OVERLAY_PROVIDER = ''l2sm-controller''"

record topology =
  tp_nodes :: "string list"
  tp_links :: "(string \<times> string) list"

record overlay =
  ov_meta :: obj_meta
  ov_provider :: "provider_spec option"
  ov_topology :: "topology option"
  ov_template :: "switch_template option"
  ov_interface_number :: int
  ov_monitor :: "monitor_spec option"

text \<open>The finalizer every controller uses.\<close>

definition l2smFinalizer :: string where
  "l2smFinalizer = ''l2sm.operator.io/finalizer''"

section \<open>Node configuration of the performance monitor (package \<^verbatim>\<open>lpm/api/v1\<close>)\<close>

record metric_configuration =
  mc_name :: string
  mc_ip :: string
  mc_rtt :: int
  mc_throughput :: int
  mc_jitter :: int

text \<open>The spread factor is a \<^verbatim>\<open>float64\<close>, kept as its bits.\<close>

record lpm_node_config =
  lc_node :: string
  lc_address :: string
  lc_probe :: string
  lc_neighbours :: "metric_configuration list"
  lc_spread :: "64 word"

section \<open>Switch configuration (package \<^verbatim>\<open>l2sm-switch/api/v1\<close>)\<close>

record switch_settings =
  ss_controller_ip :: "string list"
  ss_controller_port :: string
  ss_interfaces :: int
  ss_provider :: string
  ss_node :: string
  ss_switch :: string

record switch_node =
  sn_name :: string
  sn_ip :: string
  sn_neighbours :: "string list"

record switch_topology =
  st_nodes :: "switch_node list"
  st_links :: "(string \<times> string) list"

end
