(* ===== verification/Cluster.thy ===== *)
theory Cluster
  imports Types "HOL-Library.Word"
begin

text \<open>
  The outside of the operator. Every call to the Kubernetes API, to an SDN controller, to
  the NED and DNS gRPC services and to the random generator is an \<open>event\<close> that carries
  its request and the reply it got. The world of a controller is its \<open>history\<close> (newest
  event first); what the outside replies may depend on the whole history and is given by an
  \<open>environment\<close>, a parameter of the model, as are the functions of third-party packages
  (switch identifiers, label selectors, owner references, conditions).
\<close>

section \<open>Events\<close>

datatype event =
  GotPod key "err + pod"
| GotNad key "err + nad"
| GotNet key "err + l2network"
| GotQuarantine key "err + quarantine_request"
| ListedNets "(string \<times> string) option" "err + l2network list"
| ListedPods string string "err + pod list"
| ListedNads string string "err + nad list"
| ListedNodes "err + k8s_node list"
| ListedNeds "err + network_edge_device list"
| UpdatedPod pod "err + pod"
| UpdatedNad nad "err + nad"
| UpdatedNet l2network "err + l2network"
| UpdatedNetStatus l2network "err + l2network"
| UpdatedQuarantineStatus quarantine_request "err + quarantine_request"
| DeletedNad nad "err option"
| Created obj "err option"
| Http string string string string "err + nat"
| NedAttach string string "err + int"
| DnsAdd string "string \<times> string \<times> string \<times> string" "err option"
| CoreDns "string \<times> string" "string \<times> string \<times> string" "err option"
| GotOverlay key "err + overlay"
| GotNed key "err + network_edge_device"
| ListedReplicaSets string string string "err + workload list"
| UpdatedOverlay overlay "err + overlay"
| UpdatedNed network_edge_device "err + network_edge_device"
| DeletedAllNads string string "err option"
| PatchedConfigMap config_map "err option"
| Rand64 "64 word"
| RandBelow nat nat

type_synonym history = "event list"

section \<open>Environment\<close>

record environment =
  e_os :: "string \<rightharpoonup> string"
  e_get_pod :: "history \<Rightarrow> key \<Rightarrow> err + pod"
  e_get_nad :: "history \<Rightarrow> key \<Rightarrow> err + nad"
  e_get_net :: "history \<Rightarrow> key \<Rightarrow> err + l2network"
  e_get_quarantine :: "history \<Rightarrow> key \<Rightarrow> err + quarantine_request"
  e_list_nets :: "history \<Rightarrow> (string \<times> string) option \<Rightarrow> err + l2network list"
  e_list_pods :: "history \<Rightarrow> string \<Rightarrow> string \<Rightarrow> err + pod list"
  e_list_nads :: "history \<Rightarrow> string \<Rightarrow> string \<Rightarrow> err + nad list"
  e_list_nodes :: "history \<Rightarrow> err + k8s_node list"
  e_list_neds :: "history \<Rightarrow> err + network_edge_device list"
  e_update_pod :: "history \<Rightarrow> pod \<Rightarrow> err + pod"
  e_update_nad :: "history \<Rightarrow> nad \<Rightarrow> err + nad"
  e_update_net :: "history \<Rightarrow> l2network \<Rightarrow> err + l2network"
  e_update_net_status :: "history \<Rightarrow> l2network \<Rightarrow> err + l2network"
  e_update_quarantine_status :: "history \<Rightarrow> quarantine_request \<Rightarrow> err + quarantine_request"
  e_delete_nad :: "history \<Rightarrow> nad \<Rightarrow> err option"
  e_create :: "history \<Rightarrow> obj \<Rightarrow> err option"
  e_get_overlay :: "history \<Rightarrow> key \<Rightarrow> err + overlay"
  e_get_ned :: "history \<Rightarrow> key \<Rightarrow> err + network_edge_device"
  e_list_replica_sets :: "history \<Rightarrow> string \<Rightarrow> string \<Rightarrow> string \<Rightarrow> err + workload list"
  e_update_overlay :: "history \<Rightarrow> overlay \<Rightarrow> err + overlay"
  e_update_ned :: "history \<Rightarrow> network_edge_device \<Rightarrow> err + network_edge_device"
  e_delete_all_nads :: "history \<Rightarrow> string \<Rightarrow> string \<Rightarrow> err option"
  e_patch_config_map :: "history \<Rightarrow> config_map \<Rightarrow> err option"
  e_http :: "history \<Rightarrow> string \<Rightarrow> string \<Rightarrow> string \<Rightarrow> string \<Rightarrow> err + nat"
  e_url_error :: "string \<Rightarrow> err option"
  e_ned_client :: "string \<Rightarrow> err option"
  e_ned_attach :: "history \<Rightarrow> string \<Rightarrow> string \<Rightarrow> err + int"
  e_dns_client :: "string \<Rightarrow> err option"
  e_dns_add :: "history \<Rightarrow> string \<Rightarrow> string \<times> string \<times> string \<times> string \<Rightarrow> err option"
  e_dns_manager :: "string \<times> string \<Rightarrow> err option"
  e_core_dns :: "history \<Rightarrow> string \<times> string \<Rightarrow> string \<times> string \<times> string \<Rightarrow> err option"
  e_rand64 :: "history \<Rightarrow> 64 word"
  e_rand_below :: "history \<Rightarrow> nat \<Rightarrow> nat"
  e_switch_id :: "string \<Rightarrow> string \<Rightarrow> string"
  e_switch_port :: "string \<Rightarrow> string \<Rightarrow> int \<Rightarrow> string"
  e_switch_probe :: "string \<Rightarrow> string \<Rightarrow> string"
  e_switch_name :: "string \<Rightarrow> string \<Rightarrow> string"
  e_probe_id :: int
  e_valid_label_key :: "string \<Rightarrow> bool"
  e_selector :: "label_selector \<Rightarrow> err + string"
  e_set_owner :: "string \<Rightarrow> obj_meta \<Rightarrow> obj_meta \<Rightarrow> err + obj_meta"
  e_set_condition :: "condition list \<Rightarrow> condition \<Rightarrow> condition list"
  e_parse_float :: "string \<Rightarrow> 64 word option"
  e_node_config_json :: "lpm_node_config \<Rightarrow> err + string"
  e_settings_json :: "switch_settings \<Rightarrow> err + string"
  e_switch_node_json :: "switch_node \<Rightarrow> err + string"
  e_topology_json :: "switch_topology \<Rightarrow> err + string"

section \<open>Calls\<close>

text \<open>A call: the reply is computed from the history, and the event is recorded.\<close>

definition call :: "(history \<Rightarrow> 'r) \<Rightarrow> ('r \<Rightarrow> event) \<Rightarrow> (history, 'r) go" where
  "call reply ev = (\<lambda>h. (Val (reply h), ev (reply h) # h))"

lemma wp_call [wp_simps]: "wp (call reply ev) Q h = Q (Val (reply h)) (ev (reply h) # h)"
  by (simp add: wp_def call_def)

lemma emits_call: "(\<And>r. P (ev r)) \<Longrightarrow> emits P (call reply ev)"
  by (auto simp: emits_def call_def)

definition get_pod :: "environment \<Rightarrow> key \<Rightarrow> (history, err + pod) go" where
  "get_pod E k = call (\<lambda>h. e_get_pod E h k) (GotPod k)"

definition get_nad :: "environment \<Rightarrow> key \<Rightarrow> (history, err + nad) go" where
  "get_nad E k = call (\<lambda>h. e_get_nad E h k) (GotNad k)"

definition get_net :: "environment \<Rightarrow> key \<Rightarrow> (history, err + l2network) go" where
  "get_net E k = call (\<lambda>h. e_get_net E h k) (GotNet k)"

definition get_quarantine :: "environment \<Rightarrow> key \<Rightarrow> (history, err + quarantine_request) go" where
  "get_quarantine E k = call (\<lambda>h. e_get_quarantine E h k) (GotQuarantine k)"

definition list_nets :: "environment \<Rightarrow> (string \<times> string) option \<Rightarrow> (history, err + l2network list) go" where
  "list_nets E q = call (\<lambda>h. e_list_nets E h q) (ListedNets q)"

definition list_pods :: "environment \<Rightarrow> string \<Rightarrow> string \<Rightarrow> (history, err + pod list) go" where
  "list_pods E ns sel = call (\<lambda>h. e_list_pods E h ns sel) (ListedPods ns sel)"

definition list_nads :: "environment \<Rightarrow> string \<Rightarrow> string \<Rightarrow> (history, err + nad list) go" where
  "list_nads E ns label = call (\<lambda>h. e_list_nads E h ns label) (ListedNads ns label)"

definition list_nodes :: "environment \<Rightarrow> (history, err + k8s_node list) go" where
  "list_nodes E = call (\<lambda>h. e_list_nodes E h) ListedNodes"

definition list_neds :: "environment \<Rightarrow> (history, err + network_edge_device list) go" where
  "list_neds E = call (\<lambda>h. e_list_neds E h) ListedNeds"

definition update_pod :: "environment \<Rightarrow> pod \<Rightarrow> (history, err + pod) go" where
  "update_pod E p = call (\<lambda>h. e_update_pod E h p) (UpdatedPod p)"

definition update_nad :: "environment \<Rightarrow> nad \<Rightarrow> (history, err + nad) go" where
  "update_nad E n = call (\<lambda>h. e_update_nad E h n) (UpdatedNad n)"

definition update_net :: "environment \<Rightarrow> l2network \<Rightarrow> (history, err + l2network) go" where
  "update_net E n = call (\<lambda>h. e_update_net E h n) (UpdatedNet n)"

definition update_net_status :: "environment \<Rightarrow> l2network \<Rightarrow> (history, err + l2network) go" where
  "update_net_status E n = call (\<lambda>h. e_update_net_status E h n) (UpdatedNetStatus n)"

definition update_quarantine_status ::
  "environment \<Rightarrow> quarantine_request \<Rightarrow> (history, err + quarantine_request) go" where
  "update_quarantine_status E q =
     call (\<lambda>h. e_update_quarantine_status E h q) (UpdatedQuarantineStatus q)"

definition delete_nad :: "environment \<Rightarrow> nad \<Rightarrow> (history, err option) go" where
  "delete_nad E n = call (\<lambda>h. e_delete_nad E h n) (DeletedNad n)"

definition create_obj :: "environment \<Rightarrow> obj \<Rightarrow> (history, err option) go" where
  "create_obj E x = call (\<lambda>h. e_create E h x) (Created x)"

definition get_overlay :: "environment \<Rightarrow> key \<Rightarrow> (history, err + overlay) go" where
  "get_overlay E k = call (\<lambda>h. e_get_overlay E h k) (GotOverlay k)"

definition get_ned :: "environment \<Rightarrow> key \<Rightarrow> (history, err + network_edge_device) go" where
  "get_ned E k = call (\<lambda>h. e_get_ned E h k) (GotNed k)"

definition list_replica_sets :: "environment \<Rightarrow> string \<Rightarrow> string \<Rightarrow> string \<Rightarrow> (history, err + workload list) go" where
  "list_replica_sets E f n q = call (\<lambda>h. e_list_replica_sets E h f n q) (ListedReplicaSets f n q)"

definition update_overlay :: "environment \<Rightarrow> overlay \<Rightarrow> (history, err + overlay) go" where
  "update_overlay E v = call (\<lambda>h. e_update_overlay E h v) (UpdatedOverlay v)"

definition update_ned :: "environment \<Rightarrow> network_edge_device \<Rightarrow> (history, err + network_edge_device) go" where
  "update_ned E v = call (\<lambda>h. e_update_ned E h v) (UpdatedNed v)"

definition delete_all_nads :: "environment \<Rightarrow> string \<Rightarrow> string \<Rightarrow> (history, err option) go" where
  "delete_all_nads E n q = call (\<lambda>h. e_delete_all_nads E h n q) (DeletedAllNads n q)"

definition patch_config_map :: "environment \<Rightarrow> config_map \<Rightarrow> (history, err option) go" where
  "patch_config_map E v = call (\<lambda>h. e_patch_config_map E h v) (PatchedConfigMap v)"

definition rand64 :: "environment \<Rightarrow> (history, 64 word) go" where
  "rand64 E = call (\<lambda>h. e_rand64 E h) Rand64"

definition rand_below :: "environment \<Rightarrow> nat \<Rightarrow> (history, nat) go" where
  "rand_below E n = call (\<lambda>h. e_rand_below E h n mod n) (RandBelow n)"

lemmas call_defs = get_pod_def get_nad_def get_net_def get_quarantine_def list_nets_def
  list_pods_def list_nads_def list_nodes_def list_neds_def update_pod_def update_nad_def
  update_net_def update_net_status_def update_quarantine_status_def delete_nad_def create_obj_def rand64_def
  rand_below_def get_overlay_def get_ned_def list_replica_sets_def update_overlay_def
  update_ned_def delete_all_nads_def patch_config_map_def

lemmas run_calls [run_simps] = call_def call_defs

lemma wp_get_pod [wp_simps]: "wp (get_pod E k) Q h =
    Q (Val (e_get_pod E h k)) (GotPod k (e_get_pod E h k) # h)"
  by (simp add: call_defs wp_call)

lemma wp_get_nad [wp_simps]: "wp (get_nad E k) Q h =
    Q (Val (e_get_nad E h k)) (GotNad k (e_get_nad E h k) # h)"
  by (simp add: call_defs wp_call)

lemma wp_get_net [wp_simps]: "wp (get_net E k) Q h =
    Q (Val (e_get_net E h k)) (GotNet k (e_get_net E h k) # h)"
  by (simp add: call_defs wp_call)

lemma wp_get_quarantine [wp_simps]: "wp (get_quarantine E k) Q h =
    Q (Val (e_get_quarantine E h k)) (GotQuarantine k (e_get_quarantine E h k) # h)"
  by (simp add: call_defs wp_call)

lemma wp_list_nets [wp_simps]: "wp (list_nets E q) Q h =
    Q (Val (e_list_nets E h q)) (ListedNets q (e_list_nets E h q) # h)"
  by (simp add: call_defs wp_call)

lemma wp_list_pods [wp_simps]: "wp (list_pods E n q) Q h =
    Q (Val (e_list_pods E h n q)) (ListedPods n q (e_list_pods E h n q) # h)"
  by (simp add: call_defs wp_call)

lemma wp_list_nads [wp_simps]: "wp (list_nads E n q) Q h =
    Q (Val (e_list_nads E h n q)) (ListedNads n q (e_list_nads E h n q) # h)"
  by (simp add: call_defs wp_call)

lemma wp_list_nodes [wp_simps]: "wp (list_nodes E) Q h =
    Q (Val (e_list_nodes E h)) (ListedNodes (e_list_nodes E h) # h)"
  by (simp add: call_defs wp_call)

lemma wp_list_neds [wp_simps]: "wp (list_neds E) Q h =
    Q (Val (e_list_neds E h)) (ListedNeds (e_list_neds E h) # h)"
  by (simp add: call_defs wp_call)

lemma wp_update_pod [wp_simps]: "wp (update_pod E p) Q h =
    Q (Val (e_update_pod E h p)) (UpdatedPod p (e_update_pod E h p) # h)"
  by (simp add: call_defs wp_call)

lemma wp_update_nad [wp_simps]: "wp (update_nad E n) Q h =
    Q (Val (e_update_nad E h n)) (UpdatedNad n (e_update_nad E h n) # h)"
  by (simp add: call_defs wp_call)

lemma wp_update_net [wp_simps]: "wp (update_net E n) Q h =
    Q (Val (e_update_net E h n)) (UpdatedNet n (e_update_net E h n) # h)"
  by (simp add: call_defs wp_call)

lemma wp_update_net_status [wp_simps]: "wp (update_net_status E n) Q h =
    Q (Val (e_update_net_status E h n)) (UpdatedNetStatus n (e_update_net_status E h n) # h)"
  by (simp add: call_defs wp_call)

lemma wp_update_quarantine_status [wp_simps]: "wp (update_quarantine_status E n) Q h =
    Q (Val (e_update_quarantine_status E h n))
      (UpdatedQuarantineStatus n (e_update_quarantine_status E h n) # h)"
  by (simp add: call_defs wp_call)

lemma wp_delete_nad [wp_simps]: "wp (delete_nad E n) Q h =
    Q (Val (e_delete_nad E h n)) (DeletedNad n (e_delete_nad E h n) # h)"
  by (simp add: call_defs wp_call)

lemma wp_create_obj [wp_simps]: "wp (create_obj E x) Q h =
    Q (Val (e_create E h x)) (Created x (e_create E h x) # h)"
  by (simp add: call_defs wp_call)

lemma wp_get_overlay [wp_simps]: "wp (get_overlay E k) Q h =
    Q (Val (e_get_overlay E h k)) (GotOverlay k (e_get_overlay E h k) # h)"
  by (simp add: call_defs wp_call)

lemma wp_get_ned [wp_simps]: "wp (get_ned E k) Q h =
    Q (Val (e_get_ned E h k)) (GotNed k (e_get_ned E h k) # h)"
  by (simp add: call_defs wp_call)

lemma wp_list_replica_sets [wp_simps]: "wp (list_replica_sets E f n q) Q h =
    Q (Val (e_list_replica_sets E h f n q)) (ListedReplicaSets f n q (e_list_replica_sets E h f n q) # h)"
  by (simp add: call_defs wp_call)

lemma wp_update_overlay [wp_simps]: "wp (update_overlay E v) Q h =
    Q (Val (e_update_overlay E h v)) (UpdatedOverlay v (e_update_overlay E h v) # h)"
  by (simp add: call_defs wp_call)

lemma wp_update_ned [wp_simps]: "wp (update_ned E v) Q h =
    Q (Val (e_update_ned E h v)) (UpdatedNed v (e_update_ned E h v) # h)"
  by (simp add: call_defs wp_call)

lemma wp_delete_all_nads [wp_simps]: "wp (delete_all_nads E n q) Q h =
    Q (Val (e_delete_all_nads E h n q)) (DeletedAllNads n q (e_delete_all_nads E h n q) # h)"
  by (simp add: call_defs wp_call)

lemma wp_patch_config_map [wp_simps]: "wp (patch_config_map E v) Q h =
    Q (Val (e_patch_config_map E h v)) (PatchedConfigMap v (e_patch_config_map E h v) # h)"
  by (simp add: call_defs wp_call)

lemma wp_rand64 [wp_simps]: "wp (rand64 E) Q h = Q (Val (e_rand64 E h)) (Rand64 (e_rand64 E h) # h)"
  by (simp add: call_defs wp_call)

lemma wp_rand_below [wp_simps]: "wp (rand_below E n) Q h =
    Q (Val (e_rand_below E h n mod n)) (RandBelow n (e_rand_below E h n mod n) # h)"
  by (simp add: call_defs wp_call)

lemma emits_calls [emits_intros]:
  "(\<And>r. P (GotPod k r)) \<Longrightarrow> emits P (get_pod E k)"
  "(\<And>r. P (GotNad k r)) \<Longrightarrow> emits P (get_nad E k)"
  "(\<And>r. P (GotNet k r)) \<Longrightarrow> emits P (get_net E k)"
  "(\<And>r. P (GotQuarantine k r)) \<Longrightarrow> emits P (get_quarantine E k)"
  "(\<And>r. P (ListedNets q r)) \<Longrightarrow> emits P (list_nets E q)"
  "(\<And>r. P (ListedPods n s r)) \<Longrightarrow> emits P (list_pods E n s)"
  "(\<And>r. P (ListedNads n s r)) \<Longrightarrow> emits P (list_nads E n s)"
  "(\<And>r. P (ListedNodes r)) \<Longrightarrow> emits P (list_nodes E)"
  "(\<And>r. P (ListedNeds r)) \<Longrightarrow> emits P (list_neds E)"
  "(\<And>r. P (UpdatedPod p r)) \<Longrightarrow> emits P (update_pod E p)"
  "(\<And>r. P (UpdatedNad d r)) \<Longrightarrow> emits P (update_nad E d)"
  "(\<And>r. P (UpdatedNet w r)) \<Longrightarrow> emits P (update_net E w)"
  "(\<And>r. P (UpdatedNetStatus w r)) \<Longrightarrow> emits P (update_net_status E w)"
  "(\<And>r. P (UpdatedQuarantineStatus y r)) \<Longrightarrow> emits P (update_quarantine_status E y)"
  "(\<And>r. P (DeletedNad d r)) \<Longrightarrow> emits P (delete_nad E d)"
  "(\<And>r. P (Created x r)) \<Longrightarrow> emits P (create_obj E x)"
  "(\<And>r. P (GotOverlay k r)) \<Longrightarrow> emits P (get_overlay E k)"
  "(\<And>r. P (GotNed k r)) \<Longrightarrow> emits P (get_ned E k)"
  "(\<And>r. P (ListedReplicaSets ff nn qq r)) \<Longrightarrow> emits P (list_replica_sets E ff nn qq)"
  "(\<And>r. P (UpdatedOverlay v1 r)) \<Longrightarrow> emits P (update_overlay E v1)"
  "(\<And>r. P (UpdatedNed v2 r)) \<Longrightarrow> emits P (update_ned E v2)"
  "(\<And>r. P (DeletedAllNads nn qq r)) \<Longrightarrow> emits P (delete_all_nads E nn qq)"
  "(\<And>r. P (PatchedConfigMap v3 r)) \<Longrightarrow> emits P (patch_config_map E v3)"
  "(\<And>r. P (Rand64 r)) \<Longrightarrow> emits P (rand64 E)"
  "(\<And>r. P (RandBelow b r)) \<Longrightarrow> emits P (rand_below E b)"
  by (simp_all add: call_defs emits_call)

section \<open>Owner references\<close>

text \<open>
  \<^verbatim>\<open>controllerutil.SetControllerReference\<close> changes the metadata of the object it is given; what
  it does with them (or that it refuses) is a parameter. The \<open>string\<close> is the kind of the
  owner.
\<close>

fun map_obj_meta :: "(obj_meta \<Rightarrow> err + obj_meta) \<Rightarrow> obj \<Rightarrow> err + obj" where
  "map_obj_meta f (OConfigMap c) = map_sum id (\<lambda>m. OConfigMap (c\<lparr>cm_meta := m\<rparr>)) (f (cm_meta c))"
| "map_obj_meta f (ODeployment d) = map_sum id (\<lambda>m. ODeployment (d\<lparr>wl_meta := m\<rparr>)) (f (wl_meta d))"
| "map_obj_meta f (OReplicaSet r) = map_sum id (\<lambda>m. OReplicaSet (r\<lparr>wl_meta := m\<rparr>)) (f (wl_meta r))"
| "map_obj_meta f (OService s) = map_sum id (\<lambda>m. OService (s\<lparr>svc_meta := m\<rparr>)) (f (svc_meta s))"
| "map_obj_meta f (ONad n) = map_sum id (\<lambda>m. ONad (n\<lparr>nad_meta := m\<rparr>)) (f (nad_meta n))"
| "map_obj_meta f (OEvent e) = Inr (OEvent e)"

fun obj_name :: "obj \<Rightarrow> string" where
  "obj_name (OConfigMap c) = om_name (cm_meta c)"
| "obj_name (ODeployment d) = om_name (wl_meta d)"
| "obj_name (OReplicaSet r) = om_name (wl_meta r)"
| "obj_name (OService s) = om_name (svc_meta s)"
| "obj_name (ONad n) = om_name (nad_meta n)"
| "obj_name (OEvent e) = []"

definition SetControllerReference :: "environment \<Rightarrow> string \<Rightarrow> obj_meta \<Rightarrow> obj \<Rightarrow> err + obj" where
  "SetControllerReference E kind owner x = map_obj_meta (e_set_owner E kind owner) x"

section \<open>An environment for the examples\<close>

text \<open>
  Nothing is found, every list is empty, every write is accepted unchanged and the SDN
  controllers answer 204; an example overrides the replies it is about.
\<close>

definition quiet_env :: environment where
  "quiet_env = \<lparr>
     e_os = (\<lambda>_. None),
     e_get_pod = (\<lambda>_ _. Inl (ApiError True [])),
     e_get_nad = (\<lambda>_ _. Inl (ApiError True [])),
     e_get_net = (\<lambda>_ _. Inl (ApiError True [])),
     e_get_quarantine = (\<lambda>_ _. Inl (ApiError True [])),
     e_list_nets = (\<lambda>_ _. Inr []),
     e_list_pods = (\<lambda>_ _ _. Inr []),
     e_list_nads = (\<lambda>_ _ _. Inr []),
     e_list_nodes = (\<lambda>_. Inr []),
     e_list_neds = (\<lambda>_. Inr []),
     e_update_pod = (\<lambda>_. Inr),
     e_update_nad = (\<lambda>_. Inr),
     e_update_net = (\<lambda>_. Inr),
     e_update_net_status = (\<lambda>_. Inr),
     e_update_quarantine_status = (\<lambda>_. Inr),
     e_delete_nad = (\<lambda>_ _. None),
     e_create = (\<lambda>_ _. None),
     e_get_overlay = (\<lambda>_ _. Inl (ApiError True [])),
     e_get_ned = (\<lambda>_ _. Inl (ApiError True [])),
     e_list_replica_sets = (\<lambda>_ _ _ _. Inr []),
     e_update_overlay = (\<lambda>_. Inr),
     e_update_ned = (\<lambda>_. Inr),
     e_delete_all_nads = (\<lambda>_ _ _. None),
     e_patch_config_map = (\<lambda>_ _. None),
     e_http = (\<lambda>_ _ _ _ _. Inr 204),
     e_url_error = (\<lambda>_. None),
     e_ned_client = (\<lambda>_. None),
     e_ned_attach = (\<lambda>_ _ _. Inr 1),
     e_dns_client = (\<lambda>_. None),
     e_dns_add = (\<lambda>_ _ _. None),
     e_dns_manager = (\<lambda>_. None),
     e_core_dns = (\<lambda>_ _ _. None),
     e_rand64 = (\<lambda>_. 0),
     e_rand_below = (\<lambda>_ _. 0),
     e_switch_id = (\<lambda>node provider. node),
     e_switch_port = (\<lambda>node provider i. node),
     e_switch_probe = (\<lambda>node provider. node),
     e_switch_name = (\<lambda>node provider. node),
     e_probe_id = 0,
     e_valid_label_key = (\<lambda>_. True),
     e_selector = (\<lambda>_. Inr []),
     e_set_owner = (\<lambda>_ _ m. Inr m),
     e_set_condition = (\<lambda>cs c. cs @ [c]),
     e_parse_float = (\<lambda>_. Some 0),
     e_node_config_json = (\<lambda>c. Inr (lc_node c)),
     e_settings_json = (\<lambda>_. Inr []),
     e_switch_node_json = (\<lambda>n. Inr (sn_name n)),
     e_topology_json = (\<lambda>_. Inr [])\<rparr>"

end
