(* ===== verification/SdnClient.thy ===== *)
theory SdnClient
  imports Cluster GoJson Utils
begin

text \<open>
  \<^verbatim>\<open>internal/sdnclient\<close>: the HTTP session with an SDN controller (\<^verbatim>\<open>session_client.go\<close>), the
  Go interface \<^verbatim>\<open>Client\<close> as a record of operations (\<^verbatim>\<open>client.go\<close>), and its two
  implementations. The locale \<open>sdn_operation\<close> is the contract of one operation: at most one
  request, and success reported exactly when the controller accepted it. It is interpreted on
  every operation of both clients; \<open>sdn_client_ops\<close> collects the contracts a caller of the
  interface relies on.
\<close>

section \<open>Sessions (session\_client.go)\<close>

definition base64_char :: "nat \<Rightarrow> char" where
  "base64_char n =
     (if n < 26 then char_of (65 + n) else if n < 52 then char_of (71 + n)
      else if n < 62 then char_of (n - 4) else if n = 62 then CHR ''+'' else CHR ''/'')"

text \<open>\<^verbatim>\<open>base64.StdEncoding.EncodeToString\<close>.\<close>

fun base64 :: "string \<Rightarrow> string" where
  "base64 [] = []"
| "base64 [a] = [base64_char (byte a div 4), base64_char (byte a mod 4 * 16), CHR ''='', CHR ''='']"
| "base64 [a, b] = [base64_char (byte a div 4), base64_char (byte a mod 4 * 16 + byte b div 16),
     base64_char (byte b mod 16 * 4), CHR ''='']"
| "base64 (a # b # c # s) = [base64_char (byte a div 4), base64_char (byte a mod 4 * 16 + byte b div 16),
     base64_char (byte b mod 16 * 4 + byte c div 64), base64_char (byte c mod 64)] @ base64 s"

record session_client =
  sc_base_url :: string
  sc_auth_token :: string

definition NewSessionClient :: "string \<Rightarrow> string \<Rightarrow> string \<Rightarrow> session_client" where
  "NewSessionClient baseURL username password =
     \<lparr>sc_base_url = baseURL, sc_auth_token = base64 (username @ '':'' @ password)\<rparr>"

record http_request =
  rq_method :: string
  rq_url :: string
  rq_authorization :: string
  rq_body :: string

definition newRequest ::
  "environment \<Rightarrow> session_client \<Rightarrow> string \<Rightarrow> string \<Rightarrow> string \<Rightarrow> err + http_request" where
  "newRequest E c method url body =
     (case e_url_error E (sc_base_url c @ url) of
        Some e \<Rightarrow> Inl e
      | None \<Rightarrow> Inr \<lparr>rq_method = method, rq_url = sc_base_url c @ url,
          rq_authorization = ''Basic '' @ sc_auth_token c, rq_body = body\<rparr>)"

text \<open>Sending a request gives the status code of the response.\<close>

definition Do :: "environment \<Rightarrow> http_request \<Rightarrow> (history, err + nat) go" where
  "Do E req = call (\<lambda>h. e_http E h (rq_method req) (rq_url req) (rq_authorization req) (rq_body req))
     (Http (rq_method req) (rq_url req) (rq_authorization req) (rq_body req))"

definition Get :: "environment \<Rightarrow> session_client \<Rightarrow> string \<Rightarrow> (history, err + nat) go" where
  "Get E c url = gcheck (newRequest E c ''GET'' url []) (Do E)"

definition Post :: "environment \<Rightarrow> session_client \<Rightarrow> string \<Rightarrow> string \<Rightarrow> (history, err + nat) go" where
  "Post E c url body = gcheck (newRequest E c ''POST'' url body) (Do E)"

definition Delete :: "environment \<Rightarrow> session_client \<Rightarrow> string \<Rightarrow> string \<Rightarrow> (history, err + nat) go" where
  "Delete E c url body = gcheck (newRequest E c ''DELETE'' url body) (Do E)"

section \<open>The interface (client.go)\<close>

record vnet_payload =
  vp_network :: string
  vp_ports :: "string list"
  vp_mirror :: string

definition payload :: "string \<Rightarrow> string list \<Rightarrow> vnet_payload" where
  "payload network ports = \<lparr>vp_network = network, vp_ports = ports, vp_mirror = []\<rparr>"

text \<open>\<^verbatim>\<open>json.Marshal\<close> of a payload: \<^verbatim>\<open>omitempty\<close> on all but the network.\<close>

definition payload_json :: "vnet_payload \<Rightarrow> string" where
  "payload_json p = print_json (JObj
     ([(''networkId'', JStr (vp_network p))] @
      (if vp_ports p = [] then [] else [(''networkEndpoints'', JArr (map JStr (vp_ports p)))]) @
      (if vp_mirror p = [] then [] else [(''mirrorPort'', JStr (vp_mirror p))])))"

record sdn_client =
  cl_create :: "string \<Rightarrow> vnet_payload \<Rightarrow> (history, err option) go"
  cl_delete :: "string \<Rightarrow> string \<Rightarrow> (history, err option) go"
  cl_exists :: "string \<Rightarrow> string \<Rightarrow> (history, err + bool) go"
  cl_attach :: "string \<Rightarrow> vnet_payload \<Rightarrow> (history, err option) go"
  cl_detach :: "string \<Rightarrow> vnet_payload \<Rightarrow> (history, err option) go"
  cl_mirror :: "string \<Rightarrow> vnet_payload \<Rightarrow> (history, err option) go"

record client_config =
  cc_base_url :: string
  cc_username :: string
  cc_password :: string

definition InternalType :: string where "InternalType = ''internal''"

definition ExternalType :: string where "ExternalType = ''external''"

text \<open>The tail every operation shares: an error of the request, or a wrong status code.\<close>

definition expect_status :: "string \<Rightarrow> nat list \<Rightarrow> err + nat \<Rightarrow> err option" where
  "expect_status msg good r = (case r of
       Inl e \<Rightarrow> Some e
     | Inr code \<Rightarrow> if code \<in> set good then None else Some (errorf msg [dec code]))"

section \<open>The internal client (internal\_client.go)\<close>

definition internal_beginSessionController :: "environment \<Rightarrow> session_client \<Rightarrow> (history, bool) go" where
  "internal_beginSessionController E c =
     gbind (Get E c ''/vnets/api/status'') (\<lambda>r. ret (r = Inr 200))"

definition internal_CreateNetwork ::
  "environment \<Rightarrow> session_client \<Rightarrow> string \<Rightarrow> vnet_payload \<Rightarrow> (history, err option) go" where
  "internal_CreateNetwork E c networkType config =
     gbind (Post E c ''/vnets/api'' (payload_json config))
       (\<lambda>r. ret (expect_status ''failed to create network, status code: %d'' [204] r))"

definition internal_CheckNetworkExists ::
  "environment \<Rightarrow> session_client \<Rightarrow> string \<Rightarrow> string \<Rightarrow> (history, err + bool) go" where
  "internal_CheckNetworkExists E c networkType networkID =
     gbind (Get E c (''/vnets/api/'' @ networkID)) (\<lambda>r. ret (map_sum id (\<lambda>code. code = 200) r))"

definition internal_DeleteNetwork ::
  "environment \<Rightarrow> session_client \<Rightarrow> string \<Rightarrow> string \<Rightarrow> (history, err option) go" where
  "internal_DeleteNetwork E c networkType networkID =
     gbind (Delete E c (''/vnets/api/'' @ networkID) [])
       (\<lambda>r. ret (expect_status ''SDN controller responded with status code: %d'' [204] r))"

definition internal_AttachPodToNetwork ::
  "environment \<Rightarrow> session_client \<Rightarrow> string \<Rightarrow> vnet_payload \<Rightarrow> (history, err option) go" where
  "internal_AttachPodToNetwork E c networkType config =
     gbind (Post E c ''/vnets/api/port'' (payload_json config))
       (\<lambda>r. ret (expect_status ''failed to attach pod, status code: %d'' [204] r))"

definition internal_DetachPodFromNetwork ::
  "environment \<Rightarrow> session_client \<Rightarrow> string \<Rightarrow> vnet_payload \<Rightarrow> (history, err option) go" where
  "internal_DetachPodFromNetwork E c networkType config =
     gbind (Delete E c ''/vnets/api/port'' (payload_json config))
       (\<lambda>r. ret (expect_status ''failed to detach pod from network, status code: %d'' [204, 200] r))"

definition internal_SetUpMirrorPort ::
  "environment \<Rightarrow> session_client \<Rightarrow> string \<Rightarrow> vnet_payload \<Rightarrow> (history, err option) go" where
  "internal_SetUpMirrorPort E c networkType config =
     gbind (Post E c ''/vnets/api/mirror-port'' (payload_json config))
       (\<lambda>r. ret (expect_status ''failed to attach pod, status code: %d'' [204] r))"

definition InternalClient :: "environment \<Rightarrow> session_client \<Rightarrow> sdn_client" where
  "InternalClient E c = \<lparr>cl_create = internal_CreateNetwork E c, cl_delete = internal_DeleteNetwork E c,
     cl_exists = internal_CheckNetworkExists E c, cl_attach = internal_AttachPodToNetwork E c,
     cl_detach = internal_DetachPodFromNetwork E c, cl_mirror = internal_SetUpMirrorPort E c\<rparr>"

section \<open>The external client (external\_client.go)\<close>

definition external_beginSessionController :: "environment \<Rightarrow> session_client \<Rightarrow> (history, bool) go" where
  "external_beginSessionController E c =
     gbind (Get E c ''/idco/mscs/status'') (\<lambda>r. ret (r = Inr 200))"

definition external_CreateNetwork ::
  "environment \<Rightarrow> session_client \<Rightarrow> string \<Rightarrow> vnet_payload \<Rightarrow> (history, err option) go" where
  "external_CreateNetwork E c networkType config =
     gbind (Post E c ''/idco/mscs'' (payload_json config))
       (\<lambda>r. ret (expect_status ''failed to create network, status code: %d'' [204] r))"

definition external_CheckNetworkExists ::
  "environment \<Rightarrow> session_client \<Rightarrow> string \<Rightarrow> string \<Rightarrow> (history, err + bool) go" where
  "external_CheckNetworkExists E c networkType networkID =
     gbind (Get E c (''/idco/mscs/'' @ networkID)) (\<lambda>r. ret (map_sum id (\<lambda>code. code = 200) r))"

definition external_DeleteNetwork ::
  "environment \<Rightarrow> session_client \<Rightarrow> string \<Rightarrow> string \<Rightarrow> (history, err option) go" where
  "external_DeleteNetwork E c networkType networkID =
     gbind (Delete E c (''/idco/mscs/'' @ networkID) [])
       (\<lambda>r. ret (expect_status ''SDN controller responded with status code: %d'' [204] r))"

definition external_AttachPodToNetwork :: "string \<Rightarrow> vnet_payload \<Rightarrow> (history, err option) go" where
  "external_AttachPodToNetwork networkType config = ret None"

definition external_DetachPodFromNetwork :: "string \<Rightarrow> vnet_payload \<Rightarrow> (history, err option) go" where
  "external_DetachPodFromNetwork networkType config = gpanic"

definition external_SetUpMirrorPort :: "string \<Rightarrow> vnet_payload \<Rightarrow> (history, err option) go" where
  "external_SetUpMirrorPort networkType config = ret (Some (errorf ''unimplemented'' []))"

definition ExternalClient :: "environment \<Rightarrow> session_client \<Rightarrow> sdn_client" where
  "ExternalClient E c = \<lparr>cl_create = external_CreateNetwork E c, cl_delete = external_DeleteNetwork E c,
     cl_exists = external_CheckNetworkExists E c, cl_attach = external_AttachPodToNetwork,
     cl_detach = external_DetachPodFromNetwork, cl_mirror = external_SetUpMirrorPort\<rparr>"

definition NewClient :: "environment \<Rightarrow> string \<Rightarrow> client_config \<Rightarrow> (history, err + sdn_client) go" where
  "NewClient E clientType config =
     (let sessionClient = NewSessionClient (cc_base_url config) (cc_username config) (cc_password config);
          failed = Inl (errorf ''could not initialize session with SDN controller. Please check the connection details and credentials.'' [])
      in if clientType = InternalType then
           gbind (internal_beginSessionController E sessionClient)
             (\<lambda>ok. ret (if \<not> ok then failed else Inr (InternalClient E sessionClient)))
         else if clientType = ExternalType then
           gbind (external_beginSessionController E sessionClient)
             (\<lambda>ok. ret (if \<not> ok then failed else Inr (ExternalClient E sessionClient)))
         else ret (Inl (errorf ''unsupported client type'' [])))"

text \<open>The login every caller in the program uses.\<close>

definition karaf_config :: "string \<Rightarrow> client_config" where
  "karaf_config url = \<lparr>cc_base_url = url, cc_username = ''karaf'', cc_password = ''karaf''\<rparr>"

section \<open>The contract of an operation\<close>

text \<open>
  \<open>request p reply\<close> is the event of the operation's request for the argument \<open>p\<close>, and
  \<open>accepted\<close> the status codes it takes as success. The law: either no request is sent and
  the operation fails, or one request is sent and the operation succeeds exactly when the
  controller answers with an accepted code. It neither panics nor hangs.
\<close>

locale sdn_operation =
  fixes op :: "string \<Rightarrow> 'p \<Rightarrow> (history, err option) go"
    and request :: "'p \<Rightarrow> err + nat \<Rightarrow> event"
    and accepted :: "nat \<Rightarrow> bool"
  assumes one_request: "wp (op t p) (\<lambda>r h'. \<exists>x. r = Val x \<and>
      (h' = h \<and> x \<noteq> None \<or>
       (\<exists>reply. h' = request p reply # h \<and> (x = None \<longleftrightarrow> (\<exists>c. reply = Inr c \<and> accepted c))))) h"
begin

lemma op_cases:
  assumes "op t p h = (r, h')"
  obtains (unsent) e where "r = Val (Some e)" "h' = h"
  | (refused) e reply where "r = Val (Some e)" "h' = request p reply # h"
      "\<nexists>c. reply = Inr c \<and> accepted c"
  | (success) c where "r = Val None" "h' = request p (Inr c) # h" "accepted c"
  using wpD [OF one_request assms] by (metis not_None_eq)

lemma op_done:
  assumes "op t p h = (Val None, h')"
  shows "\<exists>c. h' = request p (Inr c) # h \<and> accepted c"
  by (rule op_cases [OF assms]) auto

lemma op_emits: "(\<And>reply. P (request p reply)) \<Longrightarrow> emits P (op t p)"
  unfolding emits_def
proof
  fix h assume P: "\<And>reply. P (request p reply)"
  obtain r h' where o: "op t p h = (r, h')" by fastforce
  show "\<exists>es. snd (op t p h) = es @ h \<and> (\<forall>e\<in>set es. P e)"
    by (rule op_cases [OF o]) (auto simp: o P)
qed

lemma wp_op:
  assumes "\<And>e. Q (Val (Some e)) h"
    and "\<And>e reply. (\<nexists>c. reply = Inr c \<and> accepted c) \<Longrightarrow> Q (Val (Some e)) (request p reply # h)"
    and "\<And>c. accepted c \<Longrightarrow> Q (Val None) (request p (Inr c) # h)"
  shows "wp (op t p) Q h"
proof (rule wpI)
  fix r h' assume o: "op t p h = (r, h')"
  show "Q r h'" by (rule op_cases [OF o]) (simp_all add: assms)
qed

end

text \<open>A client that can create and delete networks, and one that also moves ports.\<close>

locale sdn_network_client =
  create: sdn_operation "cl_create c" create_request accepted +
  delete: sdn_operation "cl_delete c" delete_request accepted
  for c :: sdn_client and create_request delete_request accepted

locale sdn_port_client = sdn_network_client +
  attach: sdn_operation "cl_attach c" attach_request accepted +
  detach: sdn_operation "cl_detach c" detach_request detach_accepted +
  mirror: sdn_operation "cl_mirror c" mirror_request accepted
  for attach_request detach_request detach_accepted mirror_request

section \<open>Both clients keep the contract\<close>

lemma wp_Do [wp_simps]: "wp (Do E req) Q h =
    (let r = e_http E h (rq_method req) (rq_url req) (rq_authorization req) (rq_body req)
     in Q (Val r) (Http (rq_method req) (rq_url req) (rq_authorization req) (rq_body req) r # h))"
  by (simp add: Do_def wp_call Let_def)

definition sent :: "session_client \<Rightarrow> string \<Rightarrow> string \<Rightarrow> string \<Rightarrow> err + nat \<Rightarrow> event" where
  "sent c method url body =
     Http method (sc_base_url c @ url) (''Basic '' @ sc_auth_token c) body"

lemma request_contract:
  assumes op: "op = (\<lambda>t p. gbind (gcheck (newRequest E c (m p) (u p) (b p)) (Do E))
      (\<lambda>r. ret (expect_status msg good r)))"
  shows "sdn_operation op (\<lambda>p. sent c (m p) (u p) (b p)) (\<lambda>x. x \<in> set good)"
  unfolding op
proof
  fix t p h
  show "wp (gbind (gcheck (newRequest E c (m p) (u p) (b p)) (Do E))
      (\<lambda>r. ret (expect_status msg good r)))
     (\<lambda>r h'. \<exists>x. r = Val x \<and> (h' = h \<and> x \<noteq> None \<or>
       (\<exists>reply. h' = sent c (m p) (u p) (b p) reply # h \<and>
         (x = None \<longleftrightarrow> (\<exists>c. reply = Inr c \<and> c \<in> set good))))) h"
    by (auto simp: wp_simps newRequest_def sent_def expect_status_def Let_def
        split: option.split sum.split)
qed

lemma internal_operations:
  "sdn_operation (internal_CreateNetwork E c) (\<lambda>p. sent c ''POST'' ''/vnets/api'' (payload_json p))
     (\<lambda>x. x \<in> set [204])"
  "sdn_operation (internal_DeleteNetwork E c) (\<lambda>n. sent c ''DELETE'' (''/vnets/api/'' @ n) [])
     (\<lambda>x. x \<in> set [204])"
  "sdn_operation (internal_AttachPodToNetwork E c)
     (\<lambda>p. sent c ''POST'' ''/vnets/api/port'' (payload_json p)) (\<lambda>x. x \<in> set [204])"
  "sdn_operation (internal_DetachPodFromNetwork E c)
     (\<lambda>p. sent c ''DELETE'' ''/vnets/api/port'' (payload_json p)) (\<lambda>x. x \<in> set [204, 200])"
  "sdn_operation (internal_SetUpMirrorPort E c)
     (\<lambda>p. sent c ''POST'' ''/vnets/api/mirror-port'' (payload_json p)) (\<lambda>x. x \<in> set [204])"
  by (rule request_contract; rule ext; rule ext;
      simp add: internal_CreateNetwork_def internal_DeleteNetwork_def internal_AttachPodToNetwork_def
        internal_DetachPodFromNetwork_def internal_SetUpMirrorPort_def Post_def Delete_def)+

lemma external_operations:
  "sdn_operation (external_CreateNetwork E c) (\<lambda>p. sent c ''POST'' ''/idco/mscs'' (payload_json p))
     (\<lambda>x. x \<in> set [204])"
  "sdn_operation (external_DeleteNetwork E c) (\<lambda>n. sent c ''DELETE'' (''/idco/mscs/'' @ n) [])
     (\<lambda>x. x \<in> set [204])"
  by (rule request_contract; rule ext; rule ext;
      simp add: external_CreateNetwork_def external_DeleteNetwork_def Post_def Delete_def)+

interpretation internal: sdn_port_client "InternalClient E s"
  "\<lambda>p. sent s ''POST'' ''/vnets/api'' (payload_json p)"
  "\<lambda>n. sent s ''DELETE'' (''/vnets/api/'' @ n) []"
  "\<lambda>x. x \<in> set [204]"
  "\<lambda>p. sent s ''POST'' ''/vnets/api/port'' (payload_json p)"
  "\<lambda>p. sent s ''DELETE'' ''/vnets/api/port'' (payload_json p)"
  "\<lambda>x. x \<in> set [204, 200]"
  "\<lambda>p. sent s ''POST'' ''/vnets/api/mirror-port'' (payload_json p)"
  for E s
  by (intro sdn_port_client.intro sdn_network_client.intro)
    (simp_all only: InternalClient_def sdn_client.simps internal_operations)

interpretation external: sdn_network_client "ExternalClient E s"
  "\<lambda>p. sent s ''POST'' ''/idco/mscs'' (payload_json p)"
  "\<lambda>n. sent s ''DELETE'' (''/idco/mscs/'' @ n) []"
  "\<lambda>x. x \<in> set [204]"
  for E s
  by (intro sdn_network_client.intro)
    (simp_all only: ExternalClient_def sdn_client.simps external_operations)

section \<open>What the sessions emit\<close>

lemma emits_requests [emits_intros]:
  assumes "\<And>m u a b r. P (Http m u a b r)"
  shows "emits P (Get E c u)" "emits P (Post E c u b)" "emits P (Delete E c u b)"
  unfolding Get_def Post_def Delete_def Do_def by (intro emits_intros emits_call assms)+

lemma emits_NewClient:
  assumes "\<And>m u a b r. P (Http m u a b r)"
  shows "emits P (NewClient E k cfg)"
  unfolding NewClient_def Let_def internal_beginSessionController_def external_beginSessionController_def
  by (intro emits_intros assms)

lemma emits_internal:
  assumes "\<And>m u a b r. P (Http m u a b r)"
  shows "emits P (cl_create (InternalClient E s) t p)" "emits P (cl_delete (InternalClient E s) t n)"
    "emits P (cl_exists (InternalClient E s) t n)" "emits P (cl_attach (InternalClient E s) t p)"
    "emits P (cl_detach (InternalClient E s) t p)" "emits P (cl_mirror (InternalClient E s) t p)"
  unfolding InternalClient_def sdn_client.simps internal_CreateNetwork_def internal_DeleteNetwork_def
    internal_CheckNetworkExists_def internal_AttachPodToNetwork_def internal_DetachPodFromNetwork_def internal_SetUpMirrorPort_def
  by (intro emits_intros assms)+

lemma NewClient_internal:
  assumes "NewClient E InternalType cfg h = (Val (Inr c), h')"
  shows "c = InternalClient E (NewSessionClient (cc_base_url cfg) (cc_username cfg) (cc_password cfg))"
proof -
  have "wp (NewClient E InternalType cfg) (\<lambda>r h'. r = Val (Inr c) \<longrightarrow>
      c = InternalClient E (NewSessionClient (cc_base_url cfg) (cc_username cfg) (cc_password cfg))) h"
    unfolding NewClient_def Let_def internal_beginSessionController_def
    by (auto simp: wp_simps Get_def newRequest_def Let_def split: option.split)
  from wpD [OF this assms] show ?thesis by simp
qed

text \<open>A program that opens a session and goes on with the client it got.\<close>

lemma emits_with_client:
  assumes "\<And>m u a b r. P (Http m u a b r)" "\<And>e. emits P (f (Inl e))" "\<And>s. emits P (f (Inr (InternalClient E s)))"
  shows "emits P (gbind (NewClient E InternalType cfg) f)"
proof (rule emits_gbind_result)
  show "emits P (NewClient E InternalType cfg)" by (rule emits_NewClient) (rule assms(1))
  fix a h h' assume "NewClient E InternalType cfg h = (Val a, h')"
  then show "emits P (f a)" using assms(2,3) NewClient_internal by (cases a) fastforce+
qed

section \<open>Properties\<close>

text \<open>
  Attaching a port through the internal client: when the URL is valid one POST with the
  payload goes to \<^verbatim>\<open>/vnets/api/port\<close> of the session's base URL, and the call succeeds exactly
  when the controller answers 204; when it is not, nothing is sent and the call fails.
\<close>

lemma internal_attach_request:
  "cl_attach (InternalClient E s) t p h =
     (case e_url_error E (sc_base_url s @ ''/vnets/api/port'') of
        Some e \<Rightarrow> (Val (Some e), h)
      | None \<Rightarrow>
          (let reply = e_http E h ''POST'' (sc_base_url s @ ''/vnets/api/port'')
                 (''Basic '' @ sc_auth_token s) (payload_json p)
           in (Val (case reply of
                 Inl e \<Rightarrow> Some e
               | Inr code \<Rightarrow> if code = 204 then None
                   else Some (errorf ''failed to attach pod, status code: %d'' [dec code])),
               sent s ''POST'' ''/vnets/api/port'' (payload_json p) reply # h)))"
  by (auto simp: InternalClient_def internal_AttachPodToNetwork_def Post_def newRequest_def
      Do_def call_def gbind_def ret_def sent_def expect_status_def Let_def
      split: option.split sum.split)

text \<open>
  The two clients differ where a caller of the interface cannot see it: attaching a port
  through the external client sends nothing and reports success, and detaching one panics,
  while the internal client never panics on either.
\<close>

lemma external_client_ports:
  "cl_attach (ExternalClient E s) t p h = (Val None, h) \<and>
   cl_detach (ExternalClient E s) t p h = (Panic, h) \<and>
   (\<exists>x h'. cl_attach (InternalClient E s) t p h = (Val x, h')) \<and>
   (\<exists>x h'. cl_detach (InternalClient E s) t p h = (Val x, h'))"
proof -
  have "\<exists>x h'. cl_attach (InternalClient E s) t p h = (Val x, h')"
    using wpD [OF internal.attach.one_request] by (metis surj_pair)
  moreover have "\<exists>x h'. cl_detach (InternalClient E s) t p h = (Val x, h')"
    using wpD [OF internal.detach.one_request] by (metis surj_pair)
  ultimately show ?thesis
    by (simp add: ExternalClient_def external_AttachPodToNetwork_def
        external_DetachPodFromNetwork_def ret_def gpanic_def)
qed

text \<open>
  \<open>NewClient\<close> gives a client only after the controller answered the status request of its
  kind with 200, and it sends no other request.
\<close>

lemma wp_NewClient_session:
  "wp (NewClient E kind cfg) (\<lambda>r h'. (\<exists>x. r = Val x) \<and> (\<forall>c. r = Val (Inr c) \<longrightarrow>
     (\<exists>s path. s = NewSessionClient (cc_base_url cfg) (cc_username cfg) (cc_password cfg) \<and>
        h' = sent s ''GET'' path [] (Inr 200) # h \<and>
        (kind = ''internal'' \<and> path = ''/vnets/api/status'' \<and> c = InternalClient E s \<or>
         kind = ''external'' \<and> path = ''/idco/mscs/status'' \<and> c = ExternalClient E s)))) h"
proof -
  have get: "wp (Get E s path) (\<lambda>r h'. \<exists>x. r = Val x \<and> (x = Inr 200 \<longrightarrow>
      h' = sent s ''GET'' path [] (Inr 200) # h)) h" for s path
    by (simp add: Get_def wp_simps newRequest_def sent_def Let_def split: option.split)
  show ?thesis
    unfolding NewClient_def Let_def internal_beginSessionController_def
      external_beginSessionController_def InternalType_def ExternalType_def
    by (auto simp: wp_simps intro!: wp_mono [OF get])
qed

end
