(* ===== verification/Talpa.thy ===== *)
theory Talpa
  imports Cluster Utils
begin

text \<open>
  \<^verbatim>\<open>internal/talpainterface\<close>: interface names of a switch (\<^verbatim>\<open>ifname.go\<close>), the default pod
  templates (\<^verbatim>\<open>switchtemplate.go\<close>), and the NED gRPC service (\<^verbatim>\<open>grpcapi.go\<close>). The switch
  identifiers come from \<^verbatim>\<open>l2sm-switch\<close> and are parameters.
\<close>

section \<open>Interface names (ifname.go)\<close>

definition GetIfName :: "environment \<Rightarrow> string \<Rightarrow> string \<Rightarrow> int \<Rightarrow> string" where
  "GetIfName E nodeName providerName index = e_switch_port E nodeName providerName index"

definition ProbeInterface :: "environment \<Rightarrow> string \<Rightarrow> string \<Rightarrow> string" where
  "ProbeInterface E node provider = e_switch_probe E node provider"

text \<open>
  The identifier of the port \<open>port\<close> of the switch that \<open>provider\<close> runs on \<open>node\<close>:
  \<^verbatim>\<open>fmt.Sprintf("of:%s", dp.GenerateID(dp.GetSwitchName(...)))\<close> and \<^verbatim>\<open>"%s/%s"\<close>.
\<close>

definition of_port :: "environment \<Rightarrow> string \<Rightarrow> string \<Rightarrow> string \<Rightarrow> string" where
  "of_port E node provider port = ''of:'' @ e_switch_id E node provider @ ''/'' @ port"

section \<open>Default templates (switchtemplate.go)\<close>

definition SwitchTemplateModeNED :: string where "SwitchTemplateModeNED = ''ned''"

definition SwitchTemplateModeSPS :: string where "SwitchTemplateModeSPS = ''sps''"

definition defaultSwitchContainer :: container where
  "defaultSwitchContainer =
     (new_container ''l2sm-switch'' ''alexdecb/talpa:1.3.8'')
       \<lparr>ct_pull_policy := ''Always'', ct_capabilities := [''NET_ADMIN'']\<rparr>"

definition DefaultSwitchTemplate :: "string \<Rightarrow> err + switch_template" where
  "DefaultSwitchTemplate mode =
     (let c = defaultSwitchContainer;
          template = (\<lambda>c host. \<lparr>sw_meta = new_meta [] [], sw_spec =
            \<lparr>sp_volumes = [], sp_init_containers = [], sp_containers = [c], sp_host_network = host\<rparr>\<rparr>)
      in if mode = SwitchTemplateModeNED then
           Inr (template (c\<lparr>ct_args := [SwitchTemplateModeNED]\<rparr>) True)
         else if mode = SwitchTemplateModeSPS then
           Inr (template (c\<lparr>ct_args := [''sps-init'', ''--node_name=$(NODENAME)''],
             ct_env := [\<lparr>ev_name = ''NODENAME'', ev_value = [], ev_field_path = Some ''spec.nodeName''\<rparr>]\<rparr>) False)
         else Inl (errorf ''unsupported switch template mode: %s'' [mode]))"

section \<open>The NED service (grpcapi.go)\<close>

definition ned_attach :: "environment \<Rightarrow> string \<Rightarrow> string \<Rightarrow> (history, err + int) go" where
  "ned_attach E addr ifname = call (\<lambda>h. e_ned_attach E h addr ifname) (NedAttach addr ifname)"

definition AttachInterface :: "environment \<Rightarrow> string \<Rightarrow> string \<Rightarrow> (history, err + string) go" where
  "AttachInterface E nedAddress nedNetworkAttachDef =
     (case e_ned_client E nedAddress of
        Some e \<Rightarrow> ret (Inl (Errorf ''did not connect: %v'' [] (Some e)))
      | None \<Rightarrow> gbind (ned_attach E nedAddress nedNetworkAttachDef)
          (\<lambda>r. ret (case r of
             Inl e \<Rightarrow> Inl (Errorf ''could not attach interface: %v'' [] (Some e))
           | Inr n \<Rightarrow> Inr (dec_int n))))"

text \<open>The first device of the list with that provider; a device without one panics.\<close>

primrec find_ned :: "string \<Rightarrow> network_edge_device list \<Rightarrow> network_edge_device option flow" where
  "find_ned providerName [] = Val None"
| "find_ned providerName (ned # neds) =
     (case ned_provider ned of
        None \<Rightarrow> Panic
      | Some p \<Rightarrow> if pv_name p = providerName then Val (Some ned) else find_ned providerName neds)"

definition GetNetworkEdgeDevice :: "environment \<Rightarrow> string \<Rightarrow> (history, err + network_edge_device) go" where
  "GetNetworkEdgeDevice E providerName =
     gbind (list_neds E) (\<lambda>r. case r of
       Inl e \<Rightarrow> ret (Inl (Errorf ''failed to list NetworkEdgeDevices: %w'' [] (Some e)))
     | Inr items \<Rightarrow> gbind (glift (find_ned providerName items)) (\<lambda>found. ret (case found of
         Some ned \<Rightarrow> Inr ned
       | None \<Rightarrow> Inl (errorf ''no NetworkEdgeDevice found for provider: %s'' [providerName]))))"

lemma wp_ned_attach [wp_simps]: "wp (ned_attach E a n) Q h =
    Q (Val (e_ned_attach E h a n)) (NedAttach a n (e_ned_attach E h a n) # h)"
  by (simp add: ned_attach_def wp_call)

lemma emits_ned_attach [emits_intros]: "(\<And>r. P (NedAttach a n r)) \<Longrightarrow> emits P (ned_attach E a n)"
  by (simp add: ned_attach_def emits_call)

lemma emits_AttachInterface [emits_intros]:
  "(\<And>r. P (NedAttach a n r)) \<Longrightarrow> emits P (AttachInterface E a n)"
  unfolding AttachInterface_def by (intro emits_intros)

lemma emits_GetNetworkEdgeDevice [emits_intros]:
  "(\<And>r. P (ListedNeds r)) \<Longrightarrow> emits P (GetNetworkEdgeDevice E p)"
  unfolding GetNetworkEdgeDevice_def by (intro emits_intros)

text \<open>
  \<open>DefaultSwitchTemplate\<close> accepts exactly the two modes; each template has one switch
  container, only the NED one uses the host network, and only the other one reads the node
  name from its environment.
\<close>

lemma DefaultSwitchTemplate_modes:
  "(\<exists>t. DefaultSwitchTemplate mode = Inr t) = (mode = ''ned'' \<or> mode = ''sps'') \<and>
   (case DefaultSwitchTemplate mode of
      Inl e \<Rightarrow> e = errorf ''unsupported switch template mode: %s'' [mode]
    | Inr t \<Rightarrow> map ct_name (sp_containers (sw_spec t)) = [''l2sm-switch''] \<and>
        sp_host_network (sw_spec t) = (mode = ''ned'') \<and>
        (map ev_name (ct_env (hd (sp_containers (sw_spec t)))) = [''NODENAME'']) = (mode = ''sps''))"
  by (simp add: DefaultSwitchTemplate_def SwitchTemplateModeNED_def SwitchTemplateModeSPS_def
      defaultSwitchContainer_def new_container_def Let_def)

end
