(* ===== verification/Lpm.thy ===== *)
theory Lpm
  imports Talpa IPAlloc GoJson
begin

text \<open>
  \<^verbatim>\<open>internal/lpminterface/lpminterface.go\<close>: the ports of the monitoring network, the
  collector side-car with one configuration per node, and the exporter with its two
  strategies. The JSON of a node configuration and \<^verbatim>\<open>strconv.ParseFloat\<close> are parameters.
  The locale \<open>exporter\<close> states how every strategy assembles its objects; both strategies are
  interpretations.
\<close>

section \<open>Constants and ports\<close>

definition defaultNetworkCIDR :: string where "defaultNetworkCIDR = ''10.0.0.0/24''"

definition defaultSpreadfactor :: string where "defaultSpreadfactor = ''0.2''"

definition collectorConfigKey :: string where "collectorConfigKey = ''config.json''"

definition collectorVolumeName :: string where "collectorVolumeName = ''lpm-collector-config''"

definition collectorMountedCfgName :: string where "collectorMountedCfgName = ''lpm-config.json''"

definition collectorMountPath :: string where "collectorMountPath = ''/etc/lpm/lpm-config.json''"

definition lpmImage :: string where "lpmImage = ''alexdecb/lpm:1.2.6''"

definition GenerateLPMPorts :: "environment \<Rightarrow> string list \<Rightarrow> string \<Rightarrow> string list" where
  "GenerateLPMPorts E nodes overlayProvider =
     map (\<lambda>n. of_port E n overlayProvider (dec_int (e_probe_id E))) nodes"

definition GenerateConfigmapName :: "string \<Rightarrow> string" where
  "GenerateConfigmapName rsName = rsName @ ''-config''"

section \<open>Options and their defaults\<close>

record collector_options =
  co_network_cidr :: "string option"
  co_ip_cidr :: "string option"
  co_ip_start :: "int option"
  co_spread_factor :: "string option"
  co_rtt :: "int option"
  co_throughput :: "int option"
  co_jitter :: "int option"
  co_image :: "string option"
  co_pull_policy :: "string option"
  co_name :: "string option"

definition no_options :: collector_options where
  "no_options = \<lparr>co_network_cidr = None, co_ip_cidr = None, co_ip_start = None,
     co_spread_factor = None, co_rtt = None, co_throughput = None, co_jitter = None,
     co_image = None, co_pull_policy = None, co_name = None\<rparr>"

text \<open>The two idioms: default for a nil pointer, default for a nil or empty string.\<close>

definition or_default :: "'a option \<Rightarrow> 'a \<Rightarrow> 'a" where
  "or_default x d = (case x of None \<Rightarrow> d | Some v \<Rightarrow> v)"

definition or_nonempty :: "string option \<Rightarrow> string \<Rightarrow> string" where
  "or_nonempty x d = (case x of None \<Rightarrow> d | Some v \<Rightarrow> if v = [] then d else v)"

section \<open>The collector\<close>

definition collector_container :: "collector_options \<Rightarrow> container" where
  "collector_container opts =
     (new_container (or_nonempty (co_name opts) ''lpm-collector'') (or_nonempty (co_image opts) lpmImage))
       \<lparr>ct_pull_policy := or_default (co_pull_policy opts) ''IfNotPresent'',
        ct_args := [''collector'', ''--config_file='' @ collectorMountPath],
        ct_ports := [(''lpm'', 8090)],
        ct_mounts := [\<lparr>vm_name = collectorVolumeName, vm_path = collectorMountPath,
          vm_sub_path = collectorMountedCfgName, vm_read_only = False\<rparr>]\<rparr>"

definition metric_for :: "collector_options \<Rightarrow> string \<Rightarrow> string \<Rightarrow> metric_configuration" where
  "metric_for opts name addr = \<lparr>mc_name = name, mc_ip = addr, mc_rtt = or_default (co_rtt opts) 10,
     mc_throughput = or_default (co_throughput opts) 20, mc_jitter = or_default (co_jitter opts) 5\<rparr>"

text \<open>\<open>nodeIP\<close>: for a node listed twice the last index wins.\<close>

definition node_ips :: "string list \<Rightarrow> string list \<Rightarrow> string \<rightharpoonup> string" where
  "node_ips nodes allocated = foldl (\<lambda>m (n, a). m(n \<mapsto> a)) Map.empty (zip nodes allocated)"

text \<open>Reading a missing key of a Go map gives the empty string.\<close>

definition ip_of :: "(string \<rightharpoonup> string) \<Rightarrow> string \<Rightarrow> string" where
  "ip_of m n = (case m n of None \<Rightarrow> [] | Some a \<Rightarrow> a)"

definition collector_node_config ::
  "environment \<Rightarrow> collector_options \<Rightarrow> string list \<Rightarrow> (string \<rightharpoonup> string) \<Rightarrow> string \<Rightarrow> 64 word \<Rightarrow> string \<Rightarrow> lpm_node_config" where
  "collector_node_config E opts nodes nodeIP msk sf node =
     \<lparr>lc_node = node, lc_address = ip_of nodeIP node @ msk,
      lc_probe = ProbeInterface E node OVERLAY_PROVIDER,
      lc_neighbours = map (\<lambda>other. metric_for opts other (ip_of nodeIP other)) (filter (\<lambda>other. other \<noteq> node) nodes),
      lc_spread = sf\<rparr>"

definition collector_config_map :: "overlay \<Rightarrow> string \<Rightarrow> string \<Rightarrow> config_map" where
  "collector_config_map ov node json =
     (let name = GenerateSwitchPodName (om_name (ov_meta ov)) node SlicePacketSwitch
      in \<lparr>cm_meta = (new_meta (GenerateConfigmapName (GenerateReplicaSetName name)) (om_namespace (ov_meta ov)))
            \<lparr>om_labels := Some [''app'' \<mapsto> ''l2sm'', ''overlay'' \<mapsto> om_name (ov_meta ov)]\<rparr>,
          cm_data = Some [collectorConfigKey \<mapsto> json]\<rparr>)"

text \<open>The loop over the nodes: it stops at the first configuration that cannot be encoded.\<close>

primrec collector_config_maps ::
  "environment \<Rightarrow> overlay \<Rightarrow> (string \<Rightarrow> lpm_node_config) \<Rightarrow> string list \<Rightarrow> err + config_map list" where
  "collector_config_maps E ov cfg [] = Inr []"
| "collector_config_maps E ov cfg (node # nodes) =
     (case e_node_config_json E (cfg node) of
        Inl e \<Rightarrow> Inl (Errorf ''marshal node config for %q: %w'' [node] (Some e))
      | Inr b \<Rightarrow> map_sum id (\<lambda>cms. collector_config_map ov node b # cms) (collector_config_maps E ov cfg nodes))"

definition BuildMonitoringCollectorResources ::
  "environment \<Rightarrow> overlay option \<Rightarrow> collector_options \<Rightarrow> (err + container \<times> config_map list) flow" where
  "BuildMonitoringCollectorResources E overlay opts =
     (case overlay of
        None \<Rightarrow> Val (Inl (errorf ''overlay is nil'' []))
      | Some ov \<Rightarrow> (case ov_topology ov of
          None \<Rightarrow> Panic
        | Some tp \<Rightarrow>
            (let nodes = tp_nodes tp;
                 cidr = or_nonempty (co_network_cidr opts) defaultNetworkCIDR;
                 start = or_default (co_ip_start opts) 2
             in if nodes = [] then Val (Inl (errorf ''overlay topology has no nodes'' []))
                else case AllocateIPv4s cidr start (int (length nodes)) of
                  Panic \<Rightarrow> Panic
                | Hang \<Rightarrow> Hang
                | Val (Inl e) \<Rightarrow> Val (Inl (Errorf ''monitoring CIDR allocation failed: %w'' [] (Some e)))
                | Val (Inr (allocated, msk)) \<Rightarrow>
                    (case e_parse_float E (or_nonempty (co_spread_factor opts) defaultSpreadfactor) of
                       None \<Rightarrow> Val (Inl (errorf ''spread factor not inputted as float64, please input correct field in crd.'' []))
                     | Some sf \<Rightarrow>
                         (let cfg = collector_node_config E opts nodes (node_ips nodes allocated) msk sf
                          in Val (map_sum id (\<lambda>cms. (collector_container opts, cms))
                               (collector_config_maps E ov cfg nodes)))))))"

text \<open>The same for a network edge device: a missing neighbour address is dereferenced.\<close>

primrec ned_neighbours :: "collector_options \<Rightarrow> neighbor_spec list \<Rightarrow> metric_configuration list flow" where
  "ned_neighbours opts [] = Val []"
| "ned_neighbours opts (nb # nbs) =
     (case nb_lpm_ip nb of
        None \<Rightarrow> Panic
      | Some a \<Rightarrow> (case ned_neighbours opts nbs of
          Val ms \<Rightarrow> Val (metric_for opts (nb_node nb) a # ms)
        | Panic \<Rightarrow> Panic
        | Hang \<Rightarrow> Hang))"

definition BuildNEDMonitoringResources ::
  "environment \<Rightarrow> network_edge_device option \<Rightarrow> collector_options \<Rightarrow> (err + container \<times> config_map list) flow" where
  "BuildNEDMonitoringResources E nedp opts =
     (case nedp of
        None \<Rightarrow> Val (Inl (errorf ''ned is nil'' []))
      | Some ned \<Rightarrow>
          if or_nonempty (co_ip_cidr opts) [] = [] then
            Val (Inl (errorf ''monitoring set, but no ip specified for ned probe interface'' []))
          else case e_parse_float E (or_nonempty (co_spread_factor opts) defaultSpreadfactor) of
            None \<Rightarrow> Val (Inl (errorf ''spread factor not inputted as float64, please input correct field in crd.'' []))
          | Some sf \<Rightarrow>
              (case ned_neighbours opts (ned_neighbors ned) of
                 Val conf \<Rightarrow>
                   (case (ned_node_config ned, ned_provider ned) of
                      (Some nc, Some p) \<Rightarrow>
                        (let name = GenerateSwitchPodName (om_name (ned_meta ned)) (nc_node nc) NetworkEdgeDevice;
                             cfg = \<lparr>lc_node = nc_node nc, lc_address = or_default (co_ip_cidr opts) [],
                               lc_probe = ProbeInterface E (nc_node nc) (pv_name p),
                               lc_neighbours = conf, lc_spread = sf\<rparr>
                         in case e_node_config_json E cfg of
                              Inl e \<Rightarrow> Val (Inl (Errorf ''marshal node config for ned %q: %w'' [om_name (ned_meta ned)] (Some e)))
                            | Inr b \<Rightarrow> Val (Inr (collector_container opts,
                                [\<lparr>cm_meta = (new_meta (GenerateConfigmapName (GenerateReplicaSetName name)) (om_namespace (ned_meta ned)))
                                   \<lparr>om_labels := Some [''app'' \<mapsto> ''l2sm'', ''ned'' \<mapsto> om_name (ned_meta ned)]\<rparr>,
                                 cm_data = Some [collectorConfigKey \<mapsto> b]\<rparr>])))
                    | _ \<Rightarrow> Panic)
               | Panic \<Rightarrow> Panic
               | Hang \<Rightarrow> Hang))"

section \<open>Patching the switch pods\<close>

definition lpm_mount :: volume_mount where
  "lpm_mount = \<lparr>vm_name = collectorVolumeName, vm_path = collectorMountPath,
     vm_sub_path = collectorMountedCfgName, vm_read_only = False\<rparr>"

text \<open>Only the first container called \<^verbatim>\<open>l2sm-switch\<close> is looked at.\<close>

primrec add_lpm_mount :: "container list \<Rightarrow> container list" where
  "add_lpm_mount [] = []"
| "add_lpm_mount (c # cs) =
     (if ct_name c \<noteq> ''l2sm-switch'' then c # add_lpm_mount cs
      else if list_ex (\<lambda>vm. vm_path vm = collectorMountPath) (ct_mounts c) then c # cs
      else c\<lparr>ct_args := ct_args c @ [''--monitor_file'', collectorMountPath],
             ct_mounts := ct_mounts c @ [lpm_mount]\<rparr> # cs)"

definition AddLPMConfigMapToSps :: "pod_spec \<Rightarrow> pod_spec" where
  "AddLPMConfigMapToSps ps = ps\<lparr>ps_containers := add_lpm_mount (ps_containers ps)\<rparr>"

primrec upsert_volume :: "volume \<Rightarrow> volume list \<Rightarrow> volume list" where
  "upsert_volume v [] = [v]"
| "upsert_volume v (w # ws) = (if vol_name w = vol_name v then v # ws else w # upsert_volume v ws)"

definition AttachCollectorConfigToReplicaSet :: "pod_spec option \<Rightarrow> string \<Rightarrow> err + pod_spec" where
  "AttachCollectorConfigToReplicaSet psp rsName =
     (case psp of
        None \<Rightarrow> Inl (errorf ''replicaset fields are empty, could not attach resource'' [])
      | Some ps \<Rightarrow>
          if rsName = [] then Inl (errorf ''replicaset fields are empty, could not attach resource'' [])
          else Inr (ps\<lparr>ps_volumes := upsert_volume
            \<lparr>vol_name = collectorVolumeName,
             vol_source = ConfigMapSource (GenerateConfigmapName rsName) [(collectorConfigKey, collectorMountedCfgName)]\<rparr>
            (ps_volumes ps)\<rparr>))"

section \<open>Exporters\<close>

text \<open>The targets slice is built with \<^verbatim>\<open>append\<close> on a nil one, so an empty list prints as null.\<close>

definition targets_json :: "string list \<Rightarrow> string" where
  "targets_json targets = (if targets = [] then ''null'' else print_json (JArr (map JStr targets)))"

definition nl :: string where "nl = [CHR 0x0A]"

definition quoted :: "string \<Rightarrow> string" where
  "quoted s = [CHR 0x27] @ s @ [CHR 0x27]"

definition prom_header :: string where
  "prom_header = ''global:'' @ nl @ ''  scrape_interval: 15s'' @ nl @
     ''  evaluation_interval: 15s'' @ nl @ ''scrape_configs:'' @ nl @
     ''  - job_name: '' @ quoted ''prometheus'' @ nl @
     ''    static_configs:'' @ nl @ ''      - targets: ''"

definition prom_config :: "string list \<Rightarrow> string" where
  "prom_config targets = prom_header @ targets_json targets"

definition prometheus_container :: container where
  "prometheus_container = (new_container ''prometheus'' ''prom/prometheus:v2.30.3'')
     \<lparr>ct_args := [''--config.file=/etc/prometheus/prometheus.yml'', ''--storage.tsdb.path=/prometheus''],
      ct_ports := [([], 9090)],
      ct_mounts := [\<lparr>vm_name = ''config-volume'', vm_path = ''/etc/prometheus'', vm_sub_path = [], vm_read_only = False\<rparr>,
                    \<lparr>vm_name = ''data-volume'', vm_path = ''/prometheus'', vm_sub_path = [], vm_read_only = False\<rparr>]\<rparr>"

definition exporter_config_map :: "string \<Rightarrow> string \<Rightarrow> string \<Rightarrow> string list \<Rightarrow> config_map" where
  "exporter_config_map ns appName cmName targets =
     \<lparr>cm_meta = (new_meta cmName ns)\<lparr>om_labels := Some [''app'' \<mapsto> appName]\<rparr>,
      cm_data = Some [''prometheus.yml'' \<mapsto> prom_config targets]\<rparr>"

definition exporter_deployment :: "string \<Rightarrow> string \<Rightarrow> string \<Rightarrow> string \<Rightarrow> container \<Rightarrow> workload" where
  "exporter_deployment ns appName cmName saName exporter =
     \<lparr>wl_meta = (new_meta appName ns)\<lparr>om_labels := Some [''app'' \<mapsto> appName]\<rparr>,
      wl_replicas = Some 1,
      wl_selector = Some [''app'' \<mapsto> appName],
      wl_labels = Some [''app'' \<mapsto> appName],
      wl_annotations = None,
      wl_pod = new_pod_spec
        \<lparr>ps_service_account := saName,
         ps_containers := [prometheus_container, exporter],
         ps_volumes := [\<lparr>vol_name = ''config-volume'', vol_source = ConfigMapSource cmName []\<rparr>,
                        \<lparr>vol_name = ''data-volume'', vol_source = EmptyDirSource\<rparr>]\<rparr>\<rparr>"

definition exporter_service :: "string \<Rightarrow> string \<Rightarrow> string \<Rightarrow> service" where
  "exporter_service ns name appName =
     \<lparr>svc_meta = (new_meta name ns)\<lparr>om_labels := Some [''app'' \<mapsto> appName]\<rparr>,
      svc_cluster_ip = [],
      svc_selector = Some [''app'' \<mapsto> appName],
      svc_ports = [([], ''TCP'', 9090)]\<rparr>"

type_synonym exporter_resources = "workload \<times> config_map \<times> service"

record swm_strategy =
  swm_namespace :: string
  swm_topology_namespace :: string

record regular_strategy =
  reg_namespace :: string

definition buildSWMExporterInternal ::
  "swm_strategy \<Rightarrow> string \<Rightarrow> string \<Rightarrow> string \<Rightarrow> string list \<Rightarrow> err + exporter_resources" where
  "buildSWMExporterInternal exp serviceAccount networkTopologyNamespace exporterName targets =
     (let ns = swm_namespace exp;
          appName = ''prometheus-lpm-network'';
          cmName = ''prometheus-config-'' @ exporterName;
          exporter = (new_container ''exporter'' lpmImage)
            \<lparr>ct_pull_policy := ''Always'', ct_args := [''exporter'', ''--target'', ''swm''],
             ct_env := [\<lparr>ev_name = ''TOPOLOGY_NAMESPACE'', ev_value = networkTopologyNamespace, ev_field_path = None\<rparr>]\<rparr>
      in Inr (exporter_deployment ns appName cmName serviceAccount exporter,
              exporter_config_map ns appName cmName targets,
              exporter_service ns ''prometheus-lpm-network'' appName))"

definition buildRegularExporterInternal ::
  "regular_strategy \<Rightarrow> string \<Rightarrow> string \<Rightarrow> string list \<Rightarrow> err + exporter_resources" where
  "buildRegularExporterInternal exp serviceAccount exporterName targets =
     (let ns = reg_namespace exp;
          appName = ''prometheus-'' @ exporterName;
          cmName = ''prometheus-config-'' @ exporterName;
          exporter = (new_container ''exporter'' lpmImage)
            \<lparr>ct_pull_policy := ''Always'', ct_args := [''exporter'']\<rparr>
      in Inr (exporter_deployment ns appName cmName serviceAccount exporter,
              exporter_config_map ns appName cmName targets,
              exporter_service ns appName appName))"

datatype exporter_strategy = SwmStrategy swm_strategy | RegularStrategy regular_strategy

definition SWM_METHOD :: string where "SWM_METHOD = ''codeco-swm''"

definition SWM_NT_NAMESPACE_OPTION :: string where "SWM_NT_NAMESPACE_OPTION = ''nt_namespace''"

definition NewExporter :: "string \<Rightarrow> string \<Rightarrow> gomap \<Rightarrow> exporter_strategy" where
  "NewExporter m ns options =
     (if m = SWM_METHOD then
        SwmStrategy \<lparr>swm_namespace = ns, swm_topology_namespace =
          (case map_get options SWM_NT_NAMESPACE_OPTION of None \<Rightarrow> [] | Some v \<Rightarrow> v)\<rparr>
      else RegularStrategy \<lparr>reg_namespace = ns\<rparr>)"

fun BuildResources :: "exporter_strategy \<Rightarrow> string \<Rightarrow> string list \<Rightarrow> err + exporter_resources" where
  "BuildResources (SwmStrategy s) saName targets =
     buildSWMExporterInternal s saName (swm_topology_namespace s) ''swm-lpm'' targets"
| "BuildResources (RegularStrategy s) saName targets =
     buildRegularExporterInternal s saName ''lpm'' targets"

section \<open>What every strategy builds\<close>

text \<open>
  The strategies share the three objects and differ in their names and in the exporter's container.
  \<open>exporter\<close> states that of a strategy; what the objects are together to Kubernetes and to Prometheus follows.
\<close>

definition mounts_config :: "workload \<Rightarrow> string \<Rightarrow> bool" where
  "mounts_config d cmName \<longleftrightarrow>
     (\<exists>v\<in>set (ps_volumes (wl_pod d)). vol_source v = ConfigMapSource cmName [] \<and>
        (\<exists>c\<in>set (ps_containers (wl_pod d)). \<exists>m\<in>set (ct_mounts c). vm_name m = vol_name v))"

text \<open>A container is started on a file of a directory where exactly this config map is mounted.\<close>

definition started_on :: "workload \<Rightarrow> string \<Rightarrow> string \<Rightarrow> bool" where
  "started_on d file cmName \<longleftrightarrow>
     (\<exists>c\<in>set (ps_containers (wl_pod d)). \<exists>m\<in>set (ct_mounts c). ''--config.file='' @ vm_path m @ ''/'' @ file \<in> set (ct_args c) \<and>
        map vol_source (filter (\<lambda>v. vol_name v = vm_name m) (ps_volumes (wl_pod d))) = [ConfigMapSource cmName []])"

lemma targets_json_parse:
  "json_parse (targets_json targets) = Some (if targets = [] then JNull else JArr (map (\<lambda>t. JStr (sanitize t)) targets))"
proof (cases "targets = []")
  case True
  have "json_parse ''null'' = Some JNull" by code_simp
  then show ?thesis using True by (simp add: targets_json_def)
next
  case False
  let ?v = "JArr (map JStr targets)"
  have "foldr max (map (json_depth \<circ> JStr) targets) 0 = 0" by (induction targets) simp_all
  then have "no_num ?v" "json_depth ?v \<le> max_depth" by (simp_all add: max_depth_def list_all_iff)
  from json_parse_print [OF this] show ?thesis using False by (simp add: targets_json_def comp_def)
qed

locale exporter =
  fixes build :: "string \<Rightarrow> string list \<Rightarrow> err + exporter_resources" and ns app name cm :: string and c :: container
  assumes assembled: "build sa targets = Inr (exporter_deployment ns app cm sa c, exporter_config_map ns app cm targets, exporter_service ns name app)"
begin

lemma namespaced:
  assumes "build sa targets = Inr (d, cfg, svc)"
  shows "om_namespace (wl_meta d) = ns" "om_namespace (cm_meta cfg) = ns" "om_namespace (svc_meta svc) = ns" "ps_service_account (wl_pod d) = sa"
  using assms unfolding assembled
  by (auto simp: exporter_deployment_def exporter_config_map_def exporter_service_def new_meta_def new_pod_spec_def)

lemma service_reaches_pods:
  assumes "build sa targets = Inr (d, cfg, svc)"
  shows "svc_selector svc = wl_labels d" "wl_selector d = wl_labels d" "wl_labels d \<noteq> None"
  using assms unfolding assembled by (auto simp: exporter_deployment_def exporter_service_def)

lemma reads_config:
  assumes "build sa targets = Inr (d, cfg, svc)"
  shows "mounts_config d (om_name (cm_meta cfg))" "started_on d ''prometheus.yml'' (om_name (cm_meta cfg))"
  using assms unfolding assembled
  by (auto simp: exporter_deployment_def exporter_config_map_def mounts_config_def started_on_def prometheus_container_def
      new_container_def new_meta_def new_pod_spec_def)

lemma scrapes_targets:
  assumes "build sa targets = Inr (d, cfg, svc)"
  shows "map_get (cm_data cfg) ''prometheus.yml'' = Some (prom_config targets)"
  using assms unfolding assembled by (auto simp: exporter_config_map_def)

lemma container: "build sa targets = Inr (d, cfg, svc) \<Longrightarrow> ps_containers (wl_pod d) = [prometheus_container, c]"
  unfolding assembled by (auto simp: exporter_deployment_def new_pod_spec_def)

end

interpretation swm: exporter "BuildResources (SwmStrategy s)" "swm_namespace s" "''prometheus-lpm-network''" "''prometheus-lpm-network''"
  "''prometheus-config-swm-lpm''" "(new_container ''exporter'' lpmImage)\<lparr>ct_pull_policy := ''Always'', ct_args := [''exporter'', ''--target'', ''swm''],
     ct_env := [\<lparr>ev_name = ''TOPOLOGY_NAMESPACE'', ev_value = swm_topology_namespace s, ev_field_path = None\<rparr>]\<rparr>" for s
  by unfold_locales (simp add: buildSWMExporterInternal_def Let_def)

interpretation regular: exporter "BuildResources (RegularStrategy s)" "reg_namespace s" "''prometheus-lpm''" "''prometheus-lpm''"
  "''prometheus-config-lpm''" "(new_container ''exporter'' lpmImage)\<lparr>ct_pull_policy := ''Always'', ct_args := [''exporter'']\<rparr>" for s
  by unfold_locales (simp add: buildRegularExporterInternal_def Let_def)

section \<open>Properties\<close>

lemma node_ips_nth:
  assumes "distinct nodes" "i < length nodes" "length allocated = length nodes"
  shows "node_ips nodes allocated (nodes ! i) = Some (allocated ! i)"
proof -
  have "foldl (\<lambda>m (n, a). m(n \<mapsto> a)) m ps = m ++ map_of (rev ps)" for m :: "string \<rightharpoonup> string" and ps
    by (induction ps arbitrary: m) (auto simp: map_add_def fun_eq_iff split: option.split)
  then have "node_ips nodes allocated = map_of (rev (zip nodes allocated))"
    by (simp add: node_ips_def)
  moreover have "distinct (map fst (rev (zip nodes allocated)))"
    using assms by (simp add: rev_map [symmetric])
  moreover have "(nodes ! i, allocated ! i) \<in> set (rev (zip nodes allocated))"
    using assms by (auto simp: set_zip)
  ultimately show ?thesis by simp
qed

lemma collector_config_maps_Inr:
  "collector_config_maps E ov cfg nodes = Inr cms \<Longrightarrow>
    length cms = length nodes \<and>
    (\<forall>i<length nodes. \<exists>b. e_node_config_json E (cfg (nodes ! i)) = Inr b \<and>
       cms ! i = collector_config_map ov (nodes ! i) b)"
proof (induction nodes arbitrary: cms)
  case (Cons n ns)
  then obtain b cms' where "e_node_config_json E (cfg n) = Inr b" "cms = collector_config_map ov n b # cms'"
    "collector_config_maps E ov cfg ns = Inr cms'"
    by (cases "collector_config_maps E ov cfg ns") (auto split: sum.splits)
  with Cons.IH show ?case by (auto simp: nth_Cons split: nat.split)
qed simp

lemma AllocateIPv4s_length:
  "AllocateIPv4s cidr start count = Val (Inr (ips, msk)) \<Longrightarrow> length ips = nat count"
  by (auto simp: AllocateIPv4s_def Let_def split: option.splits prod.splits if_splits sum.splits)

lemma zip_filter_map:
  assumes "length allocated = length nodes" "\<And>i. i < length nodes \<Longrightarrow> f (nodes ! i) = allocated ! i"
  shows "map (\<lambda>m. g m (f m)) (filter (\<lambda>m. m \<noteq> n) nodes) =
    map (\<lambda>(m, a). g m a) (filter (\<lambda>(m, a). m \<noteq> n) (zip nodes allocated))"
  using assms
proof (induction nodes allocated rule: list_induct2')
  case (4 x xs y ys)
  have "f x = y" using 4(3) [of 0] by simp
  moreover have "\<And>i. i < length xs \<Longrightarrow> f (xs ! i) = ys ! i" using 4(3) [of "Suc i" for i] by simp
  ultimately show ?case using 4 by simp
qed simp_all

text \<open>
  C30. The collectors form a full mesh: with distinct nodes there is one config map per node,
  in order; the \<open>i\<close>-th holds the encoded configuration whose address is the \<open>i\<close>-th
  allocated one with the mask, and whose neighbours are all the other nodes, each with the
  very address its own configuration has.
\<close>

theorem collector_full_mesh:
  assumes b: "BuildMonitoringCollectorResources E (Some ov) opts = Val (Inr (c, cms))"
    and tp: "ov_topology ov = Some tp" and d: "distinct (tp_nodes tp)"
  shows "\<exists>allocated msk sf.
    AllocateIPv4s (or_nonempty (co_network_cidr opts) defaultNetworkCIDR) (or_default (co_ip_start opts) 2)
      (int (length (tp_nodes tp))) = Val (Inr (allocated, msk)) \<and>
    length cms = length (tp_nodes tp) \<and>
    (\<forall>i<length (tp_nodes tp). \<exists>json. map_get (cm_data (cms ! i)) ''config.json'' = Some json \<and>
       e_node_config_json E
         \<lparr>lc_node = tp_nodes tp ! i, lc_address = allocated ! i @ msk,
          lc_probe = ProbeInterface E (tp_nodes tp ! i) OVERLAY_PROVIDER,
          lc_neighbours = map (\<lambda>(m, a). metric_for opts m a)
            (filter (\<lambda>(m, a). m \<noteq> tp_nodes tp ! i) (zip (tp_nodes tp) allocated)),
          lc_spread = sf\<rparr> = Inr json)"
proof -
  let ?nodes = "tp_nodes tp"
  obtain allocated msk sf where a: "AllocateIPv4s (or_nonempty (co_network_cidr opts) defaultNetworkCIDR)
      (or_default (co_ip_start opts) 2) (int (length ?nodes)) = Val (Inr (allocated, msk))"
    and cms: "collector_config_maps E ov (collector_node_config E opts ?nodes (node_ips ?nodes allocated) msk sf) ?nodes = Inr cms"
    using b tp by (auto simp: BuildMonitoringCollectorResources_def Let_def map_sum_def
        split: if_splits flow.splits sum.splits option.splits prod.splits)
  have len: "length allocated = length ?nodes" using AllocateIPv4s_length [OF a] by simp
  have ip: "ip_of (node_ips ?nodes allocated) (?nodes ! i) = allocated ! i" if "i < length ?nodes" for i
    using node_ips_nth [OF d that len] by (simp add: ip_of_def)
  have "\<exists>json. map_get (cm_data (cms ! i)) ''config.json'' = Some json \<and>
      e_node_config_json E
         \<lparr>lc_node = ?nodes ! i, lc_address = allocated ! i @ msk,
          lc_probe = ProbeInterface E (?nodes ! i) OVERLAY_PROVIDER,
          lc_neighbours = map (\<lambda>(m, a). metric_for opts m a)
            (filter (\<lambda>(m, a). m \<noteq> ?nodes ! i) (zip ?nodes allocated)),
          lc_spread = sf\<rparr> = Inr json" if i: "i < length ?nodes" for i
  proof -
    obtain json where j: "e_node_config_json E (collector_node_config E opts ?nodes (node_ips ?nodes allocated) msk sf (?nodes ! i)) = Inr json"
      "cms ! i = collector_config_map ov (?nodes ! i) json"
      using collector_config_maps_Inr [OF cms] i by blast
    have "map (\<lambda>m. metric_for opts m (ip_of (node_ips ?nodes allocated) m)) (filter (\<lambda>m. m \<noteq> ?nodes ! i) ?nodes) =
        map (\<lambda>(m, a). metric_for opts m a) (filter (\<lambda>(m, a). m \<noteq> ?nodes ! i) (zip ?nodes allocated))"
      by (rule zip_filter_map [OF len ip])
    then show ?thesis
      using j ip [OF i] by (simp add: collector_node_config_def collector_config_map_def collectorConfigKey_def Let_def)
  qed
  then show ?thesis using a collector_config_maps_Inr [OF cms] by blast
qed

definition sample_overlay :: overlay where
  "sample_overlay = \<lparr>ov_meta = new_meta ''overlay'' ''default'', ov_provider = None,
     ov_topology = Some \<lparr>tp_nodes = [''a'', ''b''], tp_links = []\<rparr>, ov_template = None,
     ov_interface_number = 2, ov_monitor = None\<rparr>"

theorem collector_full_mesh_witness:
  "\<exists>c cms. BuildMonitoringCollectorResources quiet_env (Some sample_overlay) no_options = Val (Inr (c, cms)) \<and>
     length cms = 2"
proof -
  have A: "AllocateIPv4s ''10.0.0.0/24'' 2 2 = Val (Inr ([''10.0.0.2'', ''10.0.0.3''], ''/24''))"
    by (simp add: AllocateIPv4s_def parse_cidr_lit mask_size_24 Let_def ipv4ToUint32_def
        uint32ToIPv4_def go_int_def make_strings_ok_def ip_eval)
  obtain c cms where r: "BuildMonitoringCollectorResources quiet_env (Some sample_overlay) no_options = Val (Inr (c, cms))"
    by (simp add: BuildMonitoringCollectorResources_def sample_overlay_def no_options_def or_nonempty_def
        or_default_def defaultNetworkCIDR_def A quiet_env_def Let_def)
  have "ov_topology sample_overlay = Some \<lparr>tp_nodes = [''a'', ''b''], tp_links = []\<rparr>"
    by (simp add: sample_overlay_def)
  then have "length cms = 2"
    using collector_full_mesh [OF r] by fastforce
  then show ?thesis using r by blast
qed

text \<open>
  Patching the switch containers with the collector's file is idempotent, touches only
  the first container called \<^verbatim>\<open>l2sm-switch\<close>, and leaves it with the file mounted: so the
  replica sets of an overlay, which share one slice of containers, end with one mount each.
\<close>

lemma add_lpm_mount_once:
  "add_lpm_mount (add_lpm_mount cs) = add_lpm_mount cs \<and>
   map ct_name (add_lpm_mount cs) = map ct_name cs \<and>
   ((\<exists>c\<in>set cs. ct_name c = ''l2sm-switch'') =
    (\<exists>c\<in>set (add_lpm_mount cs). ct_name c = ''l2sm-switch'' \<and>
       (\<exists>m\<in>set (ct_mounts c). vm_path m = ''/etc/lpm/lpm-config.json'')))"
proof (induction cs)
  case (Cons c cs)
  then show ?case
    by (auto simp: list_ex_iff lpm_mount_def collectorMountPath_def)
qed simp

text \<open>
  Attaching the collector's configuration replaces the volume of that name or adds it;
  every other volume stays, and attaching it again changes nothing.
\<close>

lemma attach_collector_volume:
  assumes "AttachCollectorConfigToReplicaSet (Some ps) rs = Inr ps'"
  shows "AttachCollectorConfigToReplicaSet (Some ps') rs = Inr ps' \<and>
    (\<exists>v\<in>set (ps_volumes ps'). vol_name v = ''lpm-collector-config'' \<and>
       vol_source v = ConfigMapSource (rs @ ''-config'') [(''config.json'', ''lpm-config.json'')]) \<and>
    filter (\<lambda>v. vol_name v \<noteq> ''lpm-collector-config'') (ps_volumes ps') =
    filter (\<lambda>v. vol_name v \<noteq> ''lpm-collector-config'') (ps_volumes ps)"
proof -
  have up: "upsert_volume v (upsert_volume v ws) = upsert_volume v ws" "v \<in> set (upsert_volume v ws)"
    "filter (\<lambda>w. vol_name w \<noteq> vol_name v) (upsert_volume v ws) = filter (\<lambda>w. vol_name w \<noteq> vol_name v) ws" for v ws
    by (induction ws) auto
  let ?v = "\<lparr>vol_name = ''lpm-collector-config'',
    vol_source = ConfigMapSource (rs @ ''-config'') [(''config.json'', ''lpm-config.json'')]\<rparr>"
  have ne: "rs \<noteq> []" and ps': "ps' = ps\<lparr>ps_volumes := upsert_volume ?v (ps_volumes ps)\<rparr>"
    using assms by (auto simp: AttachCollectorConfigToReplicaSet_def collectorVolumeName_def
        GenerateConfigmapName_def collectorConfigKey_def collectorMountedCfgName_def split: if_splits)
  have "AttachCollectorConfigToReplicaSet (Some ps') rs = Inr ps'"
    using ne by (simp add: AttachCollectorConfigToReplicaSet_def collectorVolumeName_def ps' up
        GenerateConfigmapName_def collectorConfigKey_def collectorMountedCfgName_def)
  moreover have "\<exists>v\<in>set (ps_volumes ps'). vol_name v = ''lpm-collector-config'' \<and>
       vol_source v = ConfigMapSource (rs @ ''-config'') [(''config.json'', ''lpm-config.json'')]"
    by (rule bexI [of _ ?v]) (simp_all add: ps' up)
  moreover have "filter (\<lambda>v. vol_name v \<noteq> ''lpm-collector-config'') (ps_volumes ps') =
    filter (\<lambda>v. vol_name v \<noteq> ''lpm-collector-config'') (ps_volumes ps)"
    using up(3) [of ?v "ps_volumes ps"] by (simp add: ps')
  ultimately show ?thesis by blast
qed

text \<open>What holds of the resources of both strategies, from the contract.\<close>

lemma exporter_parts:
  assumes "BuildResources (NewExporter method ns options) sa targets = Inr (d, cm, svc)"
  shows "om_namespace (wl_meta d) = ns" "om_namespace (cm_meta cm) = ns" "om_namespace (svc_meta svc) = ns" "ps_service_account (wl_pod d) = sa"
    "svc_selector svc = wl_labels d" "wl_selector d = wl_labels d" "wl_labels d \<noteq> None"
    "mounts_config d (om_name (cm_meta cm))" "started_on d ''prometheus.yml'' (om_name (cm_meta cm))"
    "map_get (cm_data cm) ''prometheus.yml'' = Some (prom_config targets)"
    "{v. \<exists>c\<in>set (ps_containers (wl_pod d)). v \<in> set (ct_env c)} = (if method = SWM_METHOD then
       {\<lparr>ev_name = ''TOPOLOGY_NAMESPACE'', ev_value = (case map_get options SWM_NT_NAMESPACE_OPTION of None \<Rightarrow> [] | Some v \<Rightarrow> v), ev_field_path = None\<rparr>} else {})"
proof -
  note env = prometheus_container_def new_container_def
  have "(\<exists>s. NewExporter method ns options = SwmStrategy s \<and> swm_namespace s = ns) \<or>
      (\<exists>s. NewExporter method ns options = RegularStrategy s \<and> reg_namespace s = ns)" by (simp add: NewExporter_def)
  then consider (swm) s where "NewExporter method ns options = SwmStrategy s" "swm_namespace s = ns"
    | (reg) s where "NewExporter method ns options = RegularStrategy s" "reg_namespace s = ns" by blast
  note strategy = this
  from strategy show "om_namespace (wl_meta d) = ns" "om_namespace (cm_meta cm) = ns" "om_namespace (svc_meta svc) = ns" "ps_service_account (wl_pod d) = sa"
    using assms swm.namespaced regular.namespaced by (cases; force)+
  from strategy show "svc_selector svc = wl_labels d" "wl_selector d = wl_labels d" "wl_labels d \<noteq> None"
    using assms swm.service_reaches_pods regular.service_reaches_pods by (cases; metis)+
  from strategy show "mounts_config d (om_name (cm_meta cm))" "started_on d ''prometheus.yml'' (om_name (cm_meta cm))"
    using assms swm.reads_config regular.reads_config by (cases; metis)+
  from strategy show "map_get (cm_data cm) ''prometheus.yml'' = Some (prom_config targets)"
    using assms swm.scrapes_targets regular.scrapes_targets by (cases; metis)
  from strategy show "{v. \<exists>c\<in>set (ps_containers (wl_pod d)). v \<in> set (ct_env c)} = (if method = SWM_METHOD then
       {\<lparr>ev_name = ''TOPOLOGY_NAMESPACE'', ev_value = (case map_get options SWM_NT_NAMESPACE_OPTION of None \<Rightarrow> [] | Some v \<Rightarrow> v), ev_field_path = None\<rparr>} else {})"
  proof cases
    case (swm s)
    then have "method = SWM_METHOD" "swm_topology_namespace s = (case map_get options SWM_NT_NAMESPACE_OPTION of None \<Rightarrow> [] | Some v \<Rightarrow> v)"
      by (cases s; auto simp: NewExporter_def split: if_splits)+
    then show ?thesis using swm.container [of s sa targets d cm svc] assms swm by (auto simp: env)
  next
    case (reg s)
    then have "method \<noteq> SWM_METHOD" by (auto simp: NewExporter_def split: if_splits)
    then show ?thesis using regular.container [of s sa targets d cm svc] assms reg by (simp add: env)
  qed
qed

lemma exporter_total: "\<exists>d cm svc. BuildResources (NewExporter method ns options) sa targets = Inr (d, cm, svc)"
  using swm.assembled regular.assembled by (cases "NewExporter method ns options") auto

lemma exporter_builds:
  "\<exists>d cm svc. BuildResources (NewExporter method ns options) sa targets = Inr (d, cm, svc) \<and>
     svc_selector svc = wl_labels d \<and> wl_selector d = wl_labels d \<and>
     mounts_config d (om_name (cm_meta cm)) \<and>
     map_get (cm_data cm) ''prometheus.yml'' = Some (prom_config targets)"
  using exporter_total exporter_parts(5,6,8,10) by metis

text \<open>
  C36. Whatever method is asked for, the exporter is built in the given namespace under the given service
  account, its service selects the pods of its deployment, and its Prometheus is started on a file of the
  directory where the config map built with it is mounted, whose text after \<^verbatim>\<open>targets:\<close> the JSON parser reads back as exactly the
  targets, in order (bytes that are not UTF-8 replaced; \<^verbatim>\<open>null\<close> when there are none). An exporter with
  the method of SWM, and no other, is told the namespace of the topology.
\<close>

theorem exporter_consistent:
  "\<exists>d cm svc json. BuildResources (NewExporter method ns options) sa targets = Inr (d, cm, svc) \<and>
     om_namespace (wl_meta d) = ns \<and> om_namespace (cm_meta cm) = ns \<and> om_namespace (svc_meta svc) = ns \<and>
     ps_service_account (wl_pod d) = sa \<and> svc_selector svc = wl_labels d \<and> wl_selector d = wl_labels d \<and> wl_labels d \<noteq> None \<and>
     started_on d ''prometheus.yml'' (om_name (cm_meta cm)) \<and>
     map_get (cm_data cm) ''prometheus.yml'' = Some (prom_header @ json) \<and>
     json_parse json = Some (if targets = [] then JNull else JArr (map (\<lambda>t. JStr (sanitize t)) targets)) \<and>
     {v. \<exists>c\<in>set (ps_containers (wl_pod d)). v \<in> set (ct_env c)} = (if method = SWM_METHOD then
       {\<lparr>ev_name = ''TOPOLOGY_NAMESPACE'', ev_value = (case map_get options SWM_NT_NAMESPACE_OPTION of None \<Rightarrow> [] | Some v \<Rightarrow> v), ev_field_path = None\<rparr>} else {})"
proof -
  obtain d cm svc where b: "BuildResources (NewExporter method ns options) sa targets = Inr (d, cm, svc)"
    using exporter_total by blast
  show ?thesis
    using b exporter_parts [OF b] targets_json_parse [of targets]
    by (intro exI [of _ d] exI [of _ cm] exI [of _ svc] exI [of _ "targets_json targets"]) (simp add: prom_config_def)
qed

end
