(* ===== verification/Monitoring.thy ===== *)
theory Monitoring
  imports SdnClient Lpm
begin

text \<open>
  \<^verbatim>\<open>internal/monitoringnetwork\<close>: the factory that opens SDN clients (\<^verbatim>\<open>factory.go\<close>) and the
  manager that creates and deletes the monitoring network of an overlay or an edge device
  (\<^verbatim>\<open>manager.go\<close>). The manager's lemmas are proved for any client that keeps the contract of
  SdnClient and used through the interpretation on the internal client.
\<close>

section \<open>Factory (factory.go)\<close>

record client_factory =
  cf_internal :: "(history, err + sdn_client) go"
  cf_for_provider :: "provider_spec option \<Rightarrow> (history, err + sdn_client) go"

definition internal_url :: "environment \<Rightarrow> string" where
  "internal_url E = ''http://'' @ GetControllerIP (e_os E) @ '':'' @ GetControllerPort (e_os E) @ ''/onos''"

definition DefaultFactory_Internal :: "environment \<Rightarrow> (history, err + sdn_client) go" where
  "DefaultFactory_Internal E = NewClient E InternalType (karaf_config (internal_url E))"

definition DefaultFactory_ForProvider ::
  "environment \<Rightarrow> provider_spec option \<Rightarrow> (history, err + sdn_client) go" where
  "DefaultFactory_ForProvider E provider =
     (case provider of
        None \<Rightarrow> ret (Inl (errorf ''provider is nil'' []))
      | Some p \<Rightarrow>
          if pv_domain p = [] \<or> hd (pv_domain p) = [] then
            ret (Inl (errorf ''provider %q has no domain configured'' [pv_name p]))
          else NewClient E InternalType (karaf_config (''http://'' @ hd (pv_domain p) @ '':'' @
            DefaultIfEmpty (pv_sdn_port p) ''30808'' @ ''/onos'')))"

definition DefaultClientFactory :: "environment \<Rightarrow> client_factory" where
  "DefaultClientFactory E = \<lparr>cf_internal = DefaultFactory_Internal E,
     cf_for_provider = DefaultFactory_ForProvider E\<rparr>"

section \<open>Manager (manager.go)\<close>

record manager =
  mg_client :: "sdn_client option"

definition Ensure ::
  "environment \<Rightarrow> manager \<Rightarrow> string \<Rightarrow> string \<Rightarrow> string list \<Rightarrow> (history, err option) go" where
  "Ensure E m name providerName nodes =
     (case mg_client m of
        None \<Rightarrow> ret (Some (errorf ''monitoring network client is nil'' []))
      | Some c \<Rightarrow>
          (let lpmNetName = GenerateLPMNetworkName name
           in gbind (cl_create c NetworkTypeVnet (payload lpmNetName [])) (\<lambda>err. case err of
                Some e \<Rightarrow> ret (Some (Errorf ''create monitoring network %q: %w'' [lpmNetName] (Some e)))
              | None \<Rightarrow>
                  (let lpmPorts = GenerateLPMPorts E nodes providerName
                   in if lpmPorts = [] then ret None
                      else gbind (cl_attach c NetworkTypeVnet (payload lpmNetName lpmPorts)) (\<lambda>err. case err of
                          Some e \<Rightarrow> ret (Some (Errorf ''attach monitoring ports to network %q: %w'' [lpmNetName] (Some e)))
                        | None \<Rightarrow> ret None)))))"

definition DeleteMonitoring :: "manager \<Rightarrow> string \<Rightarrow> (history, err option) go" where
  "DeleteMonitoring m name =
     (case mg_client m of
        None \<Rightarrow> ret (Some (errorf ''monitoring network client is nil'' []))
      | Some c \<Rightarrow>
          (let lpmNetName = GenerateLPMNetworkName name
           in gbind (cl_delete c NetworkTypeVnet lpmNetName) (\<lambda>err. case err of
                Some e \<Rightarrow> ret (Some (Errorf ''delete monitoring network %q: %w'' [lpmNetName] (Some e)))
              | None \<Rightarrow> ret None)))"

section \<open>The manager over any client that keeps the contract\<close>

context sdn_port_client
begin

lemma Ensure_done:
  assumes "Ensure E \<lparr>mg_client = Some c\<rparr> name provider nodes h = (Val None, h')"
  shows "\<exists>x. accepted x \<and>
    (if nodes = [] then h' = create_request (payload (GenerateLPMNetworkName name) []) (Inr x) # h
     else \<exists>y. accepted y \<and>
       h' = attach_request (payload (GenerateLPMNetworkName name) (GenerateLPMPorts E nodes provider)) (Inr y) #
         create_request (payload (GenerateLPMNetworkName name) []) (Inr x) # h)"
proof -
  let ?n = "GenerateLPMNetworkName name" and ?ps = "GenerateLPMPorts E nodes provider"
  have "wp (Ensure E \<lparr>mg_client = Some c\<rparr> name provider nodes) (\<lambda>r h'. r = Val None \<longrightarrow>
     (\<exists>x. accepted x \<and>
       (if nodes = [] then h' = create_request (payload ?n []) (Inr x) # h
        else \<exists>y. accepted y \<and> h' = attach_request (payload ?n ?ps) (Inr y) #
          create_request (payload ?n []) (Inr x) # h))) h"
    unfolding Ensure_def Let_def manager.simps option.case
    by (rule wp_gbind [THEN iffD2], rule create.wp_op)
      (auto simp: wp_simps GenerateLPMPorts_def intro!: attach.wp_op, blast)
  from wpD [OF this assms] show ?thesis by simp
qed

lemma Ensure_create_refused:
  assumes "cl_create c NetworkTypeVnet (payload (GenerateLPMNetworkName name) []) h = (Val (Some e), h1)"
  shows "Ensure E \<lparr>mg_client = Some c\<rparr> name provider nodes h =
    (Val (Some (Errorf ''create monitoring network %q: %w'' [GenerateLPMNetworkName name] (Some e))), h1)"
  by (simp add: Ensure_def Let_def gbind_def assms ret_def)

lemma Delete_done:
  assumes "DeleteMonitoring \<lparr>mg_client = Some c\<rparr> name h = (Val None, h')"
  shows "\<exists>x. accepted x \<and> h' = delete_request (GenerateLPMNetworkName name) (Inr x) # h"
proof -
  have "wp (DeleteMonitoring \<lparr>mg_client = Some c\<rparr> name) (\<lambda>r h'. r = Val None \<longrightarrow>
     (\<exists>x. accepted x \<and> h' = delete_request (GenerateLPMNetworkName name) (Inr x) # h)) h"
    unfolding DeleteMonitoring_def Let_def manager.simps option.case
    by (rule wp_gbind [THEN iffD2], rule delete.wp_op) (auto simp: wp_simps)
  from wpD [OF this assms] show ?thesis by simp
qed

end

section \<open>Properties\<close>

text \<open>
  C28. When \<open>Ensure\<close> succeeds with the internal client, the controller has accepted exactly
  one creation of the network \<^verbatim>\<open>lpm-<name>\<close> and, after it, one attachment of the probe ports of
  all the nodes (none when there are no nodes).
\<close>

theorem Ensure_creates_then_attaches:
  assumes "Ensure E \<lparr>mg_client = Some (InternalClient E s)\<rparr> name provider nodes h = (Val None, h')"
  shows "h' = (if nodes = [] then [] else
      [sent s ''POST'' ''/vnets/api/port''
         (payload_json (payload (''lpm-'' @ name) (GenerateLPMPorts E nodes provider))) (Inr 204)]) @
    [sent s ''POST'' ''/vnets/api'' (payload_json (payload (''lpm-'' @ name) [])) (Inr 204)] @ h"
  using internal.Ensure_done [OF assms] by (auto simp: GenerateLPMNetworkName_def split: if_splits)

theorem Ensure_creates_then_attaches_witness:
  "\<exists>h'. Ensure quiet_env \<lparr>mg_client = Some (InternalClient quiet_env (NewSessionClient ''http://sdn'' [] []))\<rparr>
     ''ov'' ''p'' [''a''] [] = (Val None, h') \<and> length h' = 2"
proof -
  let ?s = "NewSessionClient ''http://sdn'' [] []"
  have "\<exists>h'. Ensure quiet_env \<lparr>mg_client = Some (InternalClient quiet_env ?s)\<rparr> ''ov'' ''p'' [''a''] [] = (Val None, h')"
    by (simp add: Ensure_def Let_def InternalClient_def internal_CreateNetwork_def internal_AttachPodToNetwork_def
        Post_def newRequest_def quiet_env_def Do_def call_def gbind_def ret_def expect_status_def GenerateLPMPorts_def)
  then obtain h' where h': "Ensure quiet_env \<lparr>mg_client = Some (InternalClient quiet_env ?s)\<rparr> ''ov'' ''p'' [''a''] [] = (Val None, h')"
    by blast
  from Ensure_creates_then_attaches [OF h'] have "length h' = 2" by simp
  then show ?thesis using h' by blast
qed

text \<open>
  When the controller refuses to create the monitoring network, \<open>Ensure\<close> fails with the
  controller's error wrapped and attaches nothing: the creation is the only request.
\<close>

lemma Ensure_stops_when_refused:
  assumes "e_url_error E (sc_base_url s @ ''/vnets/api'') = None"
    and "e_http E h ''POST'' (sc_base_url s @ ''/vnets/api'') (''Basic '' @ sc_auth_token s)
           (payload_json (payload (''lpm-'' @ name) [])) = Inr code" and "code \<noteq> 204"
  shows "Ensure E \<lparr>mg_client = Some (InternalClient E s)\<rparr> name provider nodes h =
    (Val (Some (Errorf ''create monitoring network %q: %w'' [''lpm-'' @ name]
        (Some (errorf ''failed to create network, status code: %d'' [dec code])))),
     sent s ''POST'' ''/vnets/api'' (payload_json (payload (''lpm-'' @ name) [])) (Inr code) # h)"
proof -
  have "cl_create (InternalClient E s) NetworkTypeVnet (payload (GenerateLPMNetworkName name) []) h =
      (Val (Some (errorf ''failed to create network, status code: %d'' [dec code])),
       sent s ''POST'' ''/vnets/api'' (payload_json (payload (''lpm-'' @ name) [])) (Inr code) # h)"
    using assms by (simp add: InternalClient_def internal_CreateNetwork_def Post_def newRequest_def
        Do_def call_def gbind_def ret_def expect_status_def sent_def GenerateLPMNetworkName_def)
  from internal.Ensure_create_refused [OF this] show ?thesis by (simp add: GenerateLPMNetworkName_def)
qed

end
