(* ===== verification/Dns.thy ===== *)
theory Dns
  imports Cluster Utils
begin

text \<open>
  \<^verbatim>\<open>internal/dnsinterface\<close>: the DNS gRPC service of a provider (\<^verbatim>\<open>dnsinterface.go\<close>) and the
  CoreDNS config map of the cluster (\<^verbatim>\<open>corednsinterface.go\<close>), which the package
  \<^verbatim>\<open>l2sm-dns\<close> edits.
\<close>

record dns_client =
  dc_address :: string
  dc_scope :: string

definition dns_add :: "environment \<Rightarrow> string \<Rightarrow> string \<times> string \<times> string \<times> string \<Rightarrow> (history, err option) go" where
  "dns_add E addr entry = call (\<lambda>h. e_dns_add E h addr entry) (DnsAdd addr entry)"

definition AddDNSEntry :: "environment \<Rightarrow> dns_client \<Rightarrow> string \<Rightarrow> string \<Rightarrow> string \<Rightarrow> (history, err option) go" where
  "AddDNSEntry E client podName networkName ipAddress =
     (case e_dns_client E (dc_address client) of
        Some e \<Rightarrow> ret (Some (Errorf ''failed to connect to server at %s: %v'' [dc_address client] (Some e)))
      | None \<Rightarrow> gbind (dns_add E (dc_address client) (podName, ipAddress, dc_scope client, networkName))
          (\<lambda>r. ret (map_option (\<lambda>e. Errorf ''failed to add DNS entry: %v'' [] (Some e)) r)))"

definition core_dns :: "environment \<Rightarrow> string \<times> string \<Rightarrow> string \<times> string \<times> string \<Rightarrow> (history, err option) go" where
  "core_dns E cm entry = call (\<lambda>h. e_core_dns E h cm entry) (CoreDns cm entry)"

definition AddServerToLocalCoreDNS :: "environment \<Rightarrow> string \<Rightarrow> string \<Rightarrow> string \<Rightarrow> (history, err option) go" where
  "AddServerToLocalCoreDNS E networkName remoteServerDomain remoteServerPort =
     (let cm = (GetIntraConfigmapNamespace (e_os E), GetIntraConfigmapName (e_os E));
          domainName = networkName @ ''.inter.l2sm''
      in case e_dns_manager E cm of
           Some e \<Rightarrow> ret (Some (Errorf ''could not create DNS manager: %v'' [] (Some e)))
         | None \<Rightarrow> core_dns E cm (domainName, remoteServerDomain, remoteServerPort))"

lemma wp_dns_add [wp_simps]: "wp (dns_add E a x) Q h =
    Q (Val (e_dns_add E h a x)) (DnsAdd a x (e_dns_add E h a x) # h)"
  by (simp add: dns_add_def wp_call)

lemma wp_core_dns [wp_simps]: "wp (core_dns E a x) Q h =
    Q (Val (e_core_dns E h a x)) (CoreDns a x (e_core_dns E h a x) # h)"
  by (simp add: core_dns_def wp_call)

lemma emits_AddDNSEntry [emits_intros]:
  "(\<And>a x r. P (DnsAdd a x r)) \<Longrightarrow> emits P (AddDNSEntry E c p n i)"
  unfolding AddDNSEntry_def dns_add_def by (intro emits_intros emits_call)

lemma emits_AddServerToLocalCoreDNS [emits_intros]:
  "(\<And>a x r. P (CoreDns a x r)) \<Longrightarrow> emits P (AddServerToLocalCoreDNS E n d p)"
  unfolding AddServerToLocalCoreDNS_def core_dns_def Let_def by (intro emits_intros emits_call)

end
