(* ===== verification/PodUtils.thy ===== *)
theory PodUtils
  imports Talpa Dns Annotations AddressPool
begin

text \<open>
  \<^verbatim>\<open>internal/controller/pod_utils.go\<close> (\<^verbatim>\<open>GetNextAvailableIP\<close> is in AddressPool): looking up the
  networks a pod asks for, the free attachment definitions of a node, the annotation of a
  switch pod, and error events.
\<close>

definition ERROR_ANNOTATION :: string where "ERROR_ANNOTATION = ''l2sm/error''"

definition L2SM_PODNAME_LABEL :: string where "L2SM_PODNAME_LABEL = ''l2sm/app''"

section \<open>Annotations of a pod\<close>

definition pod_annotation :: "pod \<Rightarrow> string \<Rightarrow> string option" where
  "pod_annotation p k = map_get (om_annotations (pod_meta p)) k"

text \<open>\<^verbatim>\<open>pod.Annotations[k] = v\<close>.\<close>

definition set_annotation :: "string \<Rightarrow> string \<Rightarrow> pod \<Rightarrow> pod flow" where
  "set_annotation k v p = (case map_put (om_annotations (pod_meta p)) k v of
     Val m \<Rightarrow> Val (p\<lparr>pod_meta := (pod_meta p)\<lparr>om_annotations := m\<rparr>\<rparr>) | Panic \<Rightarrow> Panic | Hang \<Rightarrow> Hang)"

definition has_annotation :: "pod \<Rightarrow> string \<Rightarrow> bool" where
  "has_annotation p k \<longleftrightarrow> map_get (om_annotations (pod_meta p)) k \<noteq> None"

text \<open>\<^verbatim>\<open>pod.Annotations[k]\<close>: the empty string when there is none.\<close>

definition annotation_of :: "pod \<Rightarrow> string \<Rightarrow> string" where
  "annotation_of p k = (case map_get (om_annotations (pod_meta p)) k of Some v \<Rightarrow> v | None \<Rightarrow> [])"

lemma annotation_set: "set_annotation k v p = Val p' \<Longrightarrow> pod_annotation p' k' = (if k' = k then Some v else pod_annotation p k')"
  by (auto simp: set_annotation_def map_put_def pod_annotation_def split: flow.splits option.splits)

section \<open>Networks\<close>

text \<open>The lookup map: for two networks of one name (in two namespaces) the later one wins.\<close>

definition existing_networks :: "l2network list \<Rightarrow> string \<rightharpoonup> l2network" where
  "existing_networks items = foldl (\<lambda>m n. m(net_name n \<mapsto> n)) Map.empty items"

primrec collect_networks ::
  "(string \<rightharpoonup> l2network) \<Rightarrow> network_annotation list \<Rightarrow> l2network list \<times> err option" where
  "collect_networks existing [] = ([], None)"
| "collect_networks existing (n # ns) =
     (case existing (na_name n) of
        Some l2net \<Rightarrow> (let (rest, e) = collect_networks existing ns in (l2net # rest, e))
      | None \<Rightarrow> ([], Some (errorf ''network %s doesn't exist'' [na_name n])))"

definition GetL2Networks ::
  "environment \<Rightarrow> network_annotation list \<Rightarrow> (history, l2network list \<times> err option) go" where
  "GetL2Networks E networks =
     gbind (list_nets E None) (\<lambda>r. ret (case r of
       Inl e \<Rightarrow> ([], Some e)
     | Inr items \<Rightarrow> collect_networks (existing_networks items) networks))"

primrec collect_networks_map ::
  "(string \<rightharpoonup> l2network) \<Rightarrow> (string \<rightharpoonup> l2network) \<Rightarrow> network_annotation list \<Rightarrow> (string \<rightharpoonup> l2network) \<times> err option" where
  "collect_networks_map existing result [] = (result, None)"
| "collect_networks_map existing result (n # ns) =
     (case existing (na_name n) of
        Some l2net \<Rightarrow> collect_networks_map existing (result(na_name n \<mapsto> l2net)) ns
      | None \<Rightarrow> (result, Some (errorf ''network %s doesn't exist'' [na_name n])))"

definition GetL2NetworksMap ::
  "environment \<Rightarrow> network_annotation list \<Rightarrow> (history, (string \<rightharpoonup> l2network) \<times> err option) go" where
  "GetL2NetworksMap E networks =
     gbind (list_nets E None) (\<lambda>r. ret (case r of
       Inl e \<Rightarrow> (Map.empty, Some e)
     | Inr items \<Rightarrow> collect_networks_map (existing_networks items) Map.empty networks))"

section \<open>Attachment definitions\<close>

text \<open>
  The requirement for an invalid label key is nil and dereferenced; an error of the list
  call is dropped, leaving the list empty.
\<close>

definition GetFreeNetAttachDefs :: "environment \<Rightarrow> string \<Rightarrow> string \<Rightarrow> (history, nad list) go" where
  "GetFreeNetAttachDefs E switchesNamespace label =
     (if \<not> e_valid_label_key E label then gpanic
      else gbind (list_nads E switchesNamespace label) (\<lambda>r. ret (case r of Inl e \<Rightarrow> [] | Inr items \<Rightarrow> items)))"

definition DetachNetAttachDef :: "environment \<Rightarrow> network_annotation \<Rightarrow> string \<Rightarrow> (history, err option) go" where
  "DetachNetAttachDef E multusNetAttachDef namespace =
     gbind (get_nad E (namespace, na_name multusNetAttachDef)) (\<lambda>r. case r of
       Inl e \<Rightarrow> ret (Some e)
     | Inr n \<Rightarrow> delete_nad E n)"

text \<open>The label that marks a definition as used or free on a node.\<close>

definition nad_label :: "string \<Rightarrow> string" where
  "nad_label node = NET_ATTACH_LABEL_PREFIX @ node"

definition set_nad_label :: "string \<Rightarrow> string \<Rightarrow> nad \<Rightarrow> nad flow" where
  "set_nad_label label v n = (case map_put (om_labels (nad_meta n)) label v of
     Val m \<Rightarrow> Val (n\<lparr>nad_meta := (nad_meta n)\<lparr>om_labels := m\<rparr>\<rparr>) | Panic \<Rightarrow> Panic | Hang \<Rightarrow> Hang)"

definition set_nad_label_alloc :: "string \<Rightarrow> string \<Rightarrow> nad \<Rightarrow> nad" where
  "set_nad_label_alloc label v n =
     n\<lparr>nad_meta := (nad_meta n)\<lparr>om_labels := map_put_alloc (om_labels (nad_meta n)) label v\<rparr>\<rparr>"

section \<open>The annotation of a switch pod\<close>

definition Generate4byteChunk :: "environment \<Rightarrow> (history, string) go" where
  "Generate4byteChunk E = gbind (rand64 E) (\<lambda>r. ret (pad0 4 (hex (unat (r AND 0xFFFF)))))"

definition annotation_text :: "environment \<Rightarrow> string \<Rightarrow> string \<Rightarrow> nat \<Rightarrow> string \<Rightarrow> string" where
  "annotation_text E overlayName nodeName i chunk =
     ''{'' @ [CHR 0x22] @ ''name'' @ [CHR 0x22] @ '': '' @ [CHR 0x22] @ overlayName @ ''-veth'' @ dec i @ [CHR 0x22] @
     '', '' @ [CHR 0x22] @ ''ips'' @ [CHR 0x22] @ '': ['' @ [CHR 0x22] @ ''fe80::58d0:b8ff:fe'' @ pad0 2 (dec i) @ '':'' @ chunk @
     ''/64'' @ [CHR 0x22] @ ''], '' @ [CHR 0x22] @ ''interface'' @ [CHR 0x22] @ '':'' @ [CHR 0x22] @
     GetIfName E nodeName OVERLAY_PROVIDER (int i) @ [CHR 0x22] @ ''}''"

definition GenerateAnnotations ::
  "environment \<Rightarrow> string \<Rightarrow> string \<Rightarrow> string \<Rightarrow> int \<Rightarrow> (history, string) go" where
  "GenerateAnnotations E overlayName nodeName providerName ammount =
     gbind (gloop (\<lambda>i as. gbind (Generate4byteChunk E)
              (\<lambda>chunk. ret (Inr (as @ [annotation_text E overlayName nodeName i chunk]))))
            [1..<Suc (nat ammount)] [])
       (\<lambda>r. ret (case r of Inl (v :: unit) \<Rightarrow> [] | Inr annotations \<Rightarrow> ''['' @ join '','' annotations @ '']''))"

section \<open>Error events\<close>

text \<open>The pod's annotations are changed in memory; a failure to create the event is logged.\<close>

definition CreateErrorEvent :: "environment \<Rightarrow> pod \<Rightarrow> string \<Rightarrow> string \<Rightarrow> (history, pod) go" where
  "CreateErrorEvent E p message reason =
     (let m = pod_meta p;
          p' = p\<lparr>pod_meta := m\<lparr>om_annotations := map_put_alloc (om_annotations m) ERROR_ANNOTATION message\<rparr>\<rparr>
      in gbind (create_obj E (OEvent \<lparr>ke_generate_name = ''l2sm-'', ke_namespace = om_namespace m,
             ke_object = (''Pod'', om_name m, om_namespace m, om_uid m, om_version m),
             ke_reason = reason, ke_message = message, ke_type = ''Warning''\<rparr>))
           (\<lambda>_. ret p'))"

section \<open>Lemmas\<close>

lemma collect_networks_ok:
  "collect_networks existing ns = (xs, None) \<Longrightarrow>
    length xs = length ns \<and> (\<forall>i<length ns. existing (na_name (ns ! i)) = Some (xs ! i))"
proof (induction ns arbitrary: xs)
  case (Cons n ns)
  then show ?case
    by (auto simp: nth_Cons split: option.splits prod.splits nat.split)
qed simp

lemma existing_networks_name: "existing_networks items k = Some n \<Longrightarrow> n \<in> set items \<and> net_name n = k"
proof -
  have "foldl (\<lambda>m n. m(net_name n \<mapsto> n)) m0 items k = Some n \<Longrightarrow>
      (n \<in> set items \<and> net_name n = k) \<or> m0 k = Some n" for m0
    by (induction items arbitrary: m0) (simp, fastforce split: if_splits)
  then show "existing_networks items k = Some n \<Longrightarrow> n \<in> set items \<and> net_name n = k"
    by (fastforce simp: existing_networks_def)
qed

lemma nad_name_set_label [simp]: "set_nad_label l v n = Val n' \<Longrightarrow> nad_name n' = nad_name n"
  by (auto simp: set_nad_label_def split: flow.splits)

lemma emits_GetL2Networks [emits_intros]: "(\<And>r. P (ListedNets None r)) \<Longrightarrow> emits P (GetL2Networks E ns)"
  unfolding GetL2Networks_def by (intro emits_intros)

lemma emits_GetL2NetworksMap [emits_intros]: "(\<And>r. P (ListedNets None r)) \<Longrightarrow> emits P (GetL2NetworksMap E ns)"
  unfolding GetL2NetworksMap_def by (intro emits_intros)

lemma emits_GetFreeNetAttachDefs [emits_intros]:
  "(\<And>r. P (ListedNads ns l r)) \<Longrightarrow> emits P (GetFreeNetAttachDefs E ns l)"
  unfolding GetFreeNetAttachDefs_def by (intro emits_intros)

lemma emits_CreateErrorEvent [emits_intros]:
  "(\<And>x r. P (Created x r)) \<Longrightarrow> emits P (CreateErrorEvent E p m r)"
  unfolding CreateErrorEvent_def Let_def by (intro emits_intros)

lemma wp_GetL2Networks [wp_simps]: "wp (GetL2Networks E ns) Q h =
    (let r = e_list_nets E h None in
     Q (Val (case r of Inl e \<Rightarrow> ([], Some e) | Inr items \<Rightarrow> collect_networks (existing_networks items) ns))
       (ListedNets None r # h))"
  by (simp add: GetL2Networks_def wp_simps Let_def)

lemma wp_GetL2NetworksMap [wp_simps]: "wp (GetL2NetworksMap E ns) Q h =
    (let r = e_list_nets E h None in
     Q (Val (case r of Inl e \<Rightarrow> (Map.empty, Some e)
          | Inr items \<Rightarrow> collect_networks_map (existing_networks items) Map.empty ns))
       (ListedNets None r # h))"
  by (simp add: GetL2NetworksMap_def wp_simps Let_def)

lemma wp_GetFreeNetAttachDefs [wp_simps]: "wp (GetFreeNetAttachDefs E ns l) Q h =
    (if e_valid_label_key E l then
       Q (Val (case e_list_nads E h ns l of Inl e \<Rightarrow> [] | Inr items \<Rightarrow> items))
         (ListedNads ns l (e_list_nads E h ns l) # h)
     else Q Panic h)"
  by (simp add: GetFreeNetAttachDefs_def wp_simps)

lemma wp_CreateErrorEvent: "(\<And>x r p'. Q (Val p') (Created x r # h)) \<Longrightarrow> wp (CreateErrorEvent E p m re) Q h"
  by (simp add: CreateErrorEvent_def wp_simps Let_def)

section \<open>The annotation of a switch pod is JSON\<close>

lemma unescaped_hex: "is_hex_digit c \<Longrightarrow> unescaped c"
  by (auto simp: is_hex_digit_def hex_val_def unescaped_def Let_def split: if_splits)

lemma unescaped_dec: "is_dec_digit c \<Longrightarrow> unescaped c"
  by (auto simp: is_dec_digit_def digit_val_def unescaped_def Let_def split: if_splits)

lemma unescaped_numbers:
  "list_all unescaped (dec n)" "list_all unescaped (pad0 w (dec n))" "list_all unescaped (pad0 w (hex n))"
  by (auto simp: list_all_iff pad0_def unescaped_def [of "CHR ''0''"] intro: unescaped_dec dec_digits unescaped_hex hex_digits)

definition annotation_value :: "environment \<Rightarrow> string \<Rightarrow> string \<Rightarrow> nat \<Rightarrow> string \<Rightarrow> json" where
  "annotation_value E overlayName nodeName i chunk = JObj
     [(''name'', JStr (overlayName @ ''-veth'' @ dec i)),
      (''ips'', JArr [JStr (''fe80::58d0:b8ff:fe'' @ pad0 2 (dec i) @ '':'' @ chunk @ ''/64'')]),
      (''interface'', JStr (GetIfName E nodeName OVERLAY_PROVIDER (int i)))]"

lemma reads_annotation_text:
  assumes u: "list_all unescaped overlayName" "list_all unescaped (GetIfName E nodeName OVERLAY_PROVIDER (int i))"
    and c: "list_all unescaped chunk"
  shows "reads_as (annotation_text E overlayName nodeName i chunk) (annotation_value E overlayName nodeName i chunk)"
  unfolding reads_as_def
proof (intro allI impI)
  fix n d r
  let ?q = "\<lambda>s. CHR 0x22 # s @ [CHR 0x22]"
  define name ip port where v: "name = overlayName @ ''-veth'' @ dec i"
    "ip = ''fe80::58d0:b8ff:fe'' @ pad0 2 (dec i) @ '':'' @ chunk @ ''/64''" "port = GetIfName E nodeName OVERLAY_PROVIDER (int i)"
  let ?t3 = "CHR 0x22 # ''interface'' @ CHR 0x22 # CHR '':'' # [] @ ?q port @ CHR ''}'' # r"
  let ?t2 = "CHR 0x22 # ''ips'' @ CHR 0x22 # CHR '':'' # '' '' @ (''['' @ join '','' (map ?q [ip]) @ '']'') @ CHR '','' # '' '' @ ?t3"
  let ?t1 = "CHR 0x22 # ''name'' @ CHR 0x22 # CHR '':'' # '' '' @ ?q name @ CHR '','' # '' '' @ ?t2"
  have eq: "annotation_text E overlayName nodeName i chunk @ r = CHR ''{'' # ?t1"
    by (simp add: annotation_text_def v)
  assume "d + json_depth (annotation_value E overlayName nodeName i chunk) \<le> max_depth"
  then have d: "d + 2 \<le> max_depth" by (simp add: annotation_value_def)
  assume "2 * length (annotation_text E overlayName nodeName i chunk @ r) + 1 \<le> n"
  then have len: "2 * length ?t1 + 3 \<le> n" unfolding eq by simp
  define f where "f = n - 4"
  have n: "n = Suc (Suc (Suc (Suc f)))" and f: "2 * length ?t1 \<le> f + 1" using len by (simp_all add: f_def)
  have p3: "parse_members (Suc f) (Suc d) ?t3 = Some ([(''interface'', JStr port)], r)"
    using d f u(2) [folded v] by (subst parse_members_step [OF _ _ reads_string])
      (auto simp: is_ws_def unescaped_def sanitize_unescaped)
  have ws: "list_all is_ws '' ''" by (simp add: is_ws_def)
  have ip: "list_all unescaped ip" and name: "list_all unescaped name"
    by (simp_all add: unescaped_numbers u c v) (simp_all add: unescaped_def)
  have arr: "reads_as (''['' @ join '','' (map ?q [ip]) @ '']'') (JArr (map JStr [ip]))"
    using ip by (intro reads_array) (auto simp: is_ws_def intro: reads_string)
  have p2: "parse_members (Suc (Suc f)) (Suc d) ?t2 = Some ([(''ips'', JArr [JStr ip]), (''interface'', JStr port)], r)"
    using d f p3 ip by (subst parse_members_step [OF _ ws arr])
      (auto simp: is_ws_def unescaped_def sanitize_unescaped parse_members_ws [OF ws, simplified])
  have p1: "parse_members (Suc (Suc (Suc f))) (Suc d) ?t1 =
      Some ([(''name'', JStr name), (''ips'', JArr [JStr ip]), (''interface'', JStr port)], r)"
    using d f p2 name by (subst parse_members_step [OF _ ws reads_string [OF name]])
      (auto simp: is_ws_def unescaped_def sanitize_unescaped parse_members_ws [OF ws, simplified])
  have val: "annotation_value E overlayName nodeName i chunk =
      JObj [(''name'', JStr name), (''ips'', JArr [JStr ip]), (''interface'', JStr port)]"
    by (simp add: annotation_value_def v)
  have key: "sanitize ''interface'' = ''interface''" by (rule sanitize_ascii) simp
  show "parse_value n d (annotation_text E overlayName nodeName i chunk @ r) =
      Some (json_clean (annotation_value E overlayName nodeName i chunk), r)"
    unfolding eq n val
    using d p1 name ip u(2) [folded v] by (simp add: parse_value.simps(2) is_ws_def starts_with_def sanitize_unescaped key)
qed

lemma json_depth_annotations: "json_depth (JArr (map2 (annotation_value E ov node) is chunks)) \<le> 3"
proof -
  have "json_depth (annotation_value E ov node i c) = 2" for i c by (simp add: annotation_value_def)
  then have "foldr max (map json_depth (map2 (annotation_value E ov node) is chunks)) 0 \<le> 2"
    by (induction "is" chunks rule: list_induct2') auto
  then show ?thesis by simp
qed

lemma GenerateAnnotations_texts:
  assumes "GenerateAnnotations E ov node pv n h = (Val s, h')"
  shows "\<exists>chunks. length chunks = nat n \<and> list_all (list_all unescaped) chunks \<and>
    s = ''['' @ join '','' (map (\<lambda>(i, c). annotation_text E ov node i c) (zip [1..<Suc (nat n)] chunks)) @ '']''"
proof -
  let ?as = "\<lambda>ds chunks. map (\<lambda>(i, c). annotation_text E ov node i c) (zip ds chunks)"
  have ext: "\<exists>cs. length cs = Suc (length ds) \<and> list_all (list_all unescaped) cs \<and>
      ?as ds chunks @ [annotation_text E ov node i (pad0 4 (hex k))] = ?as (ds @ [i]) cs"
    if "length chunks = length ds" "list_all (list_all unescaped) chunks" for ds chunks i k
    using that unescaped_numbers(3) by (intro exI [of _ "chunks @ [pad0 4 (hex k)]"]) simp
  have "wp (gloop (\<lambda>i as. gbind (Generate4byteChunk E) (\<lambda>chunk. ret (Inr (as @ [annotation_text E ov node i chunk])))) [1..<Suc (nat n)] [])
      (\<lambda>r h'. \<exists>chunks. length chunks = nat n \<and> list_all (list_all unescaped) chunks \<and>
         r = Val (Inr (?as [1..<Suc (nat n)] chunks) :: unit + string list)) h"
    by (rule wp_gloop [where I = "\<lambda>ds as w. \<exists>chunks. length chunks = length ds \<and> list_all (list_all unescaped) chunks \<and> as = ?as ds chunks"])
      (auto simp: Generate4byteChunk_def wp_simps intro: ext)
  then have "wp (GenerateAnnotations E ov node pv n) (\<lambda>r h'. \<forall>s. r = Val s \<longrightarrow>
      (\<exists>chunks. length chunks = nat n \<and> list_all (list_all unescaped) chunks \<and>
         s = ''['' @ join '','' (?as [1..<Suc (nat n)] chunks) @ '']'')) h"
    unfolding GenerateAnnotations_def wp_gbind by (rule wp_mono) (auto simp: wp_ret)
  from wpD [OF this assms] show ?thesis by simp
qed

text \<open>What the pod controller's own reader makes of the annotation: the names, in order.\<close>

lemma ExtractNetworks_GenerateAnnotations:
  assumes "GenerateAnnotations E ov node pv n h = (Val s, h')"
    and u: "list_all unescaped ov" "\<forall>i. list_all unescaped (GetIfName E node OVERLAY_PROVIDER i)"
  shows "\<exists>as. ExtractNetworks s ns = Inr as \<and> map na_name as = map (\<lambda>i. ov @ ''-veth'' @ dec i) [1..<Suc (nat n)] \<and>
    (\<forall>a\<in>set as. length (na_ips a) = 1)"
proof -
  obtain chunks where c: "length chunks = nat n" "list_all (list_all unescaped) chunks"
    "s = ''['' @ join '','' (map (\<lambda>(i, c). annotation_text E ov node i c) (zip [1..<Suc (nat n)] chunks)) @ '']''"
    using GenerateAnnotations_texts [OF assms(1)] by blast
  let ?v = "JArr (map (\<lambda>(i, c). annotation_value E ov node i c) (zip [1..<Suc (nat n)] chunks))"
  have "reads_as s ?v" unfolding c(3)
    using c(2) u by (intro reads_array) (auto simp: list_all_iff annotation_text_def is_ws_def dest!: set_zip_rightD
      intro!: reads_annotation_text [unfolded list_all_iff])
  moreover have "json_depth ?v \<le> max_depth"
    using json_depth_annotations [of E ov node "[1..<Suc (nat n)]" chunks] by (simp add: max_depth_def)
  ultimately have "json_parse s = Some (json_clean ?v)" by (rule json_parse_reads)
  moreover have "\<exists>ip. decode_annotation (json_clean (annotation_value E ov node i c)) =
      (new_annotation\<lparr>na_name := ov @ ''-veth'' @ dec i, na_ips := [ip]\<rparr>, False)" for i c
  proof -
    have "fold_name ''interface'' = ''INTERFACE''" "sanitize ''interface'' = ''interface''"
      by (simp add: fold_name.simps starts_with_def upper_ascii_def char_of_def bit_0, rule sanitize_ascii, simp)
    moreover have "sanitize (ov @ ''-veth'' @ dec i) = ov @ ''-veth'' @ dec i"
      by (rule sanitize_unescaped) (simp add: u unescaped_numbers, simp add: unescaped_def)
    ultimately show ?thesis
      by (simp add: annotation_value_def decode_annotation_def decode_field_def decode_string_def decode_slice_def, blast)
  qed
  then obtain ip where "\<And>i c. decode_annotation (json_clean (annotation_value E ov node i c)) =
      (new_annotation\<lparr>na_name := ov @ ''-veth'' @ dec i, na_ips := [ip i c]\<rparr>, False)" by metis
  ultimately have "decode_networks s = (map (\<lambda>(i, c). new_annotation\<lparr>na_name := ov @ ''-veth'' @ dec i, na_ips := [ip i c]\<rparr>)
      (zip [1..<Suc (nat n)] chunks), False)"
    by (auto simp: decode_networks_def list_ex_iff)
  moreover have "map fst (zip [1..<Suc (nat n)] chunks) = [1..<Suc (nat n)]" using c(1) by simp
  then have "map (\<lambda>i. ov @ ''-veth'' @ dec i) [1..<Suc (nat n)] = map ((\<lambda>i. ov @ ''-veth'' @ dec i) \<circ> fst) (zip [1..<Suc (nat n)] chunks)"
    by (simp flip: map_map)
  ultimately show ?thesis by (auto simp: ExtractNetworks_def Let_def)
qed

end
