(* ===== verification/PodWebhook.thy ===== *)
theory PodWebhook
  imports PodUtils
begin

text \<open>
  \<^verbatim>\<open>internal/controller/pod_webhook.go\<close>: the mutating webhook that gives a pod one free
  attachment definition and an address per network. A Go map held in a copied struct is
  shared with the original, so an assignment to a network's \<^verbatim>\<open>AssignedIPs\<close> is seen by a later
  annotation for the same network (when the map was not nil), while the other fields of the
  copy are lost; the loop state carries the network map for that reason.
\<close>

section \<open>Responses\<close>

datatype response = Allowed string | Errored nat err | Patched pod

record pod_annotator =
  pa_namespace :: string

definition patchErrorPod :: "pod \<Rightarrow> string \<Rightarrow> response flow" where
  "patchErrorPod p errorMessage = (case set_annotation ERROR_ANNOTATION errorMessage p of
     Val p' \<Rightarrow> Val (Patched p') | Panic \<Rightarrow> Panic | Hang \<Rightarrow> Hang)"

section \<open>One annotation\<close>

definition zero_network :: l2network where
  "zero_network = \<lparr>net_meta = new_meta [] [],
     net_spec = \<lparr>ns_type = [], ns_config = None, ns_provider = None, ns_network_cidr = [],
       ns_pod_address_range = [], ns_ids = None\<rparr>,
     net_status = \<lparr>st_connected_pods = 0, st_last_assigned_ip = [], st_assigned_ips = None,
       st_internal = None, st_provider = None\<rparr>\<rparr>"

text \<open>
  The address of an interface: what the user asked for, the next one of the network's
  range, or nothing. An invalid \<^verbatim>\<open>NetworkCIDR\<close> is dereferenced before its error is looked at;
  a failed allocation leaves the empty address.
\<close>

definition assign_address :: "network_annotation \<Rightarrow> l2network \<Rightarrow> (string list \<times> l2network) flow" where
  "assign_address l2NetAnnot network =
     (let spec = net_spec network; st = net_status network
      in if na_ips l2NetAnnot \<noteq> [] then Val (na_ips l2NetAnnot, network)
         else if ns_network_cidr spec = [] then Val ([], network)
         else case parse_cidr (ns_network_cidr spec) of
           None \<Rightarrow> Panic
         | Some (_, ipNet) \<Rightarrow>
             (let subnetMask = ''/'' @ dec (fst (mask_size (net_mask ipNet)));
                  addressRange = (if ns_pod_address_range spec = [] then ns_network_cidr spec
                                  else ns_pod_address_range spec)
              in case GetNextAvailableIP addressRange (st_last_assigned_ip st) (st_assigned_ips st) of
                   Panic \<Rightarrow> Panic
                 | Hang \<Rightarrow> Hang
                 | Val r \<Rightarrow>
                     (let nextIP = (case r of Inl e \<Rightarrow> [] | Inr (ip, _) \<Rightarrow> ip)
                      in Val ([nextIP @ subnetMask],
                        network\<lparr>net_status := st\<lparr>st_last_assigned_ip := nextIP\<rparr>\<rparr>))))"

text \<open>\<^verbatim>\<open>ip.String()\<close> of the parsed address; a nil one prints as \<open><nil>\<close>.\<close>

definition assigned_key :: "string \<Rightarrow> string" where
  "assigned_key cidr = (case parse_cidr cidr of Some (ip, _) \<Rightarrow> ip_string ip | None \<Rightarrow> ''<nil>'')"

definition record_address :: "string \<Rightarrow> string \<Rightarrow> l2network \<Rightarrow> l2network" where
  "record_address addr podName network =
     network\<lparr>net_status := (net_status network)
       \<lparr>st_assigned_ips := map_put_alloc (st_assigned_ips (net_status network)) (assigned_key addr) podName\<rparr>\<rparr>"

text \<open>What later annotations see of the network: only a map that was shared.\<close>

definition share_assigned :: "(string \<rightharpoonup> l2network) \<Rightarrow> string \<Rightarrow> gomap \<Rightarrow> (string \<rightharpoonup> l2network)" where
  "share_assigned nets name m = (case nets name of
     None \<Rightarrow> nets
   | Some n \<Rightarrow> if st_assigned_ips (net_status n) = None then nets
       else nets(name \<mapsto> n\<lparr>net_status := (net_status n)\<lparr>st_assigned_ips := m\<rparr>\<rparr>))"

type_synonym webhook_state = "(string \<rightharpoonup> l2network) \<times> network_annotation list"

text \<open>The interface of the annotation: the assigned addresses, or a link-local one.\<close>

definition interface_address ::
  "environment \<Rightarrow> string \<Rightarrow> network_annotation \<Rightarrow> string list \<Rightarrow> l2network \<Rightarrow> (history, network_annotation \<times> l2network) go" where
  "interface_address E podName multusAnnotation assignIPAddr network =
     (case assignIPAddr of
        [] \<Rightarrow> gbind (rand64 E) (\<lambda>r. ret (GenerateIPv6Address r multusAnnotation, network))
      | a # _ \<Rightarrow> ret (multusAnnotation\<lparr>na_ips := assignIPAddr\<rparr>, record_address a podName network))"

definition add_pod :: "l2network \<Rightarrow> l2network" where
  "add_pod network = network\<lparr>net_status := (net_status network)
     \<lparr>st_connected_pods := st_connected_pods (net_status network) + 1\<rparr>\<rparr>"

text \<open>Marking the definition as used, and storing both objects: errors are only logged.\<close>

definition store_assignment :: "environment \<Rightarrow> string \<Rightarrow> nad \<Rightarrow> l2network \<Rightarrow> (history, unit) go" where
  "store_assignment E label netAttachDef network =
     gbind (glift (set_nad_label label ''true'' netAttachDef)) (\<lambda>n.
     gbind (update_nad E n) (\<lambda>_.
     gbind (update_net_status E network) (\<lambda>_. ret ())))"

definition annotate_network ::
  "environment \<Rightarrow> string \<Rightarrow> string \<Rightarrow> string \<Rightarrow> nad list \<Rightarrow> nat \<times> network_annotation \<Rightarrow> webhook_state \<Rightarrow>
     (history, response + webhook_state) go" where
  "annotate_network E namespace label podName nads indexed state =
     (let (index, l2NetAnnot) = indexed; (networks, multusAnnotations) = state;
          name = na_name l2NetAnnot;
          network = (case networks name of Some n \<Rightarrow> n | None \<Rightarrow> zero_network)
      in gbind (glift (nth_go nads index)) (\<lambda>netAttachDef.
         gbind (glift (assign_address l2NetAnnot network)) (\<lambda>(assignIPAddr, network1).
         gbind (interface_address E podName
                  (new_annotation\<lparr>na_name := nad_name netAttachDef, na_namespace := namespace\<rparr>) assignIPAddr network1)
           (\<lambda>(multusAnnotation, network2).
         gbind (store_assignment E label netAttachDef (add_pod network2)) (\<lambda>_.
         ret (Inr (share_assigned networks name (st_assigned_ips (net_status network2)),
                   multusAnnotations @ [multusAnnotation])))))))"

section \<open>The handler\<close>

text \<open>The node the pod will run on: its own, or a random one of the cluster.\<close>

definition select_node :: "environment \<Rightarrow> pod \<Rightarrow> (history, response + pod) go" where
  "select_node E p =
     (if pod_node p \<noteq> [] then ret (Inr p)
      else gbind (list_nodes E) (\<lambda>r. case r of
          Inl e \<Rightarrow> ret (Inl (Errored 500 e))
        | Inr items \<Rightarrow>
            if items = [] then ret (Inl (Errored 500 (errorf ''no available nodes'' [])))
            else gbind (rand_below E (length items)) (\<lambda>i.
              gbind (glift (nth_go items i)) (\<lambda>n. ret (Inr (p\<lparr>pod_node := om_name (node_meta n)\<rparr>))))))"

definition attach_networks :: "environment \<Rightarrow> pod_annotator \<Rightarrow> pod \<Rightarrow> string \<Rightarrow> (history, response) go" where
  "attach_networks E a p annot =
     (let namespace = pa_namespace a; label = nad_label (pod_node p)
      in case ExtractNetworks annot namespace of
           Inl e \<Rightarrow> ret (Errored 500 e)
         | Inr l2NetAnnotations \<Rightarrow>
             gbind (GetL2NetworksMap E l2NetAnnotations) (\<lambda>(networkResources, _).
             gbind (GetFreeNetAttachDefs E namespace label) (\<lambda>nads.
               if length nads < length l2NetAnnotations then
                 glift (patchErrorPod p (''No interfaces available for node '' @ pod_node p))
               else
                 gbind (gloop (annotate_network E namespace label (om_name (pod_meta p)) nads)
                          (enumerate 0 l2NetAnnotations) (networkResources, []))
                   (\<lambda>r. case r of
                      Inl resp \<Rightarrow> ret resp
                    | Inr (_, multusAnnotations) \<Rightarrow>
                        gbind (glift (set_annotation MULTUS_ANNOTATION_KEY
                            (MultusAnnotationToString multusAnnotations) p))
                          (\<lambda>p'. ret (Patched p'))))))"

text \<open>The argument is the decoded request.\<close>

definition Handle :: "environment \<Rightarrow> pod_annotator \<Rightarrow> err + pod \<Rightarrow> (history, response) go" where
  "Handle E a req =
     (case req of
        Inl e \<Rightarrow> ret (Errored 400 e)
      | Inr p \<Rightarrow>
          if om_deleted (pod_meta p) then ret (Allowed (''Allowing pod'' @ [CHR 0x27] @ ''s deletion''))
          else gbind (select_node E p) (\<lambda>r. case r of
            Inl resp \<Rightarrow> ret resp
          | Inr p \<Rightarrow>
              if pod_annotation p ERROR_ANNOTATION \<noteq> None then ret (Allowed ''Already errored creation'')
              else (case pod_annotation p L2SM_NETWORK_ANNOTATION of
                None \<Rightarrow> ret (Allowed ''Pod not using l2sm networks'')
              | Some annot \<Rightarrow>
                  if pod_annotation p MULTUS_ANNOTATION_KEY \<noteq> None
                  then ret (Allowed ''Pod already using multus cni plugin'')
                  else attach_networks E a p annot)))"

section \<open>What one annotation does\<close>

lemma wp_interface_address:
  assumes "\<And>r. addrs = [] \<Longrightarrow> Q (Val (GenerateIPv6Address r m, net)) (Rand64 r # h)"
    and "addrs \<noteq> [] \<Longrightarrow> Q (Val (m\<lparr>na_ips := addrs\<rparr>, record_address (hd addrs) pn net)) h"
  shows "wp (interface_address E pn m addrs net) Q h"
  using assms by (cases addrs) (simp_all add: interface_address_def wp_simps)

lemma set_nad_label_not_Hang: "set_nad_label l v n \<noteq> Hang"
  by (auto simp: set_nad_label_def map_put_def split: option.splits)

lemma wp_store_assignment:
  assumes "\<And>n' r'. set_nad_label label ''true'' n = Val n' \<Longrightarrow>
      Q (Val ()) (UpdatedNetStatus net r' # UpdatedNad n' (e_update_nad E h n') # h)"
    and "set_nad_label label ''true'' n = Panic \<Longrightarrow> Q Panic h"
  shows "wp (store_assignment E label n net) Q h"
proof (cases "set_nad_label label ''true'' n")
  case Hang
  then show ?thesis by (simp add: set_nad_label_not_Hang)
qed (simp_all add: store_assignment_def wp_simps assms)

text \<open>
  The step as a rule: it appends one annotation for the \<open>i\<close>-th definition, which carries its
  name and at least one address, after storing that definition with its label set.
\<close>

lemma wp_annotate_network:
  assumes i: "i < length nads"
    and step: "\<And>m n' net r' es nets'. \<lbrakk>na_name m = nad_name (nads ! i); na_namespace m = ns; na_ips m \<noteq> [];
        set_nad_label label ''true'' (nads ! i) = Val n'; \<forall>e\<in>set es. \<exists>r. e = Rand64 r\<rbrakk> \<Longrightarrow>
        Q (Val (Inr (nets', ms @ [m]))) (UpdatedNetStatus net r' # UpdatedNad n' (e_update_nad E (es @ h) n') # es @ h)"
    and panic: "\<And>es. \<forall>e\<in>set es. \<exists>r. e = Rand64 r \<Longrightarrow> Q Panic (es @ h)" and hang: "Q Hang h"
  shows "wp (annotate_network E ns label pn nads (i, annot) (nets, ms)) Q h"
proof -
  have ip6: "na_ips (GenerateIPv6Address r m) \<noteq> []" "na_name (GenerateIPv6Address r m) = na_name m"
    "na_namespace (GenerateIPv6Address r m) = na_namespace m" for r m
    by (simp_all add: GenerateIPv6Address_def Let_def)
  let ?n = "nads ! i"
  let ?a = "new_annotation\<lparr>na_name := nad_name ?n, na_namespace := ns\<rparr>"
  have store: "wp (gbind (store_assignment E label ?n net) (\<lambda>_. ret (Inr (nets', ms @ [m])))) Q (es @ h)"
    if "na_name m = nad_name ?n" "na_namespace m = ns" "na_ips m \<noteq> []" "\<forall>e\<in>set es. \<exists>r. e = Rand64 r" for net nets' m es
    unfolding wp_gbind by (rule wp_store_assignment) (simp_all add: panic step that wp_ret)
  have addr: "wp (gbind (interface_address E pn ?a addrs net) (\<lambda>(m, net2).
      gbind (store_assignment E label ?n (add_pod net2)) (\<lambda>_.
         ret (Inr (share_assigned nets nm (st_assigned_ips (net_status net2)), ms @ [m]))))) Q h"
    for addrs net nm
  proof (subst wp_gbind, rule wp_interface_address, goal_cases)
    case (1 r)
    show ?case using store [of "GenerateIPv6Address r ?a" "[Rand64 r]" "add_pod net"] by (simp add: ip6)
  next
    case 2
    then show ?case using store [of "?a\<lparr>na_ips := addrs\<rparr>" "[]"] by simp
  qed
  have g: "glift (nth_go nads i) = ret ?n" using i by (simp add: nth_go_def)
  show ?thesis
  proof (cases "assign_address annot (case nets (na_name annot) of Some n \<Rightarrow> n | None \<Rightarrow> zero_network)")
    case (Val p)
    then show ?thesis using addr by (cases p) (simp add: annotate_network_def Let_def g)
  qed (use panic [of "[]"] hang in \<open>simp_all add: annotate_network_def Let_def g wp_simps\<close>)
qed

section \<open>The loop and the handler\<close>

definition is_marked :: "string \<Rightarrow> nad \<Rightarrow> history \<Rightarrow> bool" where
  "is_marked label n h \<longleftrightarrow> (\<exists>n' r. set_nad_label label ''true'' n = Val n' \<and> UpdatedNad n' r \<in> set h)"

lemma is_marked_mono: "is_marked label n h \<Longrightarrow> set h \<subseteq> set h' \<Longrightarrow> is_marked label n h'"
  by (auto simp: is_marked_def)

definition annotated :: "string \<Rightarrow> string \<Rightarrow> nad list \<Rightarrow> network_annotation list \<Rightarrow> history \<Rightarrow> bool" where
  "annotated ns label used ms h \<longleftrightarrow> map na_name ms = map nad_name used \<and>
     (\<forall>m\<in>set ms. na_namespace m = ns \<and> na_ips m \<noteq> []) \<and> (\<forall>n\<in>set used. is_marked label n h)"

lemma annotate_loop:
  assumes "length annots \<le> length nads"
  shows "wp (gloop (annotate_network E ns label pn nads) (enumerate 0 annots) (nets, []))
    (\<lambda>r h'. \<forall>v. r = Val v \<longrightarrow> (\<exists>nets' ms. v = Inr (nets', ms) \<and>
       annotated ns label (take (length annots) nads) ms h')) h"
proof (rule wp_gloop [where I = "\<lambda>ds st h. annotated ns label (take (length ds) nads) (snd st) h"], goal_cases)
  case (1 ds x s w)
  then obtain es where es: "enumerate 0 annots = ds @ x # es" by blast
  have l: "length ds < length annots" using arg_cong [OF es, of length] by simp
  have "x = enumerate 0 annots ! length ds" by (simp add: es)
  also have "\<dots> = (length ds, annots ! length ds)" using l by (simp add: nth_enumerate_eq)
  finally have x: "x = (length ds, annots ! length ds)" .
  obtain nets ms where s: "s = (nets, ms)" by (cases s)
  have lt: "length ds < length nads" using l assms by simp
  then have t: "take (Suc (length ds)) nads = take (length ds) nads @ [nads ! length ds]"
    by (rule take_Suc_conv_app_nth)
  have IH: "annotated ns label (take (length ds) nads) ms w" using 1 s by simp
  have keep: "is_marked label n (e1 # e2 # es @ w)" if "n \<in> set (take (length ds) nads)" for n e1 e2 es
  proof -
    have "is_marked label n w" using IH that by (simp add: annotated_def)
    then show ?thesis by (rule is_marked_mono) auto
  qed
  have new: "is_marked label n (e1 # UpdatedNad n' r # es @ w)" if "set_nad_label label ''true'' n = Val n'"
    for n n' e1 r es using that by (auto simp: is_marked_def)
  show ?case
    unfolding x s
    by (rule wp_annotate_network [OF lt]) (use IH in \<open>auto simp: annotated_def t intro: keep new\<close>)
next
  case (2 s w)
  then show ?case by (cases s) simp
qed (simp add: annotated_def)

lemma emits_annotate_network [emits_intros]:
  "(\<And>r. P (Rand64 r)) \<Longrightarrow> (\<And>n r. P (UpdatedNad n r)) \<Longrightarrow> (\<And>n r. P (UpdatedNetStatus n r)) \<Longrightarrow>
    emits P (annotate_network E ns label pn nads x s)"
  unfolding annotate_network_def Let_def interface_address_def store_assignment_def
  by (intro emits_intros)

text \<open>What a successful run of the attachment leaves behind.\<close>

definition attached_pod :: "pod_annotator \<Rightarrow> pod \<Rightarrow> string \<Rightarrow> pod \<Rightarrow> history \<Rightarrow> bool" where
  "attached_pod a p annot p' h \<longleftrightarrow> (\<exists>annots nads ms. ExtractNetworks annot (pa_namespace a) = Inr annots \<and>
     (nads = [] \<or> ListedNads (pa_namespace a) (nad_label (pod_node p)) (Inr nads) \<in> set h) \<and>
     length annots \<le> length nads \<and> pod_annotation p' MULTUS_ANNOTATION_KEY = Some (MultusAnnotationToString ms) \<and>
     pod_node p' = pod_node p \<and> (\<forall>k. k \<noteq> MULTUS_ANNOTATION_KEY \<longrightarrow> pod_annotation p' k = pod_annotation p k) \<and>
     annotated (pa_namespace a) (nad_label (pod_node p)) (take (length annots) nads) ms h)"

lemma keys_differ: "MULTUS_ANNOTATION_KEY \<noteq> ERROR_ANNOTATION"
  by (simp add: MULTUS_ANNOTATION_KEY_def ERROR_ANNOTATION_def)

lemma set_annotation_node: "set_annotation k v p = Val p' \<Longrightarrow> pod_node p' = pod_node p"
  by (auto simp: set_annotation_def split: flow.splits)

lemma attach_networks_annotated:
  assumes "pod_annotation p MULTUS_ANNOTATION_KEY = None"
  shows "wp (attach_networks E a p annot) (\<lambda>r h'. \<forall>p'. r = Val (Patched p') \<longrightarrow>
      pod_annotation p' MULTUS_ANNOTATION_KEY \<noteq> None \<longrightarrow> attached_pod a p annot p' h') h"
proof -
  let ?ns = "pa_namespace a" and ?l = "nad_label (pod_node p)"
  obtain annots where x: "ExtractNetworks annot ?ns = Inr annots"
    using ExtractNetworks_total by blast
  let ?Q = "\<lambda>r h'. \<forall>p'. r = Val (Patched p') \<longrightarrow>
      pod_annotation p' MULTUS_ANNOTATION_KEY \<noteq> None \<longrightarrow> attached_pod a p annot p' h'"
  have err: "wp (glift (patchErrorPod p msg)) ?Q h1" for msg h1
    using assms keys_differ
    by (auto simp: wp_simps patchErrorPod_def split: flow.splits
        dest: annotation_set [where k' = MULTUS_ANNOTATION_KEY])
  have loop: "wp (gbind (gloop (annotate_network E ?ns ?l (om_name (pod_meta p)) nads) (enumerate 0 annots) (nets, []))
      (\<lambda>r. case r of Inl resp \<Rightarrow> ret resp
         | Inr (_, ms) \<Rightarrow> gbind (glift (set_annotation MULTUS_ANNOTATION_KEY (MultusAnnotationToString ms) p))
             (\<lambda>p'. ret (Patched p')))) ?Q h1"
    if l: "length annots \<le> length nads" and nads: "nads = [] \<or> ListedNads ?ns ?l (Inr nads) \<in> set h1"
    for nads nets h1
    unfolding wp_gbind
  proof (rule wp_mono [OF wp_conj [OF annotate_loop [OF l] wp_emits [of "\<lambda>_. True"]]], goal_cases)
    case (2 r h2)
    then have n2: "nads = [] \<or> ListedNads ?ns ?l (Inr nads) \<in> set h2" using nads by auto
    have "attached_pod a p annot p' h2" if "annotated ?ns ?l (take (length annots) nads) ms h2"
      "set_annotation MULTUS_ANNOTATION_KEY (MultusAnnotationToString ms) p = Val p'" for ms p'
      unfolding attached_pod_def using x n2 l that annotation_set [OF that(2)] set_annotation_node [OF that(2)]
      by (intro exI [of _ annots] exI [of _ nads] exI [of _ ms]) simp
    with 2 show ?case by (auto simp: wp_simps split: flow.split)
  qed (intro emits_intros; simp)
  show ?thesis
    unfolding attach_networks_def Let_def x sum.case
    using err loop
    by (auto simp: wp_simps split: sum.split prod.split)
qed

section \<open>Properties\<close>

lemma select_node_pod:
  "wp (select_node E p) (\<lambda>r h'. \<forall>v. r = Val v \<longrightarrow> (case v of
       Inl resp \<Rightarrow> \<exists>c e. resp = Errored c e
     | Inr p1 \<Rightarrow> \<exists>node. p1 = p\<lparr>pod_node := node\<rparr> \<and> (pod_node p \<noteq> [] \<longrightarrow> node = pod_node p))) h"
  by (auto simp: select_node_def wp_simps nth_go_def split: sum.split)

lemma pod_annotation_node [simp]: "pod_annotation (p\<lparr>pod_node := n\<rparr>) k = pod_annotation p k"
  by (simp add: pod_annotation_def)

lemma attached_podE:
  assumes "attached_pod \<lparr>pa_namespace = ns\<rparr> (p\<lparr>pod_node := node\<rparr>) annot p' h"
  obtains annots nads ms where "ExtractNetworks annot ns = Inr annots" "nads = [] \<or> ListedNads ns (nad_label node) (Inr nads) \<in> set h"
    "length annots \<le> length nads" "pod_annotation p' MULTUS_ANNOTATION_KEY = Some (MultusAnnotationToString ms)"
    "\<forall>k. k \<noteq> MULTUS_ANNOTATION_KEY \<longrightarrow> pod_annotation p' k = pod_annotation p k"
    "annotated ns (nad_label node) (take (length annots) nads) ms h"
  using assms unfolding attached_pod_def by (simp add: pod_annotation_def) blast

lemma Handle_annotated:
  assumes "Handle E a (Inr p) h = (Val (Patched p'), h')" and "pod_annotation p' MULTUS_ANNOTATION_KEY \<noteq> None"
  shows "\<exists>node annot. (pod_node p \<noteq> [] \<longrightarrow> node = pod_node p) \<and> pod_annotation p L2SM_NETWORK_ANNOTATION = Some annot \<and>
    attached_pod a (p\<lparr>pod_node := node\<rparr>) annot p' h'"
proof -
  let ?P = "\<lambda>r h'. \<forall>p'. r = Val (Patched p') \<longrightarrow> pod_annotation p' MULTUS_ANNOTATION_KEY \<noteq> None \<longrightarrow>
     (\<exists>node annot. (pod_node p \<noteq> [] \<longrightarrow> node = pod_node p) \<and>
        pod_annotation p L2SM_NETWORK_ANNOTATION = Some annot \<and>
        attached_pod a (p\<lparr>pod_node := node\<rparr>) annot p' h')"
  have att: "wp (attach_networks E a p1 annot) ?P h1"
    if "\<exists>node. p1 = p\<lparr>pod_node := node\<rparr> \<and> (pod_node p \<noteq> [] \<longrightarrow> node = pod_node p)"
      "pod_annotation p1 MULTUS_ANNOTATION_KEY = None" "pod_annotation p1 L2SM_NETWORK_ANNOTATION = Some annot"
    for p1 annot h1
    by (rule wp_mono [OF attach_networks_annotated]) (use that in auto)
  have "wp (select_node E p) (\<lambda>r h1. case r of
      Val r \<Rightarrow> wp (case r of Inl resp \<Rightarrow> ret resp
          | Inr p \<Rightarrow>
              if pod_annotation p ERROR_ANNOTATION \<noteq> None then ret (Allowed ''Already errored creation'')
              else (case pod_annotation p L2SM_NETWORK_ANNOTATION of
                None \<Rightarrow> ret (Allowed ''Pod not using l2sm networks'')
              | Some annot \<Rightarrow>
                  if pod_annotation p MULTUS_ANNOTATION_KEY \<noteq> None
                  then ret (Allowed ''Pod already using multus cni plugin'')
                  else attach_networks E a p annot)) ?P h1
      | Panic \<Rightarrow> ?P Panic h1 | Hang \<Rightarrow> ?P Hang h1) h"
  proof (rule wp_mono [OF select_node_pod], goal_cases)
    case (1 r h1)
    show ?case
    proof (cases r)
      case (Val v)
      show ?thesis
      proof (cases v)
        case (Inr p1)
        with 1 Val have p1: "\<exists>node. p1 = p\<lparr>pod_node := node\<rparr> \<and> (pod_node p \<noteq> [] \<longrightarrow> node = pod_node p)"
          by simp
        show ?thesis unfolding Val Inr flow.case sum.case
          by (cases "pod_annotation p1 L2SM_NETWORK_ANNOTATION")
            (use att [OF p1] in \<open>simp_all add: wp_ret del: imp_disjL\<close>)
      qed (use 1 Val in \<open>auto simp: wp_ret\<close>)
    qed simp_all
  qed
  then have "wp (Handle E a (Inr p)) ?P h"
    unfolding Handle_def sum.case wp_if wp_gbind by (simp add: wp_ret)
  from wpD [OF this assms(1)] assms(2) show ?thesis by blast
qed

text \<open>
  C6. When the webhook gives a pod a Multus annotation, that annotation lists one interface
  per requested network, in order: the \<open>i\<close>-th is the \<open>i\<close>-th free attachment definition of
  the pod's node, in the switches' namespace, with at least one entry in its address list; and every
  definition used was sent to the API server with its label \<^verbatim>\<open>used-<node>\<close> set to true.
\<close>

theorem webhook_assigns_interfaces:
  assumes "Handle E a (Inr p) h = (Val (Patched p'), h')"
    and "pod_annotation p' MULTUS_ANNOTATION_KEY = Some v"
  shows "\<exists>node annot annots nads ms. (pod_node p \<noteq> [] \<longrightarrow> node = pod_node p) \<and>
     pod_annotation p L2SM_NETWORK_ANNOTATION = Some annot \<and>
     ExtractNetworks annot (pa_namespace a) = Inr annots \<and>
     (nads = [] \<or> ListedNads (pa_namespace a) (''used-'' @ node) (Inr nads) \<in> set h') \<and>
     length annots \<le> length nads \<and> v = MultusAnnotationToString ms \<and>
     map na_name ms = map nad_name (take (length annots) nads) \<and>
     (\<forall>m\<in>set ms. na_namespace m = pa_namespace a \<and> na_ips m \<noteq> []) \<and>
     (\<forall>n\<in>set (take (length annots) nads). \<exists>n' r.
        set_nad_label (''used-'' @ node) ''true'' n = Val n' \<and> UpdatedNad n' r \<in> set h')"
proof -
  from Handle_annotated [OF assms(1)] assms(2) obtain node annot where n: "pod_node p \<noteq> [] \<longrightarrow> node = pod_node p"
    "pod_annotation p L2SM_NETWORK_ANNOTATION = Some annot"
    and "attached_pod a (p\<lparr>pod_node := node\<rparr>) annot p' h'" by auto
  then obtain annots nads ms where "ExtractNetworks annot (pa_namespace a) = Inr annots"
    "nads = [] \<or> ListedNads (pa_namespace a) (''used-'' @ node) (Inr nads) \<in> set h'"
    "length annots \<le> length nads" "v = MultusAnnotationToString ms"
    "annotated (pa_namespace a) (''used-'' @ node) (take (length annots) nads) ms h'"
    using assms(2) by (auto simp: attached_pod_def nad_label_def NET_ATTACH_LABEL_PREFIX_def)
  then show ?thesis
    unfolding annotated_def is_marked_def using n
    by (intro exI [of _ node] exI [of _ annot] exI [of _ annots] exI [of _ nads] exI [of _ ms]) simp
qed

definition free_nad :: nad where
  "free_nad = \<lparr>nad_meta = (new_meta ''ov-veth1'' ''l2sm'')\<lparr>om_labels := Some Map.empty\<rparr>, nad_config = []\<rparr>"

definition sample_pod :: pod where
  "sample_pod = \<lparr>pod_meta = (new_meta ''ping'' ''default'')\<lparr>om_annotations := Some [L2SM_NETWORK_ANNOTATION \<mapsto> ''net'']\<rparr>,
     pod_node = ''n1''\<rparr>"

lemma extract_net: "ExtractNetworks ''net'' ''l2sm'' = Inr [new_annotation\<lparr>na_name := ''net'', na_namespace := ''l2sm''\<rparr>]"
  by code_simp

theorem webhook_assigns_interfaces_witness:
  "\<exists>p' h' nads. Handle (quiet_env\<lparr>e_list_nads := \<lambda>_ _ _. Inr [free_nad]\<rparr>) \<lparr>pa_namespace = ''l2sm''\<rparr> (Inr sample_pod) [] =
       (Val (Patched p'), h') \<and> ListedNads ''l2sm'' ''used-n1'' (Inr nads) \<in> set h'"
proof -
  let ?E = "quiet_env\<lparr>e_list_nads := \<lambda>_ _ _. Inr [free_nad]\<rparr>" and ?a = "\<lparr>pa_namespace = ''l2sm''\<rparr>"
  have keys: "L2SM_NETWORK_ANNOTATION \<noteq> ERROR_ANNOTATION" "L2SM_NETWORK_ANNOTATION \<noteq> MULTUS_ANNOTATION_KEY"
    by (simp_all add: L2SM_NETWORK_ANNOTATION_def ERROR_ANNOTATION_def MULTUS_ANNOTATION_KEY_def)
  have "\<exists>p' v h'. Handle ?E ?a (Inr sample_pod) [] = (Val (Patched p'), h') \<and> pod_annotation p' MULTUS_ANNOTATION_KEY = Some v"
    using keys
    by (simp add: Handle_def select_node_def attach_networks_def Let_def sample_pod_def pod_annotation_def new_meta_def extract_net
        GetL2NetworksMap_def GetFreeNetAttachDefs_def list_nets_def list_nads_def call_def gbind_def ret_def quiet_env_def
        existing_networks_def enumerate_eq_zip annotate_network_def nth_go_def assign_address_def zero_network_def
        interface_address_def rand64_def store_assignment_def set_nad_label_def free_nad_def update_nad_def update_net_status_def
        set_annotation_def glift_def new_annotation_def)
  then obtain p' v h' where r: "Handle ?E ?a (Inr sample_pod) [] = (Val (Patched p'), h')"
    and v: "pod_annotation p' MULTUS_ANNOTATION_KEY = Some v" by blast
  from webhook_assigns_interfaces [OF r v] obtain annot annots nads where
    "pod_annotation sample_pod L2SM_NETWORK_ANNOTATION = Some annot" "ExtractNetworks annot ''l2sm'' = Inr annots"
    "nads = [] \<or> ListedNads ''l2sm'' ''used-n1'' (Inr nads) \<in> set h'" "length annots \<le> length nads"
    by (auto simp: sample_pod_def)
  then show ?thesis using r
    by (auto simp: sample_pod_def pod_annotation_def extract_net)
qed

section \<open>Addresses\<close>

lemma assigned_key_dotted: "length x = 4 \<Longrightarrow> n \<le> 32 \<Longrightarrow> assigned_key (dotted x @ ''/'' @ dec n) = dotted x"
  unfolding assigned_key_def by (subst parse_cidr_dotted) (simp_all add: ip_string_def to4_def v4_in_v6_def)

lemma assign_address_next:
  assumes "na_ips annot = []" "ns_network_cidr (net_spec network) = c" "c \<noteq> []" "ns_pod_address_range (net_spec network) = []"
    and "parse_cidr c = Some (x, net)"
    and "GetNextAvailableIP c (st_last_assigned_ip (net_status network)) (st_assigned_ips (net_status network)) = Val (Inr (s, sz))"
  shows "assign_address annot network = Val ([s @ ''/'' @ dec (fst (mask_size (net_mask net)))],
    network\<lparr>net_status := (net_status network)\<lparr>st_last_assigned_ip := s\<rparr>\<rparr>)"
  using assms by (simp add: assign_address_def)

lemma assign_address_ip:
  assumes b: "length b = 4" and n: "n \<le> 32"
    and cidr: "ns_network_cidr (net_spec network) = dotted b @ ''/'' @ dec n" "ns_pod_address_range (net_spec network) = []"
    and none: "na_ips annot = []"
    and r: "assign_address annot network = Val (addrs, network1)"
    and ok: "st_last_assigned_ip (net_status network1) \<noteq> [] \<or> addrs \<noteq> [''/'' @ dec n]"
  obtains ip where "addrs = [ip @ ''/'' @ dec n]" "assigned_key (ip @ ''/'' @ dec n) = ip"
    "map_get (st_assigned_ips (net_status network)) ip = None"
    "network1 = network\<lparr>net_status := (net_status network)\<lparr>st_last_assigned_ip := ip\<rparr>\<rparr>"
proof -
  let ?m = "st_assigned_ips (net_status network)"
  have p: "parse_cidr (dotted b @ ''/'' @ dec n) = Some (v4_in_v6 @ b, \<lparr>net_ip = and_bytes b (cidr_mask n 4), net_mask = cidr_mask n 4\<rparr>)"
    by (rule parse_cidr_dotted [OF b n])
  have ne: "dotted b @ ''/'' @ dec n \<noteq> []" by simp
  obtain ip sz where g: "GetNextAvailableIP (dotted b @ ''/'' @ dec n) (st_last_assigned_ip (net_status network)) ?m = Val (Inr (ip, sz))"
    and a: "addrs = [ip @ ''/'' @ dec n]" "network1 = network\<lparr>net_status := (net_status network)\<lparr>st_last_assigned_ip := ip\<rparr>\<rparr>"
    using r ok cidr none ne
    by (auto simp: assign_address_def Let_def p [simplified] mask_size_cidr_mask n split: flow.splits sum.splits)
  from next_ip_dotted [OF b n g] obtain x where x: "length x = 4" "ip = dotted x" "map_get ?m ip = None" by blast
  show ?thesis using that [OF a(1) _ x(3) a(2)] assigned_key_dotted [OF x(1) n] x(2) by simp
qed

text \<open>
  C13. No two pods get one address: on a network with an IPv4 CIDR and no pod address range, when a pod asks for an
  address and the allocation succeeds, the address was assigned to nobody, it is then
  recorded for that pod, and every address recorded before keeps its pod.
\<close>

theorem webhook_records_fresh_address:
  assumes b: "length b = 4" and n: "n \<le> 32"
    and cidr: "ns_network_cidr (net_spec network) = dotted b @ ''/'' @ dec n" "ns_pod_address_range (net_spec network) = []"
    and none: "na_ips annot = []"
    and r: "assign_address annot network = Val (addrs, network1)"
    and ok: "st_last_assigned_ip (net_status network1) \<noteq> []"
  shows "\<exists>ip. addrs = [ip @ ''/'' @ dec n] \<and> map_get (st_assigned_ips (net_status network)) ip = None \<and>
     (\<forall>k. map_get (st_assigned_ips (net_status (record_address (hd addrs) podName network1))) k =
       (if k = ip then Some podName else map_get (st_assigned_ips (net_status network)) k))"
  by (rule assign_address_ip [OF b n cidr none r disjI1 [OF ok]]) (auto simp: record_address_def)

definition pool_network :: l2network where
  "pool_network = zero_network\<lparr>net_spec := (net_spec zero_network)\<lparr>ns_network_cidr := dotted [10, 0, 0, 0] @ ''/'' @ dec 24\<rparr>\<rparr>"

lemma pool_assign:
  obtains ip where "ip \<noteq> []" "assign_address new_annotation pool_network = Val ([ip @ ''/'' @ dec 24],
    pool_network\<lparr>net_status := (net_status pool_network)\<lparr>st_last_assigned_ip := ip\<rparr>\<rparr>)"
proof -
  let ?c = "dotted [10, 0, 0, 0] @ ''/'' @ dec 24"
  obtain x where x: "GetNextAvailableIP ?c [] None = Val (Inr (ip_string x, ''/'' @ dec 24))" "length x = 4"
  proof (rule next_ip_v4 [of "[10, 0, 0, 0]" 24 "[]" None], goal_cases)
    case (5 x)
    show ?case by (rule 5(1) [OF 5(2)]) (simp add: and_bytes_def)
  qed simp_all
  have "ip_string x \<noteq> []" using x(2) by (simp add: ip_string_four dotted_def length_4_iff, auto)
  then show ?thesis
    using that assign_address_next [of new_annotation pool_network ?c, OF _ _ _ _ parse_cidr_dotted] x
    by (simp add: pool_network_def zero_network_def new_annotation_def mask_size_cidr_mask del: append_Cons)
qed

theorem webhook_records_fresh_address_witness:
  "\<exists>addrs n1 ip. assign_address new_annotation pool_network = Val (addrs, n1) \<and> addrs = [ip @ ''/'' @ dec 24] \<and>
     map_get (st_assigned_ips (net_status (record_address (hd addrs) ''ping'' n1))) ip = Some ''ping''"
proof -
  obtain ip where a: "ip \<noteq> []" "assign_address new_annotation pool_network = Val ([ip @ ''/'' @ dec 24],
    pool_network\<lparr>net_status := (net_status pool_network)\<lparr>st_last_assigned_ip := ip\<rparr>\<rparr>)" by (rule pool_assign)
  then show ?thesis
    using webhook_records_fresh_address [of "[10, 0, 0, 0]" 24 pool_network new_annotation, OF _ _ _ _ _ a(2), of "''ping''"]
    by (auto simp: pool_network_def zero_network_def new_annotation_def)
qed

lemma annotate_network_run:
  assumes "annotate_network E ns label podName nads (i, an) (nets, ms) h = (Val (Inr (nets1, ms1)), h1)"
    and "na_ips an = []" "nets (na_name an) = Some net" "ns_network_cidr (net_spec net) \<noteq> []"
  obtains addrs net1 m where "assign_address an net = Val (addrs, net1)" "addrs \<noteq> []" "ms1 = ms @ [m]" "na_ips m = addrs"
    "nets1 = share_assigned nets (na_name an) (st_assigned_ips (net_status (record_address (hd addrs) podName net1)))"
proof -
  obtain addrs net1 where r: "assign_address an net = Val (addrs, net1)"
    using assms(1,3) by (auto simp: annotate_network_def Let_def run_simps split: flow.splits)
  moreover have "addrs \<noteq> []"
    using r assms(2,4) by (auto simp: assign_address_def Let_def split: option.splits flow.splits)
  ultimately show ?thesis
    using that assms
    by (auto simp: annotate_network_def Let_def run_simps interface_address_def store_assignment_def neq_Nil_conv split: flow.splits)
qed

text \<open>
  C27. Two interfaces of one pod on one network (with an IPv4 CIDR and no pod address range) that both get an
  address get different ones exactly when the network had a map of assigned addresses: the two steps see each other's assignments only through
  that map, which is shared by the copies of the network; when it was nil, the first step
  allocates one that the second does not see, and both get the same address.
\<close>

theorem webhook_same_network_twice:
  assumes b: "length b = 4" and n: "n \<le> 32" and net: "nets name = Some net"
    and cidr: "ns_network_cidr (net_spec net) = dotted b @ ''/'' @ dec n" "ns_pod_address_range (net_spec net) = []"
    and an: "na_name an = name" "na_ips an = []" "na_name an' = name" "na_ips an' = []"
    and r: "annotate_network E ns label podName nads (i, an) (nets, ms) h = (Val (Inr (nets1, ms @ [m1])), h1)"
      "annotate_network E ns label podName nads (j, an') (nets1, ms @ [m1]) h1 = (Val (Inr (nets2, ms @ [m1, m2])), h2)"
    and ok: "na_ips m1 \<noteq> [''/'' @ dec n]" "na_ips m2 \<noteq> [''/'' @ dec n]"
  shows "na_ips m1 \<noteq> na_ips m2 \<longleftrightarrow> st_assigned_ips (net_status net) \<noteq> None"
proof -
  have ne: "ns_network_cidr (net_spec net) \<noteq> []" by (simp add: cidr)
  obtain net1 where a: "assign_address an net = Val (na_ips m1, net1)"
    and n1: "nets1 = share_assigned nets name (st_assigned_ips (net_status (record_address (hd (na_ips m1)) podName net1)))"
    using annotate_network_run [OF r(1) an(2)] net an(1) ne by auto
  obtain ip where ip: "na_ips m1 = [ip @ ''/'' @ dec n]" "assigned_key (ip @ ''/'' @ dec n) = ip"
    "net1 = net\<lparr>net_status := (net_status net)\<lparr>st_last_assigned_ip := ip\<rparr>\<rparr>"
    by (rule assign_address_ip [OF b n cidr an(2) a disjI2 [OF ok(1)]])
  show ?thesis
  proof (cases "st_assigned_ips (net_status net)")
    case None
    then have same: "nets1 = nets" using n1 net by (simp add: share_assigned_def)
    have n2: "nets1 (na_name an') = Some net" using same net an(3) by simp
    obtain net2 where "assign_address an' net = Val (na_ips m2, net2)"
      by (rule annotate_network_run [OF r(2) an(4) n2 ne]) simp
    moreover have "assign_address an' net = assign_address an net" using an by (simp add: assign_address_def)
    ultimately have "na_ips m2 = na_ips m1" using a by simp
    then show ?thesis using None by simp
  next
    case (Some f)
    then obtain net' where n2: "nets1 name = Some net'" "net_spec net' = net_spec net"
      "map_get (st_assigned_ips (net_status net')) ip \<noteq> None"
      using n1 net ip by (simp add: share_assigned_def record_address_def)
    have at: "nets1 (na_name an') = Some net'" "ns_network_cidr (net_spec net') \<noteq> []" using n2 an(3) ne by auto
    obtain net2 where a2: "assign_address an' net' = Val (na_ips m2, net2)"
      by (rule annotate_network_run [OF r(2) an(4) at]) simp
    have "na_ips m2 \<noteq> na_ips m1"
      by (rule assign_address_ip [OF b n _ _ an(4) a2 disjI2 [OF ok(2)]]) (use cidr n2 ip in auto)
    then show ?thesis using Some by auto
  qed
qed

theorem webhook_same_network_twice_witness:
  "\<exists>nets1 nets2 m1 m2 h1 h2.
    annotate_network quiet_env ''l2sm'' ''used-n1'' ''ping'' [free_nad, free_nad] (0, new_annotation) ([[] \<mapsto> pool_network], []) [] =
      (Val (Inr (nets1, [m1])), h1) \<and>
    annotate_network quiet_env ''l2sm'' ''used-n1'' ''ping'' [free_nad, free_nad] (1, new_annotation) (nets1, [m1]) h1 =
      (Val (Inr (nets2, [m1, m2])), h2) \<and> na_ips m1 = na_ips m2"
proof -
  obtain ip where a: "ip \<noteq> []" "assign_address new_annotation pool_network = Val ([ip @ ''/'' @ dec 24],
    pool_network\<lparr>net_status := (net_status pool_network)\<lparr>st_last_assigned_ip := ip\<rparr>\<rparr>)" by (rule pool_assign)
  have step: "\<exists>h1 m. annotate_network quiet_env ''l2sm'' ''used-n1'' ''ping'' [free_nad, free_nad] (i, new_annotation) ([[] \<mapsto> pool_network], ms) h =
      (Val (Inr ([[] \<mapsto> pool_network], ms @ [m])), h1) \<and> na_ips m = [ip @ ''/'' @ dec 24]" if "i < 2" for i ms h
    using that a
    by (simp add: annotate_network_def Let_def run_simps nth_go_def less_2_cases_iff interface_address_def store_assignment_def
        share_assigned_def set_nad_label_def free_nad_def quiet_env_def) (auto simp: pool_network_def zero_network_def new_annotation_def)
  obtain h1 m1 where 1: "annotate_network quiet_env ''l2sm'' ''used-n1'' ''ping'' [free_nad, free_nad] (0, new_annotation)
      ([[] \<mapsto> pool_network], []) [] = (Val (Inr ([[] \<mapsto> pool_network], [] @ [m1])), h1)" "na_ips m1 = [ip @ ''/'' @ dec 24]"
    using step [of 0 "[]" "[]"] by auto
  obtain h2 m2 where 2: "annotate_network quiet_env ''l2sm'' ''used-n1'' ''ping'' [free_nad, free_nad] (1, new_annotation)
      ([[] \<mapsto> pool_network], [] @ [m1]) h1 = (Val (Inr ([[] \<mapsto> pool_network], [] @ [m1, m2])), h2)" "na_ips m2 = [ip @ ''/'' @ dec 24]"
    using step [of 1 "[m1]" h1] by auto
  have "na_ips m1 \<noteq> na_ips m2 \<longleftrightarrow> st_assigned_ips (net_status pool_network) \<noteq> None"
    by (rule webhook_same_network_twice [OF _ _ _ _ _ _ _ _ _ 1(1) 2(1), of "[10, 0, 0, 0]" 24 "[]"])
      (use a 1 2 in \<open>auto simp: pool_network_def zero_network_def new_annotation_def\<close>)
  then show ?thesis using 1 2 by (auto simp: pool_network_def zero_network_def)
qed

section \<open>Requests the webhook does not change\<close>

text \<open>
  A pod that is being deleted, and a pod with a node that failed before, asks for no
  network or was annotated already, is admitted as it is, without any call.
\<close>

lemma webhook_ignores:
  assumes "om_deleted (pod_meta p) \<or> pod_node p \<noteq> [] \<and>
    (pod_annotation p ERROR_ANNOTATION \<noteq> None \<or> pod_annotation p L2SM_NETWORK_ANNOTATION = None \<or>
     pod_annotation p MULTUS_ANNOTATION_KEY \<noteq> None)"
  shows "\<exists>msg. Handle E a (Inr p) h = (Val (Allowed msg), h)"
  using assms
  by (cases "pod_annotation p L2SM_NETWORK_ANNOTATION")
    (auto simp: Handle_def select_node_def run_simps)

text \<open>
  When a pod asks for more networks than there are free interfaces on its node, it is
  marked with an error and nothing is written: two list calls are all that happens.
\<close>

lemma webhook_no_interfaces:
  assumes "\<not> om_deleted (pod_meta p)" "pod_node p \<noteq> []" "pod_annotation p ERROR_ANNOTATION = None"
    and "pod_annotation p L2SM_NETWORK_ANNOTATION = Some annot" "pod_annotation p MULTUS_ANNOTATION_KEY = None"
    and "ExtractNetworks annot (pa_namespace a) = Inr annots"
    and "e_valid_label_key E (''used-'' @ pod_node p)"
    and "e_list_nads E (ListedNets None (e_list_nets E h None) # h) (pa_namespace a) (''used-'' @ pod_node p) = Inr nads"
    and "length nads < length annots"
  shows "\<exists>p'. Handle E a (Inr p) h = (Val (Patched p'),
      ListedNads (pa_namespace a) (''used-'' @ pod_node p) (Inr nads) #
      ListedNets None (e_list_nets E h None) # h) \<and>
    (\<forall>k. pod_annotation p' k = (if k = ''l2sm/error'' then Some (''No interfaces available for node '' @ pod_node p)
       else pod_annotation p k))"
proof -
  obtain m where m: "om_annotations (pod_meta p) = Some m"
    using assms(4) by (cases "om_annotations (pod_meta p)") (auto simp: pod_annotation_def)
  show ?thesis
    using assms m
    by (auto simp: Handle_def select_node_def attach_networks_def Let_def GetL2NetworksMap_def GetFreeNetAttachDefs_def
        run_simps nad_label_def NET_ATTACH_LABEL_PREFIX_def
        patchErrorPod_def set_annotation_def pod_annotation_def ERROR_ANNOTATION_def split: sum.split prod.split)
qed

text \<open>
  The address assignment panics exactly when an address is wanted and the network's CIDR
  is not one: the parsed network is dereferenced before the error is looked at. (A CIDR
  that is one never makes it panic.)
\<close>

lemma assign_address_panics:
  "assign_address annot network = Panic \<longleftrightarrow>
     na_ips annot = [] \<and> ns_network_cidr (net_spec network) \<noteq> [] \<and> parse_cidr (ns_network_cidr (net_spec network)) = None"
  by (auto simp: assign_address_def Let_def next_ip_no_panic split: option.splits flow.splits)

end
