(* ===== verification/PodController.thy ===== *)
theory PodController
  imports PodUtils SdnClient
begin

text \<open>
  \<^verbatim>\<open>internal/controller/pod_controller.go\<close>: the reconciler that attaches the interfaces of a
  pod to its networks when the pod appears and frees them when it is deleted. \<open>Reconcile\<close>
  returns the error controller-runtime gets; \<open>None\<close> means the request is not retried. The
  two big branches are \<open>delete_pod\<close> and \<open>attach_pod\<close>, the bodies of their loops
  \<open>release_interface\<close> and \<open>attach_network\<close>.
\<close>

section \<open>Code\<close>

record pod_reconciler =
  pr_client :: sdn_client
  pr_namespace :: string

text \<open>
  The address is printed from a slice of domains with \<^verbatim>\<open>%s\<close>, which writes brackets. A nil
  4-byte form prints as \<open><nil>\<close>.
\<close>

definition CreateDNSEntry :: "environment \<Rightarrow> l2network \<Rightarrow> string \<Rightarrow> string \<Rightarrow> (history, err option) go" where
  "CreateDNSEntry E network podName podCIDR =
     (case ns_provider (net_spec network) of
        None \<Rightarrow> gpanic
      | Some provider \<Rightarrow>
          (let providerAddress = fmt_strings (pv_domain provider) @ '':'' @
                 DefaultIfEmpty (pv_dns_grpc_port provider) ''30818'';
               dnsClient = \<lparr>dc_address = providerAddress, dc_scope = ''inter''\<rparr>
           in case parse_cidr podCIDR of
                None \<Rightarrow> ret (Some (errorf ''could not parse pod cidr: %v'' []))
              | Some (ip, _) \<Rightarrow>
                  gbind (AddDNSEntry E dnsClient podName (net_name network)
                      (ip_string (case to4 ip of Some b \<Rightarrow> b | None \<Rightarrow> [])))
                    (\<lambda>r. ret (map_option (\<lambda>e. Errorf ''could not add dns entry in remote server: %v'' [] (Some e)) r))))"

definition set_finalizers :: "string list \<Rightarrow> pod \<Rightarrow> pod" where
  "set_finalizers fs p = p\<lparr>pod_meta := (pod_meta p)\<lparr>om_finalizers := fs\<rparr>\<rparr>"

text \<open>
  One round of the loop over the interfaces of a deleted pod. \<open>Inl None\<close> is \<^verbatim>\<open>return nil\<close>
  out of \<open>Reconcile\<close>, \<open>Inr ()\<close> goes on with the next interface.
\<close>

definition release_interface ::
  "environment \<Rightarrow> pod_reconciler \<Rightarrow> string \<Rightarrow> network_annotation list \<Rightarrow> nat \<times> network_annotation \<Rightarrow> unit \<Rightarrow>
     (history, err option + unit) go" where
  "release_interface E r node multus indexed u =
     (let (i, networkAnnotation) = indexed
      in gbind (glift (nth_go multus i)) (\<lambda>m.
         case GetPortNumberFromNetAttachDef (na_name m) of
           Inl e \<Rightarrow> ret (Inl None)
         | Inr portNumber \<Rightarrow>
             gbind (cl_detach (pr_client r) ''vnets''
                 (payload (na_name networkAnnotation) [of_port E node OVERLAY_PROVIDER portNumber])) (\<lambda>_.
             gbind (get_nad E (pr_namespace r, na_name m)) (\<lambda>got. case got of
               Inl e \<Rightarrow> if is_not_found e then ret (Inr ()) else ret (Inl None)
             | Inr netAttachDef \<Rightarrow>
                 gbind (update_nad E (set_nad_label_alloc (nad_label node) ''false'' netAttachDef)) (\<lambda>x. case x of
                   Inl e \<Rightarrow> ret (Inl None)
                 | Inr _ \<Rightarrow> ret (Inr ()))))))"

definition delete_pod :: "environment \<Rightarrow> pod_reconciler \<Rightarrow> pod \<Rightarrow> (history, err option) go" where
  "delete_pod E r p =
     (if l2smFinalizer \<notin> set (om_finalizers (pod_meta p)) then ret None
      else
        (let p = set_finalizers (RemoveString (om_finalizers (pod_meta p)) l2smFinalizer) p;
             node = pod_node p
         in case ExtractNetworks (annotation_of p L2SM_NETWORK_ANNOTATION) (pr_namespace r) of
              Inl e \<Rightarrow> ret None
            | Inr networkAnnotations \<Rightarrow>
                if \<not> has_annotation p MULTUS_ANNOTATION_KEY then ret None
                else case ExtractNetworks (annotation_of p MULTUS_ANNOTATION_KEY) (pr_namespace r) of
                  Inl e \<Rightarrow> ret None
                | Inr multus \<Rightarrow>
                    if length multus \<noteq> length networkAnnotations then ret None
                    else gbind (gloop (release_interface E r node multus) (enumerate 0 networkAnnotations) ())
                      (\<lambda>x. case x of
                         Inl e \<Rightarrow> ret e
                       | Inr _ \<Rightarrow> gbind (update_pod E p) (\<lambda>_. ret None))))"

definition dns_pod_name :: "pod \<Rightarrow> string" where
  "dns_pod_name p = (case map_get (om_labels (pod_meta p)) L2SM_PODNAME_LABEL of
     Some appName \<Rightarrow> appName | None \<Rightarrow> om_name (pod_meta p))"

definition attach_network ::
  "environment \<Rightarrow> pod_reconciler \<Rightarrow> pod \<Rightarrow> network_annotation list \<Rightarrow> nat \<times> l2network \<Rightarrow> unit \<Rightarrow>
     (history, err option + unit) go" where
  "attach_network E r p multus indexed u =
     (let (index, network) = indexed
      in gbind (glift (nth_go multus index)) (\<lambda>m.
         case GetPortNumberFromNetAttachDef (na_name m) of
           Inl e \<Rightarrow> ret (Inl (Some (Errorf
             (''could not get port number from the multus network annotation: %v. Can'' @ [CHR 0x27] @ ''t attach pod to network'')
             [] (Some e))))
         | Inr portNumber \<Rightarrow>
             gbind (cl_attach (pr_client r) ''vnets''
                 (payload (net_name network) [of_port E (pod_node p) OVERLAY_PROVIDER portNumber])) (\<lambda>err.
             if err \<noteq> None then ret (Inl None)
             else if ns_provider (net_spec network) = None then ret (Inr ())
             else gbind (glift (nth_go (na_ips m) 0)) (\<lambda>ip.
               gbind (CreateDNSEntry E network (dns_pod_name p) ip) (\<lambda>_. ret (Inr ()))))))"

text \<open>The rest of the creation branch, on the pod the API server returned for the finalizer.\<close>

definition attach_pod_networks ::
  "environment \<Rightarrow> pod_reconciler \<Rightarrow> pod \<Rightarrow> (history, err option) go" where
  "attach_pod_networks E r p =
     (case ExtractNetworks (annotation_of p L2SM_NETWORK_ANNOTATION) (pr_namespace r) of
        Inl e \<Rightarrow> ret (Some e)
      | Inr networkAnnotations \<Rightarrow>
          gbind (GetL2Networks E networkAnnotations) (\<lambda>(networks, err). case err of
            Some e \<Rightarrow> ret (Some e)
          | None \<Rightarrow>
              if \<not> has_annotation p MULTUS_ANNOTATION_KEY then ret None
              else case ExtractNetworks (annotation_of p MULTUS_ANNOTATION_KEY) (pr_namespace r) of
                Inl e \<Rightarrow> ret None
              | Inr multus \<Rightarrow>
                  if length multus \<noteq> length networkAnnotations then ret None
                  else gbind (gloop (attach_network E r p multus) (enumerate 0 networks) ())
                    (\<lambda>x. case x of Inl e \<Rightarrow> ret e | Inr _ \<Rightarrow> ret None)))"

definition attach_pod :: "environment \<Rightarrow> pod_reconciler \<Rightarrow> pod \<Rightarrow> (history, err option) go" where
  "attach_pod E r p =
     (if l2smFinalizer \<in> set (om_finalizers (pod_meta p)) then ret None
      else gbind (update_pod E (set_finalizers (om_finalizers (pod_meta p) @ [l2smFinalizer]) p)) (\<lambda>x. case x of
          Inl e \<Rightarrow> ret (Some e)
        | Inr p \<Rightarrow>
            if \<not> has_annotation p MULTUS_ANNOTATION_KEY then
              (if has_annotation p ERROR_ANNOTATION then
                 gbind (CreateErrorEvent E p (annotation_of p ERROR_ANNOTATION) ''NoInterfacesAvailable'') (\<lambda>_. ret None)
               else ret None)
            else attach_pod_networks E r p))"

definition Reconcile :: "environment \<Rightarrow> pod_reconciler \<Rightarrow> key \<Rightarrow> (history, err option) go" where
  "Reconcile E r req =
     gbind (get_pod E req) (\<lambda>got. case got of
       Inl e \<Rightarrow> ret (ignore_not_found e)
     | Inr p \<Rightarrow>
         if \<not> has_annotation p L2SM_NETWORK_ANNOTATION then ret None
         else if \<not> has_annotation p MULTUS_ANNOTATION_KEY then
           (if has_annotation p ERROR_ANNOTATION then
              gbind (CreateErrorEvent E p (annotation_of p ERROR_ANNOTATION) ''NoInterfacesAvailable'') (\<lambda>_. ret None)
            else gbind (update_pod E p) (\<lambda>_. ret None))
         else if om_deleted (pod_meta p) then delete_pod E r p
         else attach_pod E r p)"

section \<open>The attachments a history holds\<close>

text \<open>The bodies of the attach requests the SDN controller accepted, newest first.\<close>

fun accepted_attach :: "session_client \<Rightarrow> event \<Rightarrow> string option" where
  "accepted_attach s (Http m u a b reply) =
     (if m = ''POST'' \<and> u = sc_base_url s @ ''/vnets/api/port'' \<and> reply = Inr 204 then Some b else None)"
| "accepted_attach s _ = None"

abbreviation attached :: "session_client \<Rightarrow> history \<Rightarrow> string list" where
  "attached s h \<equiv> view (accepted_attach s) h"

lemma accepted_attach_sent [simp]:
  "accepted_attach s (sent s m u b reply) =
     (if m = ''POST'' \<and> u = ''/vnets/api/port'' \<and> reply = Inr 204 then Some b else None)"
  by (simp add: sent_def)

text \<open>What is to be sent for each network: its name and the switch port of the interface.\<close>

definition attach_body :: "environment \<Rightarrow> string \<Rightarrow> l2network \<Rightarrow> network_annotation \<Rightarrow> string" where
  "attach_body E node network m = payload_json (payload (net_name network)
     [of_port E node OVERLAY_PROVIDER (case GetPortNumberFromNetAttachDef (na_name m) of Inr i \<Rightarrow> i | Inl e \<Rightarrow> [])])"

definition attach_bodies :: "environment \<Rightarrow> string \<Rightarrow> l2network list \<Rightarrow> network_annotation list \<Rightarrow> string list" where
  "attach_bodies E node networks multus = map2 (attach_body E node) networks multus"

lemma wp_CreateDNSEntry:
  assumes "ns_provider (net_spec network) \<noteq> None"
  shows "wp (CreateDNSEntry E network pn ip) (\<lambda>r h'. (\<exists>x. r = Val x) \<and> attached s h' = attached s h \<and> set h \<subseteq> set h') h"
  using assms
  by (auto simp: CreateDNSEntry_def AddDNSEntry_def Let_def wp_simps split: option.split)

lemma wp_attach_network:
  assumes i: "i < length multus"
    and refused: "\<And>e h'. cl_attach (InternalClient E s) ''vnets''
         (payload (net_name network) [of_port E (pod_node p) OVERLAY_PROVIDER
            (case GetPortNumberFromNetAttachDef (na_name (multus ! i)) of Inr i \<Rightarrow> i | Inl e \<Rightarrow> [])]) h = (Val (Some e), h') \<Longrightarrow>
         attached s h' = attached s h \<Longrightarrow> set h \<subseteq> set h' \<Longrightarrow> Q (Val (Inl None)) h'"
    and bad: "\<And>e e'. GetPortNumberFromNetAttachDef (na_name (multus ! i)) = Inl e \<Longrightarrow> Q (Val (Inl (Some e'))) h"
    and panic: "\<And>h'. na_ips (multus ! i) = [] \<Longrightarrow> ns_provider (net_spec network) \<noteq> None \<Longrightarrow>
         attached s h' = attach_body E (pod_node p) network (multus ! i) # attached s h \<Longrightarrow> set h \<subseteq> set h' \<Longrightarrow> Q Panic h'"
    and more: "\<And>h'. attached s h' = attach_body E (pod_node p) network (multus ! i) # attached s h \<Longrightarrow>
         set h \<subseteq> set h' \<Longrightarrow> Q (Val (Inr ())) h'"
  shows "wp (attach_network E \<lparr>pr_client = InternalClient E s, pr_namespace = ns\<rparr> p multus (i, network) ()) Q h"
proof (cases "GetPortNumberFromNetAttachDef (na_name (multus ! i))")
  case (Inl e)
  then show ?thesis using i by (simp add: attach_network_def nth_go_def wp_simps bad)
next
  case (Inr n)
  let ?q = "payload (net_name network) [of_port E (pod_node p) OVERLAY_PROVIDER n]"
  have body: "attach_body E (pod_node p) network (multus ! i) = payload_json ?q"
    by (simp add: attach_body_def Inr)
  have "wp (cl_attach (InternalClient E s) ''vnets'' ?q)
      (\<lambda>r h'. case r of Val a \<Rightarrow> wp (if a \<noteq> None then ret (Inl None)
         else if ns_provider (net_spec network) = None then ret (Inr ())
         else gbind (glift (nth_go (na_ips (multus ! i)) 0)) (\<lambda>ip.
           gbind (CreateDNSEntry E network (dns_pod_name p) ip) (\<lambda>_. ret (Inr ())))) Q h'
       | Panic \<Rightarrow> Q Panic h' | Hang \<Rightarrow> Q Hang h') h"
  proof (rule wpI)
    fix x h' assume o: "cl_attach (InternalClient E s) ''vnets'' ?q h = (x, h')"
    show "case x of Val a \<Rightarrow> wp (if a \<noteq> None then ret (Inl None)
         else if ns_provider (net_spec network) = None then ret (Inr ())
         else gbind (glift (nth_go (na_ips (multus ! i)) 0)) (\<lambda>ip.
           gbind (CreateDNSEntry E network (dns_pod_name p) ip) (\<lambda>_. ret (Inr ())))) Q h'
       | Panic \<Rightarrow> Q Panic h' | Hang \<Rightarrow> Q Hang h'"
    proof (cases rule: internal.attach.op_cases [OF o])
      case (3 c)
      have dns: "wp (CreateDNSEntry E network (dns_pod_name p) ip)
          (\<lambda>r h''. case r of Val a \<Rightarrow> wp (ret (Inr ())) Q h'' | Panic \<Rightarrow> Q Panic h'' | Hang \<Rightarrow> Q Hang h'') h'"
        if "ns_provider (net_spec network) \<noteq> None" for ip
        by (rule wp_mono [OF wp_CreateDNSEntry [OF that, where s = s]])
          (use 3 body in \<open>auto simp: wp_ret intro!: more\<close>)
      show ?thesis
        using 3 body dns by (cases "na_ips (multus ! i)") (auto simp: wp_simps intro!: panic more)
    qed (use o Inr in \<open>auto simp: wp_ret intro!: refused\<close>)
  qed
  then show ?thesis using i Inr by (simp add: attach_network_def nth_go_def wp_gbind del: not_None_eq split del: if_split)
qed


text \<open>
  The loop: the accepted requests are those of the first \<open>k\<close> networks, in order; it stops
  early only when the controller refuses one or an interface name has no port.
\<close>

lemma wp_attach_loop:
  assumes len: "length multus = length networks"
  shows "wp (gloop (attach_network E \<lparr>pr_client = InternalClient E s, pr_namespace = ns\<rparr> p multus) (enumerate 0 networks) ())
    (\<lambda>x h'. \<exists>k\<le>length networks. attached s h' = rev (take k (attach_bodies E (pod_node p) networks multus)) @ attached s h \<and>
       set h \<subseteq> set h' \<and>
       (case x of
          Val (Inr u) \<Rightarrow> k = length networks
        | Val (Inl None) \<Rightarrow> \<exists>q h1 e h2. cl_attach (InternalClient E s) ''vnets'' q h1 = (Val (Some e), h2)
        | Val (Inl (Some e)) \<Rightarrow> \<exists>m\<in>set multus. \<exists>e. GetPortNumberFromNetAttachDef (na_name m) = Inl e
        | Panic \<Rightarrow> (\<exists>m\<in>set multus. na_ips m = []) \<and> (\<exists>n\<in>set networks. ns_provider (net_spec n) \<noteq> None)
        | Hang \<Rightarrow> False)) h"
  (is "wp _ ?Q h")
proof (rule wp_gloop [where I = "\<lambda>ds u h'. set h \<subseteq> set h' \<and>
    attached s h' = rev (take (length ds) (attach_bodies E (pod_node p) networks multus)) @ attached s h"], goal_cases)
  case (1 ds x u w)
  then obtain es where es: "enumerate 0 networks = ds @ x # es" by blast
  let ?k = "length ds"
  have l: "?k < length networks" using arg_cong [OF es, of length] by simp
  have "x = enumerate 0 networks ! ?k" by (simp add: es)
  then have x: "x = (?k, networks ! ?k)" using l by (simp add: nth_enumerate_eq)
  have lm: "?k < length multus" using l len by simp
  have t: "rev (take (Suc ?k) (attach_bodies E (pod_node p) networks multus)) =
      attach_body E (pod_node p) (networks ! ?k) (multus ! ?k) # rev (take ?k (attach_bodies E (pod_node p) networks multus))"
    using l lm by (subst take_Suc_conv_app_nth) (simp_all add: attach_bodies_def)
  have w: "set h \<subseteq> set w" "attached s w = rev (take ?k (attach_bodies E (pod_node p) networks multus)) @ attached s h"
    using 1(2) by auto
  have u: "u = ()" by simp
  show ?case unfolding x u
  proof (rule wp_attach_network [OF lm], goal_cases)
    case (1 e h')
    then show ?case using w l by (auto intro!: exI [of _ ?k])
  next
    case (2 e e')
    then show ?case using w l nth_mem [OF lm] by (auto intro!: exI [of _ ?k])
  next
    case (3 h')
    then show ?case using w l t nth_mem [OF lm] nth_mem [OF l] by (auto intro!: exI [of _ "Suc ?k"])
  next
    case (4 h')
    then show ?case using w t by auto
  qed
qed auto

section \<open>Releasing the interfaces of a deleted pod\<close>

text \<open>The interface was given back, or its definition is gone.\<close>

definition released :: "string \<Rightarrow> string \<Rightarrow> string \<Rightarrow> history \<Rightarrow> bool" where
  "released ns node name h \<longleftrightarrow>
     (\<exists>n y. GotNad (ns, name) (Inr n) \<in> set h \<and> UpdatedNad (set_nad_label_alloc (nad_label node) ''false'' n) (Inr y) \<in> set h) \<or>
     (\<exists>e. is_not_found e \<and> GotNad (ns, name) (Inl e) \<in> set h)"

lemma released_mono: "released ns node name h \<Longrightarrow> set h \<subseteq> set h' \<Longrightarrow> released ns node name h'"
  by (auto simp: released_def)

lemma wp_release_interface:
  assumes i: "i < length multus"
    and stop: "\<And>es. (\<forall>e\<in>set es. \<forall>q y. e \<noteq> UpdatedPod q y) \<Longrightarrow> Q (Val (Inl None)) (es @ h)"
    and more: "\<And>es. (\<forall>e\<in>set es. \<forall>q y. e \<noteq> UpdatedPod q y) \<Longrightarrow> released ns node (na_name (multus ! i)) es \<Longrightarrow> Q (Val (Inr ())) (es @ h)"
  shows "wp (release_interface E \<lparr>pr_client = InternalClient E s, pr_namespace = ns\<rparr> node multus (i, n) ()) Q h"
proof (cases "GetPortNumberFromNetAttachDef (na_name (multus ! i))")
  case (Inl e)
  then show ?thesis using i stop [of "[]"] by (simp add: release_interface_def nth_go_def wp_simps)
next
  case (Inr k)
  let ?tail = "\<lambda>got. case got of
               Inl e \<Rightarrow> if is_not_found e then ret (Inr ()) else ret (Inl None)
             | Inr netAttachDef \<Rightarrow>
                 gbind (update_nad E (set_nad_label_alloc (nad_label node) ''false'' netAttachDef)) (\<lambda>x. case x of
                   Inl e \<Rightarrow> ret (Inl None)
                 | Inr _ \<Rightarrow> ret (Inr ()))"
  have tail: "wp (gbind (get_nad E (ns, na_name (multus ! i))) ?tail) Q (es @ h)"
    if "\<forall>e\<in>set es. \<forall>q y. e \<noteq> UpdatedPod q y" for es
  proof (cases "e_get_nad E (es @ h) (ns, na_name (multus ! i))")
    case (Inl e)
    then show ?thesis
      using that stop [of "GotNad (ns, na_name (multus ! i)) (Inl e) # es"] more [of "GotNad (ns, na_name (multus ! i)) (Inl e) # es"]
      by (auto simp: wp_simps released_def)
  next
    case (Inr d)
    let ?h = "GotNad (ns, na_name (multus ! i)) (Inr d) # es"
    let ?d = "set_nad_label_alloc (nad_label node) ''false'' d"
    have rel: "released ns node (na_name (multus ! i)) (UpdatedNad ?d (Inr y) # ?h)" for y
      unfolding released_def by (rule disjI1) auto
    show ?thesis
      using that Inr stop [of "UpdatedNad ?d (Inl e) # ?h" for e] more [OF _ rel]
      by (simp add: wp_simps split: sum.split)
  qed
  have "wp (cl_detach (InternalClient E s) ''vnets'' q)
      (\<lambda>r h'. case r of Val a \<Rightarrow> wp (gbind (get_nad E (ns, na_name (multus ! i))) ?tail) Q h'
        | Panic \<Rightarrow> Q Panic h' | Hang \<Rightarrow> Q Hang h') h" for q
    by (rule internal.detach.wp_op)
      (use tail [of "[]"] tail [of "[x]" for x] in \<open>simp_all add: sent_def\<close>)
  then show ?thesis using i Inr by (simp add: release_interface_def nth_go_def wp_gbind split del: if_split)
qed

lemma wp_release_loop:
  assumes len: "length multus = length ns"
  shows "wp (gloop (release_interface E \<lparr>pr_client = InternalClient E s, pr_namespace = sns\<rparr> node multus) (enumerate 0 ns) ())
    (\<lambda>x h'. \<exists>es. h' = es @ h \<and> (\<forall>e\<in>set es. \<forall>q y. e \<noteq> UpdatedPod q y) \<and>
       (x = Val (Inl None) \<or> x = Val (Inr ()) \<and> (\<forall>m\<in>set multus. released sns node (na_name m) es))) h"
proof (rule wp_gloop [where I = "\<lambda>ds u h'. \<exists>es. h' = es @ h \<and> (\<forall>e\<in>set es. \<forall>q y. e \<noteq> UpdatedPod q y) \<and>
       (\<forall>m\<in>set (take (length ds) multus). released sns node (na_name m) es)"], goal_cases)
  case (1 ds x u w)
  then obtain fs where fs: "enumerate 0 ns = ds @ x # fs" by blast
  let ?k = "length ds"
  have l: "?k < length ns" using arg_cong [OF fs, of length] by simp
  have "x = enumerate 0 ns ! ?k" by (simp add: fs)
  then have x: "x = (?k, ns ! ?k)" using l by (simp add: nth_enumerate_eq)
  have lm: "?k < length multus" using l len by simp
  obtain es where es: "w = es @ h" "\<forall>e\<in>set es. \<forall>q y. e \<noteq> UpdatedPod q y"
    "\<forall>m\<in>set (take ?k multus). released sns node (na_name m) es" using 1(2) by blast
  have u: "u = ()" by simp
  show ?case unfolding x u
  proof (rule wp_release_interface [OF lm], goal_cases)
    case (1 gs)
    then show ?case using es by (auto intro!: exI [of _ "gs @ es"])
  next
    case (2 gs)
    have "released sns node (na_name m) (gs @ es)" if "m \<in> set (take ?k multus)" for m
      using es(3) that by (auto intro: released_mono)
    moreover have "released sns node (na_name (multus ! ?k)) (gs @ es)"
      using 2(2) by (rule released_mono) auto
    ultimately show ?case using 2 es lm by (auto simp: take_Suc_conv_app_nth intro!: exI [of _ "gs @ es"])
  qed
qed (use len in auto)


section \<open>Reconcile, branch by branch\<close>

abbreviation reconciler :: "environment \<Rightarrow> session_client \<Rightarrow> string \<Rightarrow> pod_reconciler" where
  "reconciler E s ns \<equiv> \<lparr>pr_client = InternalClient E s, pr_namespace = ns\<rparr>"

definition tracked :: "pod \<Rightarrow> bool" where
  "tracked p \<longleftrightarrow> has_annotation p L2SM_NETWORK_ANNOTATION \<and> has_annotation p MULTUS_ANNOTATION_KEY"

lemma set_finalizers_simps [simp]:
  "pod_node (set_finalizers fs p) = pod_node p" "has_annotation (set_finalizers fs p) k = has_annotation p k"
  "annotation_of (set_finalizers fs p) k = annotation_of p k" "om_finalizers (pod_meta (set_finalizers fs p)) = fs"
  "om_deleted (pod_meta (set_finalizers fs p)) = om_deleted (pod_meta p)"
  by (simp_all add: set_finalizers_def has_annotation_def annotation_of_def)

lemma wp_Reconcile_tracked:
  assumes "e_get_pod E h req = Inr p" "tracked p"
    and "wp (if om_deleted (pod_meta p) then delete_pod E r p else attach_pod E r p) Q (GotPod req (Inr p) # h)"
  shows "wp (Reconcile E r req) Q h"
  using assms by (simp add: Reconcile_def tracked_def wp_simps)

lemma wp_delete_pod:
  "wp (delete_pod E (reconciler E s ns) p) (\<lambda>x h'. x = Val None \<and> (\<exists>es. h' = es @ h \<and>
     (\<forall>q y. UpdatedPod q y \<in> set es \<longrightarrow>
        l2smFinalizer \<notin> set (om_finalizers (pod_meta q)) \<and>
        (\<exists>annots multus. ExtractNetworks (annotation_of p L2SM_NETWORK_ANNOTATION) ns = Inr annots \<and>
           ExtractNetworks (annotation_of p MULTUS_ANNOTATION_KEY) ns = Inr multus \<and> length multus = length annots \<and>
           (\<forall>m\<in>set multus. released ns (pod_node p) (na_name m) es))))) h"
  (is "wp _ ?Q h")
proof -
  obtain annots multus where x: "ExtractNetworks (annotation_of p L2SM_NETWORK_ANNOTATION) ns = Inr annots"
    "ExtractNetworks (annotation_of p MULTUS_ANNOTATION_KEY) ns = Inr multus"
    using ExtractNetworks_total by meson
  let ?p = "set_finalizers (RemoveString (om_finalizers (pod_meta p)) l2smFinalizer) p"
  have loop: "wp (gbind (gloop (release_interface E (reconciler E s ns) (pod_node p) multus) (enumerate 0 annots) ())
      (\<lambda>x. case x of Inl e \<Rightarrow> ret e | Inr _ \<Rightarrow> gbind (update_pod E ?p) (\<lambda>_. ret None))) ?Q h"
    if len: "length multus = length annots"
    unfolding wp_gbind
  proof (rule wp_mono [OF wp_release_loop [OF len]], goal_cases)
    case (1 r w)
    then obtain es where es: "w = es @ h" "\<forall>e\<in>set es. \<forall>q y. e \<noteq> UpdatedPod q y"
      and c: "r = Val (Inl None) \<or> r = Val (Inr ()) \<and> (\<forall>m\<in>set multus. released ns (pod_node p) (na_name m) es)"
      by blast
    from c show ?case
    proof
      assume "r = Val (Inl None)"
      then show ?thesis using es by (auto simp: wp_ret)
    next
      assume r: "r = Val (Inr ()) \<and> (\<forall>m\<in>set multus. released ns (pod_node p) (na_name m) es)"
      let ?u = "UpdatedPod ?p (e_update_pod E w ?p)"
      have "\<forall>m\<in>set multus. released ns (pod_node p) (na_name m) (?u # es)"
        using r by (auto intro: released_mono)
      then show ?thesis using r es x len
        by (auto simp: wp_simps RemoveString_filter intro!: exI [of _ "?u # es"])
    qed
  qed
  then show ?thesis
    by (auto simp: delete_pod_def Let_def x wp_ret split del: if_split split: if_splits)
qed

abbreviation with_finalizer :: "pod \<Rightarrow> pod" where
  "with_finalizer p \<equiv> set_finalizers (om_finalizers (pod_meta p) @ [l2smFinalizer]) p"

text \<open>Which ports were attached: those of the first \<open>k\<close> networks of the stored pod.\<close>

definition attached_prefix :: "environment \<Rightarrow> session_client \<Rightarrow> string \<Rightarrow> pod \<Rightarrow> history \<Rightarrow> history \<Rightarrow> bool" where
  "attached_prefix E s ns p h h' \<longleftrightarrow> (\<exists>annots networks multus k.
     ExtractNetworks (annotation_of p L2SM_NETWORK_ANNOTATION) ns = Inr annots \<and>
     map net_name networks = map na_name annots \<and>
     ExtractNetworks (annotation_of p MULTUS_ANNOTATION_KEY) ns = Inr multus \<and>
     length multus = length networks \<and> k \<le> length networks \<and>
     attached s h' = rev (take k (attach_bodies E (pod_node p) networks multus)) @ attached s h)"

lemma attached_prefix_view:
  "attached s h1 = attached s h \<Longrightarrow> attached_prefix E s ns p h1 h' = attached_prefix E s ns p h h'"
  by (simp add: attached_prefix_def)

lemma collect_networks_names:
  "collect_networks (existing_networks items) ns = (xs, None) \<Longrightarrow> map net_name xs = map na_name ns"
  using collect_networks_ok [of "existing_networks items" ns xs]
  by - (rule nth_equalityI, simp_all, metis existing_networks_name)

lemma wp_attach_pod_networks:
  "wp (attach_pod_networks E (reconciler E s ns) p) (\<lambda>x h'. set h \<subseteq> set h' \<and>
     (attached s h' = attached s h \<or> attached_prefix E s ns p h h')) h"
  (is "wp _ ?Q h")
proof -
  obtain annots multus where x: "ExtractNetworks (annotation_of p L2SM_NETWORK_ANNOTATION) ns = Inr annots"
    "ExtractNetworks (annotation_of p MULTUS_ANNOTATION_KEY) ns = Inr multus"
    using ExtractNetworks_total by meson
  have loop: "wp (gbind (gloop (attach_network E (reconciler E s ns) p multus) (enumerate 0 networks) ())
      (\<lambda>x. case x of Inl e \<Rightarrow> ret e | Inr _ \<Rightarrow> ret None)) ?Q (ListedNets None y # h)"
    if "map net_name networks = map na_name annots" "length multus = length annots" for networks y
  proof -
    have l: "length multus = length networks" using that by (metis length_map)
    have pre: "attached_prefix E s ns p h w"
      if "attached s w = rev (take k (attach_bodies E (pod_node p) networks multus)) @ attached s h" "k \<le> length networks" for k w
      using that x l \<open>map net_name networks = map na_name annots\<close> unfolding attached_prefix_def by blast
    show ?thesis
      unfolding wp_gbind
    proof (rule wp_mono [OF wp_attach_loop [OF l]], goal_cases)
      case (1 r w)
      then have "set h \<subseteq> set w" "attached_prefix E s ns p h w" by (auto intro: pre)
      then show ?case by (cases r) (auto simp: wp_ret split: sum.split)
    qed
  qed
  show ?thesis
  proof (cases "case e_list_nets E h None of Inl e \<Rightarrow> ([], Some e) | Inr items \<Rightarrow> collect_networks (existing_networks items) annots")
    case (Pair networks err)
    show ?thesis
    proof (cases err)
      case None
      then have "map net_name networks = map na_name annots"
        using Pair collect_networks_names by (auto split: sum.splits)
      then show ?thesis
        using loop [of networks] Pair None
        by (auto simp: attach_pod_networks_def x wp_simps Let_def split del: if_split split: if_splits)
    qed (use Pair in \<open>auto simp: attach_pod_networks_def x wp_simps Let_def\<close>)
  qed
qed

lemma wp_attach_pod:
  "wp (attach_pod E (reconciler E s ns) p) (\<lambda>x h'. set h \<subseteq> set h' \<and> (attached s h' = attached s h \<or>
     l2smFinalizer \<notin> set (om_finalizers (pod_meta p)) \<and>
     (\<exists>p2. UpdatedPod (with_finalizer p) (Inr p2) \<in> set h' \<and> attached_prefix E s ns p2 h h'))) h"
proof (cases "l2smFinalizer \<in> set (om_finalizers (pod_meta p))")
  case False
  show ?thesis
  proof (cases "e_update_pod E h (with_finalizer p)")
    case (Inr p2)
    let ?u = "UpdatedPod (with_finalizer p) (Inr p2)"
    have "wp (attach_pod_networks E (reconciler E s ns) p2) (\<lambda>x h'. set h \<subseteq> set h' \<and> (attached s h' = attached s h \<or>
       (\<exists>p2. UpdatedPod (with_finalizer p) (Inr p2) \<in> set h' \<and> attached_prefix E s ns p2 h h'))) (?u # h)"
      by (rule wp_mono [OF wp_attach_pod_networks]) (auto simp: attached_prefix_view [of s "?u # h" h])
    then show ?thesis using False Inr
      by (auto simp: attach_pod_def wp_simps intro!: wp_CreateErrorEvent)
  qed (use False in \<open>auto simp: attach_pod_def wp_simps\<close>)
qed (simp add: attach_pod_def wp_simps)

lemma emits_delete_pod:
  assumes "\<And>b x. P (sent s ''DELETE'' ''/vnets/api/port'' b x)" "\<And>k r. P (GotNad k r)" "\<And>n r. P (UpdatedNad n r)" "\<And>p r. P (UpdatedPod p r)"
  shows "emits P (delete_pod E (reconciler E s ns) p)"
  unfolding delete_pod_def release_interface_def Let_def pod_reconciler.simps
  by (intro emits_intros internal.detach.op_emits assms)

section \<open>Properties\<close>

text \<open>
  C21. Which ports a reconciliation attaches. When it changes what is attached, the pod was
  read undeleted and without the finalizer, the API server accepted the finalizer, and what
  the SDN controller accepted is, in order, a prefix of the list that pairs the \<open>i\<close>-th
  network of the stored pod with the switch port of its \<open>i\<close>-th Multus interface.
\<close>

theorem pod_attaches_prefix:
  assumes "Reconcile E (reconciler E s ns) req h = (x, h')" and "attached s h' \<noteq> attached s h"
  shows "\<exists>p p2 annots networks multus k.
     GotPod req (Inr p) \<in> set h' \<and> \<not> om_deleted (pod_meta p) \<and> l2smFinalizer \<notin> set (om_finalizers (pod_meta p)) \<and>
     UpdatedPod (set_finalizers (om_finalizers (pod_meta p) @ [l2smFinalizer]) p) (Inr p2) \<in> set h' \<and>
     ExtractNetworks (annotation_of p2 L2SM_NETWORK_ANNOTATION) ns = Inr annots \<and>
     map net_name networks = map na_name annots \<and>
     ExtractNetworks (annotation_of p2 MULTUS_ANNOTATION_KEY) ns = Inr multus \<and>
     length multus = length networks \<and> k \<le> length networks \<and>
     attached s h' = rev (take k (attach_bodies E (pod_node p2) networks multus)) @ attached s h"
proof -
  have "wp (Reconcile E (reconciler E s ns) req) (\<lambda>x h'. attached s h' = attached s h \<or>
     (\<exists>p p2. GotPod req (Inr p) \<in> set h' \<and> \<not> om_deleted (pod_meta p) \<and> l2smFinalizer \<notin> set (om_finalizers (pod_meta p)) \<and>
       UpdatedPod (with_finalizer p) (Inr p2) \<in> set h' \<and> attached_prefix E s ns p2 h h')) h"
    (is "wp _ ?Q h")
  proof (cases "e_get_pod E h req")
    case (Inr p)
    show ?thesis
    proof (cases "tracked p")
      case True
      show ?thesis
      proof (rule wp_Reconcile_tracked [OF Inr True])
        have "wp (delete_pod E (reconciler E s ns) p) (\<lambda>x h'. attached s h' = attached s h) (GotPod req (Inr p) # h)"
          by (rule wp_mono [OF wp_view [where f = "accepted_attach s"]]) (auto intro: emits_delete_pod)
        moreover have "wp (attach_pod E (reconciler E s ns) p) (\<lambda>x h'. attached s h' = attached s h \<or>
           (\<exists>p2. GotPod req (Inr p) \<in> set h' \<and> l2smFinalizer \<notin> set (om_finalizers (pod_meta p)) \<and>
             UpdatedPod (with_finalizer p) (Inr p2) \<in> set h' \<and> attached_prefix E s ns p2 h h')) (GotPod req (Inr p) # h)"
          by (rule wp_mono [OF wp_attach_pod])
            (auto simp: attached_prefix_view [of s "GotPod req (Inr p) # h" h])
        ultimately show "wp (if om_deleted (pod_meta p) then delete_pod E (reconciler E s ns) p
            else attach_pod E (reconciler E s ns) p) ?Q (GotPod req (Inr p) # h)"
          by (auto elim!: wp_mono)
      qed
    next
      case False
      then show ?thesis using Inr by (auto simp: Reconcile_def tracked_def wp_simps intro!: wp_CreateErrorEvent)
    qed
  qed (simp add: Reconcile_def wp_simps)
  from wpD [OF this assms(1)] assms(2) show ?thesis unfolding attached_prefix_def by blast
qed


text \<open>
  A pod that carries the finalizer and is not being deleted is settled: reconciling it
  reads it and does nothing else.
\<close>

lemma pod_settled:
  assumes "e_get_pod E h req = Inr p" "\<not> om_deleted (pod_meta p)" "l2smFinalizer \<in> set (om_finalizers (pod_meta p))"
    and "has_annotation p L2SM_NETWORK_ANNOTATION" "has_annotation p MULTUS_ANNOTATION_KEY"
  shows "Reconcile E r req h = (Val None, [GotPod req (Inr p)] @ h)"
  using assms by (simp add: Reconcile_def attach_pod_def run_simps)

text \<open>
  C12. Deleting a pod never reports an error, so controller-runtime never retries it: when
  the pod read is being deleted, the reconciliation returns nil whatever the API server
  and the SDN controller answer. If it stores the pod without the finalizer, every
  interface of the pod was released before (its definition was stored with the label of
  the node set to false, or it was not found).
\<close>

theorem pod_deletion:
  assumes "e_get_pod E h req = Inr p" "om_deleted (pod_meta p)"
    and "has_annotation p L2SM_NETWORK_ANNOTATION" "has_annotation p MULTUS_ANNOTATION_KEY"
  shows "\<exists>es. Reconcile E (reconciler E s ns) req h = (Val None, es @ h) \<and>
     (\<forall>q y. UpdatedPod q y \<in> set es \<longrightarrow>
        (\<exists>annots multus. ExtractNetworks (annotation_of p L2SM_NETWORK_ANNOTATION) ns = Inr annots \<and>
           ExtractNetworks (annotation_of p MULTUS_ANNOTATION_KEY) ns = Inr multus \<and> length multus = length annots \<and>
           l2smFinalizer \<notin> set (om_finalizers (pod_meta q)) \<and>
           (\<forall>m\<in>set multus.
              (\<exists>n y. GotNad (ns, na_name m) (Inr n) \<in> set es \<and>
                 UpdatedNad (set_nad_label_alloc (''used-'' @ pod_node p) ''false'' n) (Inr y) \<in> set es) \<or>
              (\<exists>e. is_not_found e \<and> GotNad (ns, na_name m) (Inl e) \<in> set es))))"
proof -
  let ?g = "GotPod req (Inr p)"
  obtain x w where r: "Reconcile E (reconciler E s ns) req h = (x, w)" by fastforce
  have "wp (Reconcile E (reconciler E s ns) req) (\<lambda>x h'. x = Val None \<and> (\<exists>es. h' = es @ ?g # h \<and>
     (\<forall>q y. UpdatedPod q y \<in> set es \<longrightarrow>
        l2smFinalizer \<notin> set (om_finalizers (pod_meta q)) \<and>
        (\<exists>annots multus. ExtractNetworks (annotation_of p L2SM_NETWORK_ANNOTATION) ns = Inr annots \<and>
           ExtractNetworks (annotation_of p MULTUS_ANNOTATION_KEY) ns = Inr multus \<and> length multus = length annots \<and>
           (\<forall>m\<in>set multus. released ns (pod_node p) (na_name m) es))))) h"
    using assms
    by (intro wp_Reconcile_tracked)
      (auto simp: tracked_def RemoveString_filter intro!: wp_mono [OF wp_delete_pod])
  from wpD [OF this r] obtain es where es: "x = Val None" "w = es @ ?g # h"
    and rel: "\<And>q y. UpdatedPod q y \<in> set es \<Longrightarrow> l2smFinalizer \<notin> set (om_finalizers (pod_meta q)) \<and>
        (\<exists>annots multus. ExtractNetworks (annotation_of p L2SM_NETWORK_ANNOTATION) ns = Inr annots \<and>
           ExtractNetworks (annotation_of p MULTUS_ANNOTATION_KEY) ns = Inr multus \<and> length multus = length annots \<and>
           (\<forall>m\<in>set multus. released ns (pod_node p) (na_name m) es))" by blast
  have "released ns (pod_node p) n es \<Longrightarrow> released ns (pod_node p) n (es @ [?g])" for n
    by (rule released_mono) auto
  then show ?thesis
    using r es rel unfolding released_def nad_label_def NET_ATTACH_LABEL_PREFIX_def
    by (intro exI [of _ "es @ [?g]"]) fastforce
qed

section \<open>Runs of the controller\<close>

definition finalized :: "history \<Rightarrow> bool" where
  "finalized h \<longleftrightarrow> (\<exists>p p2. UpdatedPod p (Inr p2) \<in> set h \<and> l2smFinalizer \<in> set (om_finalizers (pod_meta p)))"

definition attach_guard :: "session_client \<Rightarrow> event \<Rightarrow> history \<Rightarrow> bool" where
  "attach_guard s e h \<longleftrightarrow> (accepted_attach s e \<noteq> None \<longrightarrow> finalized h)"

lemma attach_guard_mono: "attach_guard s e h \<Longrightarrow> attach_guard s e (es @ h)"
  by (auto simp: attach_guard_def finalized_def)

lemma attach_guard_simps [simp]:
  "accepted_attach s e = None \<Longrightarrow> attach_guard s e h" "finalized h \<Longrightarrow> attach_guard s e h"
  by (simp_all add: attach_guard_def)

lemma emits_attach_pod_networks: "emits (\<lambda>e. True) (attach_pod_networks E (reconciler E s ns) p)"
  unfolding attach_pod_networks_def attach_network_def CreateDNSEntry_def AddDNSEntry_def dns_add_def Let_def pod_reconciler.simps
  by (intro emits_intros internal.attach.op_emits emits_call TrueI)

lemma Reconcile_guarded:
  assumes "guarded (attach_guard s) h"
  shows "wp (Reconcile E (reconciler E s ns) req) (\<lambda>x h'. guarded (attach_guard s) h') h"
proof (cases "e_get_pod E h req")
  case (Inr p)
  let ?h = "GotPod req (Inr p) # h"
  have g: "guarded (attach_guard s) ?h" using assms by simp
  have del: "wp (delete_pod E (reconciler E s ns) p) (\<lambda>x h'. guarded (attach_guard s) h') ?h"
    by (rule wp_mono [OF wp_guarded [OF emits_delete_pod attach_guard_mono g]]) simp_all
  have att: "wp (attach_pod E (reconciler E s ns) p) (\<lambda>x h'. guarded (attach_guard s) h') ?h"
  proof (cases "e_update_pod E ?h (with_finalizer p)")
    case (Inr p2)
    let ?h2 = "UpdatedPod (with_finalizer p) (Inr p2) # ?h"
    have f: "finalized ?h2" by (auto simp: finalized_def)
    have g2: "guarded (attach_guard s) ?h2" using g by simp
    have "wp (attach_pod_networks E (reconciler E s ns) p2) (\<lambda>x h'. guarded (attach_guard s) h') ?h2"
      by (rule wp_mono [OF wp_guarded [OF emits_weaken [OF emits_attach_pod_networks] attach_guard_mono g2]])
        (simp_all add: f)
    then show ?thesis using g Inr
      by (auto simp: attach_pod_def wp_simps intro!: wp_CreateErrorEvent)
  qed (use g in \<open>auto simp: attach_pod_def wp_simps\<close>)
  show ?thesis
  proof (cases "tracked p")
    case True
    show ?thesis by (rule wp_Reconcile_tracked [OF Inr True]) (use del att in simp)
  next
    case False
    then show ?thesis using Inr g by (auto simp: Reconcile_def tracked_def wp_simps intro!: wp_CreateErrorEvent)
  qed
qed (use assms in \<open>simp add: Reconcile_def wp_simps\<close>)

interpretation pods: controller "Reconcile E (reconciler E s ns)" "\<lambda>e. accepted_attach s e = None" "attach_guard s"
  for E s ns
  by unfold_locales (simp_all add: Reconcile_guarded)

text \<open>
  C4. In every run, whatever the API server and the SDN controller answer and whoever else
  acts in between: before an attachment is accepted for a pod, a pod was stored with the
  finalizer.
\<close>

theorem pod_finalizer_guards_attach:
  assumes "controller_run (Reconcile E (reconciler E s ns)) (\<lambda>e. accepted_attach s e = None) h"
    and "h = es @ e # h0" "accepted_attach s e \<noteq> None"
  shows "\<exists>p p2. UpdatedPod p (Inr p2) \<in> set h0 \<and> l2smFinalizer \<in> set (om_finalizers (pod_meta p))"
  using pods.run_event assms unfolding attach_guard_def finalized_def by blast

section \<open>A pod with one network\<close>

definition ping :: pod where
  "ping = \<lparr>pod_meta = (new_meta ''ping'' ''default'')\<lparr>om_annotations := Some [L2SM_NETWORK_ANNOTATION \<mapsto> ''net'',
     MULTUS_ANNOTATION_KEY \<mapsto> ''veth3'']\<rparr>, pod_node = ''n1''\<rparr>"

definition a_network :: l2network where
  "a_network = \<lparr>net_meta = new_meta ''net'' ''default'',
     net_spec = \<lparr>ns_type = NetworkTypeVnet, ns_config = None, ns_provider = None, ns_network_cidr = [],
       ns_pod_address_range = [], ns_ids = None\<rparr>,
     net_status = \<lparr>st_connected_pods = 0, st_last_assigned_ip = [], st_assigned_ips = None,
       st_internal = None, st_provider = None\<rparr>\<rparr>"

text \<open>An API server that stores the finalizer, and an SDN controller that answers \<open>code\<close>.\<close>

definition ping_env :: "nat \<Rightarrow> environment" where
  "ping_env code = quiet_env\<lparr>
     e_get_pod := (\<lambda>h _. Inr (if \<exists>r. UpdatedPod (with_finalizer ping) r \<in> set h then with_finalizer ping else ping)),
     e_list_nets := (\<lambda>_ _. Inr [a_network]),
     e_http := (\<lambda>_ _ _ _ _. Inr code)\<rparr>"

lemma ping_simps:
  "has_annotation ping L2SM_NETWORK_ANNOTATION" "has_annotation ping MULTUS_ANNOTATION_KEY"
  "annotation_of ping L2SM_NETWORK_ANNOTATION = ''net''" "annotation_of ping MULTUS_ANNOTATION_KEY = ''veth3''"
  "om_finalizers (pod_meta ping) = []" "\<not> om_deleted (pod_meta ping)" "pod_node ping = ''n1''"
  by (simp_all add: ping_def has_annotation_def annotation_of_def new_meta_def L2SM_NETWORK_ANNOTATION_def MULTUS_ANNOTATION_KEY_def)

lemma ping_networks:
  "ExtractNetworks ''net'' ''l2sm'' = Inr [new_annotation\<lparr>na_name := ''net'', na_namespace := ''l2sm''\<rparr>]"
  "ExtractNetworks ''veth3'' ''l2sm'' = Inr [new_annotation\<lparr>na_name := ''veth3'', na_namespace := ''l2sm''\<rparr>]"
  "GetPortNumberFromNetAttachDef ''veth3'' = Inr ''3''"
  by code_simp+

abbreviation ping_session :: session_client where
  "ping_session \<equiv> NewSessionClient ''http://sdn'' [] []"

abbreviation ping_request :: "nat \<Rightarrow> event" where
  "ping_request code \<equiv> sent ping_session ''POST'' ''/vnets/api/port'' (payload_json (payload ''net'' [''of:n1/3''])) (Inr code)"

lemma ping_run:
  "Reconcile (ping_env code) (reconciler (ping_env code) ping_session ''l2sm'') (''default'', ''ping'') [] =
    (Val None, [ping_request code, ListedNets None (Inr [a_network]),
      UpdatedPod (with_finalizer ping) (Inr (with_finalizer ping)), GotPod (''default'', ''ping'') (Inr ping)])"
  by (simp add: Reconcile_def attach_pod_def attach_pod_networks_def ping_simps ping_networks GetL2Networks_def
      existing_networks_def ping_env_def quiet_env_def run_simps a_network_def new_annotation_def enumerate_eq_zip
      attach_network_def InternalClient_def internal_AttachPodToNetwork_def Post_def newRequest_def Do_def
      expect_status_def sent_def of_port_def new_meta_def)

text \<open>
  A pod that can be attached is: when the finalizer is stored, all its networks exist,
  every interface name has a port number and the controller accepts, one reconciliation
  attaches every interface to its network and returns without an error.
\<close>

lemma attach_complete:
  assumes p: "e_get_pod E h req = Inr p" "\<not> om_deleted (pod_meta p)" "l2smFinalizer \<notin> set (om_finalizers (pod_meta p))"
      "has_annotation p L2SM_NETWORK_ANNOTATION" "has_annotation p MULTUS_ANNOTATION_KEY"
    and p2: "e_update_pod E (GotPod req (Inr p) # h) (with_finalizer p) = Inr p2" "has_annotation p2 MULTUS_ANNOTATION_KEY"
    and annots: "ExtractNetworks (annotation_of p2 L2SM_NETWORK_ANNOTATION) ns = Inr annots"
    and multus: "ExtractNetworks (annotation_of p2 MULTUS_ANNOTATION_KEY) ns = Inr multus" "length multus = length annots"
    and nets: "e_list_nets E (UpdatedPod (with_finalizer p) (Inr p2) # GotPod req (Inr p) # h) None = Inr items"
      "collect_networks (existing_networks items) annots = (networks, None)"
    and ports: "\<forall>m\<in>set multus. \<exists>i. GetPortNumberFromNetAttachDef (na_name m) = Inr i"
    and ips: "(\<forall>m\<in>set multus. na_ips m \<noteq> []) \<or> (\<forall>n\<in>set networks. ns_provider (net_spec n) = None)"
    and sdn: "e_url_error E (sc_base_url s @ ''/vnets/api/port'') = None"
      "\<forall>h b. e_http E h ''POST'' (sc_base_url s @ ''/vnets/api/port'') (''Basic '' @ sc_auth_token s) b = Inr 204"
  shows "\<exists>h'. Reconcile E (reconciler E s ns) req h = (Val None, h') \<and>
    attached s h' = rev (attach_bodies E (pod_node p2) networks multus) @ attached s h"
proof -
  let ?h = "UpdatedPod (with_finalizer p) (Inr p2) # GotPod req (Inr p) # h"
  have len: "length multus = length networks"
    using collect_networks_ok [OF nets(2)] multus(2) by simp
  have yes: "cl_attach (InternalClient E s) t q g \<noteq> (Val (Some e), g')" for t q g e g'
    using sdn by (simp add: InternalClient_def internal_AttachPodToNetwork_def Post_def newRequest_def Do_def run_simps expect_status_def)
  have loop: "wp (gloop (attach_network E (reconciler E s ns) p2 multus) (enumerate 0 networks) ())
     (\<lambda>x h'. x = Val (Inr ()) \<and> attached s h' = rev (attach_bodies E (pod_node p2) networks multus) @ attached s h)
     (ListedNets None (Inr items) # ?h)"
  proof (rule wp_mono [OF wp_attach_loop [OF len]], goal_cases)
    case (1 x w)
    then obtain k where k: "attached s w = rev (take k (attach_bodies E (pod_node p2) networks multus)) @ attached s h"
      and c: "case x of
          Val (Inr u) \<Rightarrow> k = length networks
        | Val (Inl None) \<Rightarrow> \<exists>q h1 e h2. cl_attach (InternalClient E s) ''vnets'' q h1 = (Val (Some e), h2)
        | Val (Inl (Some e)) \<Rightarrow> \<exists>m\<in>set multus. \<exists>e. GetPortNumberFromNetAttachDef (na_name m) = Inl e
        | Panic \<Rightarrow> (\<exists>m\<in>set multus. na_ips m = []) \<and> (\<exists>n\<in>set networks. ns_provider (net_spec n) \<noteq> None)
        | Hang \<Rightarrow> False" by auto
    have "x = Val (Inr ()) \<and> k = length networks"
    proof (cases x)
      case (Val v)
      show ?thesis
      proof (cases v)
        case (Inl e)
        then show ?thesis
        proof (cases e)
          case (Some e')
          then show ?thesis using c Val Inl ports by fastforce
        qed (use c Val Inl yes in simp)
      qed (use c Val in simp)
    next
      case Panic
      then show ?thesis using c ips by auto
    qed (use c in simp)
    then show ?case using k len by (simp add: attach_bodies_def)
  qed
  have "wp (Reconcile E (reconciler E s ns) req)
     (\<lambda>x h'. x = Val None \<and> attached s h' = rev (attach_bodies E (pod_node p2) networks multus) @ attached s h) h"
    using p p2 annots multus nets
    by (auto simp: Reconcile_def attach_pod_def attach_pod_networks_def wp_simps Let_def intro!: wp_mono [OF loop])
  then show ?thesis by (rule wp_run)
qed

text \<open>
  C37. A refused attachment is final: when the controller answers anything but 204, the
  reconciliation of a new pod returns nil with the pod unattached, and the next one reads
  the pod, finds the finalizer and does nothing.
\<close>

theorem refused_attach_not_retried:
  assumes p: "e_get_pod E h req = Inr p" "\<not> om_deleted (pod_meta p)" "l2smFinalizer \<notin> set (om_finalizers (pod_meta p))"
      "has_annotation p L2SM_NETWORK_ANNOTATION" "has_annotation p MULTUS_ANNOTATION_KEY"
    and p2: "e_update_pod E (GotPod req (Inr p) # h) (with_finalizer p) = Inr p2" "\<not> om_deleted (pod_meta p2)"
      "l2smFinalizer \<in> set (om_finalizers (pod_meta p2))" "has_annotation p2 L2SM_NETWORK_ANNOTATION" "has_annotation p2 MULTUS_ANNOTATION_KEY"
    and annots: "ExtractNetworks (annotation_of p2 L2SM_NETWORK_ANNOTATION) ns = Inr annots"
    and multus: "ExtractNetworks (annotation_of p2 MULTUS_ANNOTATION_KEY) ns = Inr (m # ms)" "length (m # ms) = length annots"
    and nets: "e_list_nets E (UpdatedPod (with_finalizer p) (Inr p2) # GotPod req (Inr p) # h) None = Inr items"
      "collect_networks (existing_networks items) annots = (network # networks, None)"
    and port: "GetPortNumberFromNetAttachDef (na_name m) = Inr port"
    and sdn: "e_url_error E (sc_base_url s @ ''/vnets/api/port'') = None"
      "\<forall>h b. e_http E h ''POST'' (sc_base_url s @ ''/vnets/api/port'') (''Basic '' @ sc_auth_token s) b = Inr code" "code \<noteq> 204"
  shows "\<exists>h'. Reconcile E (reconciler E s ns) req h = (Val None, h') \<and>
    sent s ''POST'' ''/vnets/api/port'' (attach_body E (pod_node p2) network m) (Inr code) \<in> set h' \<and> attached s h' = attached s h \<and>
    (e_get_pod E h' req = Inr p2 \<longrightarrow> Reconcile E (reconciler E s ns) req h' = (Val None, GotPod req (Inr p2) # h'))"
proof -
  let ?h = "sent s ''POST'' ''/vnets/api/port'' (attach_body E (pod_node p2) network m) (Inr code) #
    ListedNets None (Inr items) # UpdatedPod (with_finalizer p) (Inr p2) # GotPod req (Inr p) # h"
  have "Reconcile E (reconciler E s ns) req h = (Val None, ?h)"
    using assms by (simp add: Reconcile_def attach_pod_def attach_pod_networks_def GetL2Networks_def run_simps attach_network_def
      InternalClient_def internal_AttachPodToNetwork_def Post_def newRequest_def Do_def expect_status_def sent_def attach_body_def)
  moreover have "attached s ?h = attached s h" using sdn(3) by simp
  ultimately show ?thesis using pod_settled [OF _ p2(2-5)] by (intro exI [of _ ?h]) simp
qed

theorem refused_attach_not_retried_witness:
  "\<exists>h. Reconcile (ping_env 500) (reconciler (ping_env 500) ping_session ''l2sm'') (''default'', ''ping'') [] = (Val None, h) \<and>
    ping_request 500 \<in> set h"
proof -
  let ?m = "new_annotation\<lparr>na_name := ''veth3'', na_namespace := ''l2sm''\<rparr>"
  have b: "attach_body (ping_env 500) ''n1'' a_network ?m = payload_json (payload ''net'' [''of:n1/3''])"
    by (simp add: attach_body_def ping_networks of_port_def ping_env_def quiet_env_def a_network_def new_annotation_def new_meta_def)
  show ?thesis
    using refused_attach_not_retried [of "ping_env 500" "[]" "(''default'', ''ping'')" ping "with_finalizer ping" "''l2sm''" _ ?m "[]"
        "[a_network]" a_network "[]" "''3''" ping_session 500]
    by (simp add: ping_simps ping_networks b)
      (simp add: ping_env_def quiet_env_def existing_networks_def a_network_def new_annotation_def new_meta_def ping_networks, blast)
qed

theorem pod_attaches_prefix_witness:
  "\<exists>p p2. GotPod (''default'', ''ping'') (Inr p) \<in>
       set [ping_request 204, ListedNets None (Inr [a_network]),
      UpdatedPod (with_finalizer ping) (Inr (with_finalizer ping)), GotPod (''default'', ''ping'') (Inr ping)] \<and>
     UpdatedPod (with_finalizer p) (Inr p2) \<in>
       set [ping_request 204, ListedNets None (Inr [a_network]),
      UpdatedPod (with_finalizer ping) (Inr (with_finalizer ping)), GotPod (''default'', ''ping'') (Inr ping)]"
  using pod_attaches_prefix [OF ping_run [of 204]] by fastforce

theorem pod_deletion_witness:
  "\<exists>es. Reconcile (quiet_env\<lparr>e_get_pod := \<lambda>_ _. Inr (ping\<lparr>pod_meta := (pod_meta ping)\<lparr>om_deleted := True, om_finalizers := [l2smFinalizer]\<rparr>\<rparr>)\<rparr>)
     (reconciler (quiet_env\<lparr>e_get_pod := \<lambda>_ _. Inr (ping\<lparr>pod_meta := (pod_meta ping)\<lparr>om_deleted := True, om_finalizers := [l2smFinalizer]\<rparr>\<rparr>)\<rparr>)
        ping_session ''l2sm'') (''default'', ''ping'') [] = (Val None, es)"
  using pod_deletion [of "quiet_env\<lparr>e_get_pod := \<lambda>_ _. Inr (ping\<lparr>pod_meta := (pod_meta ping)\<lparr>om_deleted := True, om_finalizers := [l2smFinalizer]\<rparr>\<rparr>)\<rparr>"
      "[]" "(''default'', ''ping'')" "ping\<lparr>pod_meta := (pod_meta ping)\<lparr>om_deleted := True, om_finalizers := [l2smFinalizer]\<rparr>\<rparr>" ping_session "''l2sm''"]
    ping_simps by (auto simp: has_annotation_def)

theorem pod_finalizer_guards_attach_witness:
  "\<exists>p p2. UpdatedPod p (Inr p2) \<in> set [ListedNets None (Inr [a_network]),
      UpdatedPod (with_finalizer ping) (Inr (with_finalizer ping)), GotPod (''default'', ''ping'') (Inr ping)] \<and>
     l2smFinalizer \<in> set (om_finalizers (pod_meta p))"
proof -
  have "controller_run (Reconcile (ping_env 204) (reconciler (ping_env 204) ping_session ''l2sm''))
      (\<lambda>e. accepted_attach ping_session e = None) ([] @ ping_request 204 # [ListedNets None (Inr [a_network]),
      UpdatedPod (with_finalizer ping) (Inr (with_finalizer ping)), GotPod (''default'', ''ping'') (Inr ping)])"
    unfolding append_Nil
    by (rule controller_run.reconcile [where k = "(''default'', ''ping'')" and h = "[]"]) (rule controller_run.start, rule ping_run)
  then show ?thesis by (rule pod_finalizer_guards_attach [OF _ refl]) simp
qed

end
