(* ===== verification/Ids.thy ===== *)
theory Ids
  imports Types Utils Annotations
begin

text \<open>
  \<^verbatim>\<open>internal/ids/ids.go\<close>: the config map with the rules of a network's intrusion detection
  system and the deployment that mounts it together with the config maps the user refers to.
\<close>

definition rules_text :: "ids_rules \<Rightarrow> string" where
  "rules_text idsRules =
     (let nl = [CHR 0x0A];
          home = (if ids_home_net idsRules = [] then ''var HOME_NET any'' @ nl
            else ''var HOME_NET ['' @ join '','' (ids_home_net idsRules) @ '']'' @ nl);
          external = ''var EXTERNAL_NET !$HOME_NET'' @ nl;
          block = (\<lambda>source. if rs_inline source \<noteq> []
            then nl @ ''# Source: '' @ rs_name source @ nl @ rs_inline source @ nl else [])
      in home @ external @ concat (map block (ids_custom_sources idsRules)))"

text \<open>The nil \<^verbatim>\<open>Ids\<close> is dereferenced; \<open>GenerateExternalResources\<close> checks it first.\<close>

definition constructConfigMap :: "l2network \<Rightarrow> string \<Rightarrow> (err + config_map) flow" where
  "constructConfigMap network namespace =
     (case ns_ids (net_spec network) of
        None \<Rightarrow> Panic
      | Some idsRules \<Rightarrow> Val (Inr \<lparr>cm_meta = new_meta (GenerateIdsCMName (net_name network)) namespace,
          cm_data = Some [''suricata.rules'' \<mapsto> rules_text idsRules]\<rparr>))"

definition projected_sources :: "ids_rules \<Rightarrow> string \<Rightarrow> string list" where
  "projected_sources idsRules networkName =
     GenerateIdsCMName networkName # List.map_filter rs_config_map_ref (ids_custom_sources idsRules)"

definition suricata_labels :: "string \<rightharpoonup> string" where
  "suricata_labels = [''app'' \<mapsto> ''suricata-ids'', ''l2sm/component'' \<mapsto> ''ids'']"

definition suricata_container :: container where
  "suricata_container = (new_container ''suricata'' ''jasonish/suricata:latest'')
     \<lparr>ct_command := [''/bin/bash'', ''-c''],
      ct_args := [''suricata -D -i net1 && touch /var/log/suricata/fast.log && tail -f /var/log/suricata/fast.log -s 1''],
      ct_privileged := True,
      ct_capabilities := [''NET_ADMIN'', ''NET_RAW'', ''IPC_LOCK''],
      ct_mounts := [\<lparr>vm_name = ''rules-volume'', vm_path = ''/var/lib/suricata/rules'', vm_sub_path = [], vm_read_only = True\<rparr>]\<rparr>"

definition generateSuricataDeployment :: "ids_rules \<Rightarrow> string \<Rightarrow> string \<Rightarrow> string \<Rightarrow> workload" where
  "generateSuricataDeployment idsRules networkName netAttachAnnotation namespace =
     \<lparr>wl_meta = new_meta (GenerateIdsDeployname networkName) namespace,
      wl_replicas = None,
      wl_selector = Some suricata_labels,
      wl_labels = Some suricata_labels,
      wl_annotations = Some [MULTUS_ANNOTATION_KEY \<mapsto> netAttachAnnotation],
      wl_pod = new_pod_spec
        \<lparr>ps_containers := [suricata_container],
         ps_node_name := ids_node idsRules,
         ps_volumes := [\<lparr>vol_name = ''rules-volume'', vol_source = ProjectedSource (projected_sources idsRules networkName)\<rparr>]\<rparr>\<rparr>"

definition GenerateExternalResources :: "l2network option \<Rightarrow> string \<Rightarrow> (err + obj list) flow" where
  "GenerateExternalResources networkp netAttachString =
     (case networkp of
        None \<Rightarrow> Val (Inl (errorf ''network is nil'' []))
      | Some network \<Rightarrow> (case ns_ids (net_spec network) of
          None \<Rightarrow> Val (Inl (errorf ''ids configuration is nil'' []))
        | Some idsRules \<Rightarrow>
            (let namespace = (if ids_namespace idsRules = [] then om_namespace (net_meta network) else ids_namespace idsRules)
             in case constructConfigMap network namespace of
                  Panic \<Rightarrow> Panic
                | Hang \<Rightarrow> Hang
                | Val (Inl e) \<Rightarrow> Val (Inl (Errorf ''failed to construct configmap: %w'' [] (Some e)))
                | Val (Inr cm) \<Rightarrow> Val (Inr [OConfigMap cm,
                    ODeployment (generateSuricataDeployment idsRules (net_name network) netAttachString namespace)]))))"

lemma GenerateExternalResources_ids:
  assumes "ns_ids (net_spec network) = Some rules"
  shows "\<exists>cm d. GenerateExternalResources (Some network) annot = Val (Inr [OConfigMap cm, ODeployment d])"
  using assms by (simp add: GenerateExternalResources_def constructConfigMap_def Let_def)

section \<open>Properties\<close>

text \<open>
  For a network with an IDS the two resources fit together: they live in the requested
  namespace (the network's own when none is given), the deployment runs on the requested
  node with the interface annotation, its single volume projects the generated rules first
  and then exactly the config maps the sources refer to, in order, and the rules do not
  depend on the fields \<^verbatim>\<open>UseETOpen\<close>, \<^verbatim>\<open>IgnorePorts\<close> and \<^verbatim>\<open>Profile\<close>.
\<close>

lemma ids_resources:
  assumes "ns_ids (net_spec network) = Some rules"
  shows "\<exists>cm d. GenerateExternalResources (Some network) annot = Val (Inr [OConfigMap cm, ODeployment d]) \<and>
     om_namespace (cm_meta cm) = (if ids_namespace rules = [] then om_namespace (net_meta network) else ids_namespace rules) \<and>
     om_namespace (wl_meta d) = om_namespace (cm_meta cm) \<and>
     ps_node_name (wl_pod d) = ids_node rules \<and>
     map_get (wl_annotations d) MULTUS_ANNOTATION_KEY = Some annot \<and>
     map vol_source (ps_volumes (wl_pod d)) =
       [ProjectedSource (om_name (cm_meta cm) # [n. Some n \<leftarrow> map rs_config_map_ref (ids_custom_sources rules)])] \<and>
     (\<forall>et ports prof. map_get (cm_data cm) ''suricata.rules'' =
        Some (rules_text (rules\<lparr>ids_use_et_open := et, ids_ignore_ports := ports, ids_profile := prof\<rparr>)))"
proof -
  have "List.map_filter f xs = [n. Some n \<leftarrow> map f xs]" for f :: "'a \<Rightarrow> 'b option" and xs
    by (induction xs) (auto simp: List.map_filter_def split: option.split)
  then show ?thesis
    using assms by (simp add: GenerateExternalResources_def constructConfigMap_def Let_def generateSuricataDeployment_def
        new_pod_spec_def new_meta_def projected_sources_def rules_text_def)
qed

definition sample_ids :: ids_rules where
  "sample_ids = \<lparr>ids_enabled = True, ids_home_net = [''10.10.0.0/24''], ids_use_et_open = False,
     ids_custom_sources = [\<lparr>rs_name = ''external'', rs_url = [], rs_inline = [], rs_config_map_ref = Some ''rules''\<rparr>],
     ids_ignore_ports = [], ids_node = ''node-a'', ids_profile = [], ids_namespace = []\<rparr>"

end
