(* ===== verification/NetworkController.thy ===== *)
theory NetworkController
  imports PodUtils SdnClient Ids
begin

text \<open>
  \<^verbatim>\<open>internal/controller/l2network_controller.go\<close>: the reconciler that creates a network in the
  SDN controller when the resource appears and deletes it with the resource; a network with a
  provider is connected through a network edge device, and one with an IDS gets a mirror port
  and the resources of Ids. The finalizer marks a network as created. The creation branch is
  split at its two optional parts, \<open>connect_provider\<close> and \<open>setup_ids\<close>; in their results
  \<open>Inl v\<close> is a \<^verbatim>\<open>return\<close> of \<open>Reconcile\<close>.
\<close>

section \<open>Code\<close>

record network_reconciler =
  nr_client :: sdn_client
  nr_namespace :: string

definition provider_url :: "provider_spec \<Rightarrow> string" where
  "provider_url provider = ''http://'' @ fmt_strings (pv_domain provider) @ '':'' @
     DefaultIfEmpty (pv_sdn_port provider) ''30808'' @ ''/onos''"

definition interDomainReconcile :: "environment \<Rightarrow> l2network \<Rightarrow> (history, connectivity_status \<times> err option) go" where
  "interDomainReconcile E network =
     (case ns_provider (net_spec network) of
        None \<Rightarrow> ret (UnknownStatus, Some (errorf ''ext-vnet doesn't have a provider specified'' []))
      | Some provider \<Rightarrow>
          gbind (NewClient E InternalType (karaf_config (provider_url provider))) (\<lambda>r. case r of
            Inl e \<Rightarrow> ret (OfflineStatus, Some (Errorf ''could not initialize session with external provider: %v'' [] (Some e)))
          | Inr externalClient \<Rightarrow>
              gbind (cl_exists externalClient (ns_type (net_spec network)) (net_name network)) (\<lambda>x. case x of
                Inl e \<Rightarrow> ret (UnknownStatus, Some e)
              | Inr True \<Rightarrow> ret (OnlineStatus, None)
              | Inr False \<Rightarrow>
                  gbind (cl_create externalClient (ns_type (net_spec network)) (payload (net_name network) [])) (\<lambda>err.
                    ret (case err of Some e \<Rightarrow> (OfflineStatus, Some e) | None \<Rightarrow> (OnlineStatus, None))))))"

text \<open>The network as it is in memory after the call: the API server's reply replaces it.\<close>

definition updateControllerStatus ::
  "environment \<Rightarrow> l2network \<Rightarrow> connectivity_status \<Rightarrow> (history, l2network \<times> err option) go" where
  "updateControllerStatus E network status =
     (let network = network\<lparr>net_status := (net_status network)\<lparr>st_internal := Some status\<rparr>\<rparr>
      in gbind (update_net_status E network) (\<lambda>x. ret (case x of
           Inl e \<Rightarrow> (network, Some e) | Inr stored \<Rightarrow> (stored, None))))"

definition ConnectInternalSwitchToNED ::
  "environment \<Rightarrow> network_reconciler \<Rightarrow> string \<Rightarrow> string \<Rightarrow> string \<Rightarrow> (history, err + nad) go" where
  "ConnectInternalSwitchToNED E r networkName nedNodeName providerName =
     (let label = nad_label nedNodeName
      in gbind (GetFreeNetAttachDefs E (nr_namespace r) label) (\<lambda>nads. case nads of
           [] \<Rightarrow> ret (Inl (errorf ''no interfaces available in control plane node'' []))
         | netAttachDef # _ \<Rightarrow>
             (let portNumber = (case GetPortNumberFromNetAttachDef (nad_name netAttachDef) of Inr p \<Rightarrow> p | Inl _ \<Rightarrow> [])
              in gbind (cl_attach (nr_client r) ''vnets''
                   (payload networkName [of_port E nedNodeName OVERLAY_PROVIDER portNumber])) (\<lambda>err. case err of
                   Some e \<Rightarrow> ret (Inl (Errorf
                     ''could not make a connection between the internal switch and the NED. Internal SDN controller error: %s''
                     [] (Some e)))
                 | None \<Rightarrow>
                     gbind (glift (set_nad_label label ''true'' netAttachDef)) (\<lambda>d.
                     gbind (update_nad E d) (\<lambda>x. ret (case x of
                       Inl e \<Rightarrow> Inl (Errorf ''could not update network attachment definition: %s'' [] (Some e))
                     | Inr stored \<Rightarrow> Inr stored)))))))"

definition CreateNewNEDConnection ::
  "environment \<Rightarrow> l2network \<Rightarrow> string \<Rightarrow> network_edge_device \<Rightarrow> (history, err option) go" where
  "CreateNewNEDConnection E network nedNetworkAttachDef ned =
     (case ns_provider (net_spec network) of
        None \<Rightarrow> gpanic
      | Some provider \<Rightarrow>
          gbind (NewClient E InternalType (karaf_config (provider_url provider))) (\<lambda>r. case r of
            Inl e \<Rightarrow> ret (Some (Errorf ''no connection could be made with external sdn controller: %s'' [] (Some e)))
          | Inr externalClient \<Rightarrow>
              (case ned_node_config ned of
                 None \<Rightarrow> gpanic
               | Some nc \<Rightarrow>
                   gbind (AttachInterface E (nc_address nc @ '':50051'') nedNetworkAttachDef) (\<lambda>x. case x of
                     Inl e \<Rightarrow> ret (Some (Errorf ''no connection could be made with ned: %v'' [] (Some e)))
                   | Inr nedPortNumber \<Rightarrow>
                       gbind (cl_attach externalClient (ns_type (net_spec network))
                           (payload (net_name network) [of_port E (nc_node nc) (pv_name provider) nedPortNumber]))
                         (\<lambda>err. ret (map_option (\<lambda>e. Errorf
                            (''%w'' @ [CHR 0x0A] @ ''could not update network attachment definition'') [] (Some e)) err))))))"

definition set_net_finalizers :: "string list \<Rightarrow> l2network \<Rightarrow> l2network" where
  "set_net_finalizers fs n = n\<lparr>net_meta := (net_meta n)\<lparr>om_finalizers := fs\<rparr>\<rparr>"

definition port_error :: "err \<Rightarrow> err" where
  "port_error e = Errorf (''could not get port number from the multus network annotation: %v. Can'' @ [CHR 0x27] @
     ''t attach pod to network'') [] (Some e)"

definition connect_provider ::
  "environment \<Rightarrow> network_reconciler \<Rightarrow> l2network \<Rightarrow> (history, err option + l2network) go" where
  "connect_provider E r network =
     (if ns_provider (net_spec network) = None then ret (Inr network)
      else gbind (interDomainReconcile E network) (\<lambda>(provStatus, _).
        gbind (update_net_status E (network\<lparr>net_status := (net_status network)\<lparr>st_provider := Some provStatus\<rparr>\<rparr>)) (\<lambda>x. case x of
          Inl e \<Rightarrow> ret (Inl (Some e))
        | Inr network \<Rightarrow> (case ns_provider (net_spec network) of
            None \<Rightarrow> gpanic
          | Some provider \<Rightarrow>
              gbind (GetNetworkEdgeDevice E (pv_name provider)) (\<lambda>y. case y of
                Inl e \<Rightarrow> ret (Inl None)
              | Inr ned \<Rightarrow> (case (ned_node_config ned, ned_provider ned) of
                  (Some nc, Some np) \<Rightarrow>
                    gbind (ConnectInternalSwitchToNED E r (net_name network) (nc_node nc) (pv_name np)) (\<lambda>z. case z of
                      Inl e \<Rightarrow> ret (Inl None)
                    | Inr nedNetworkAttachDef \<Rightarrow> (case GetPortNumberFromNetAttachDef (nad_name nedNetworkAttachDef) of
                        Inl e \<Rightarrow> ret (Inl (Some (port_error e)))
                      | Inr bridgeName \<Rightarrow>
                          gbind (CreateNewNEDConnection E network (''br'' @ bridgeName) ned) (\<lambda>err. case err of
                            Some e \<Rightarrow> ret (Inl None)
                          | None \<Rightarrow>
                              gbind (glift (nth_go (pv_domain provider) 0)) (\<lambda>d.
                              gbind (AddServerToLocalCoreDNS E (net_name network) d (pv_dns_port provider)) (\<lambda>_.
                              ret (Inr network))))))
                | _ \<Rightarrow> gpanic))))))"

definition create_ids_resource :: "environment \<Rightarrow> l2network \<Rightarrow> obj \<Rightarrow> unit \<Rightarrow> (history, err option + unit) go" where
  "create_ids_resource E network res u =
     (case SetControllerReference E ''L2Network'' (net_meta network) res of
        Inl e \<Rightarrow> ret (Inl None)
      | Inr res \<Rightarrow> gbind (create_obj E res) (\<lambda>_. ret (Inr ())))"

definition setup_ids :: "environment \<Rightarrow> network_reconciler \<Rightarrow> l2network \<Rightarrow> (history, err option) go" where
  "setup_ids E r network =
     (case ns_ids (net_spec network) of
        None \<Rightarrow> ret None
      | Some idsRules \<Rightarrow>
          if \<not> ids_enabled idsRules then ret None
          else
            (let label = nad_label (ids_node idsRules)
             in gbind (GetFreeNetAttachDefs E (nr_namespace r) label) (\<lambda>nads. case nads of
                  [] \<Rightarrow> ret (Some (errorf ''no interfaces available in control plane node'' []))
                | n # _ \<Rightarrow>
                    (let netAttachDef = set_nad_label_alloc label ''true'' n
                     in case GetPortNumberFromNetAttachDef (nad_name netAttachDef) of
                          Inl e \<Rightarrow> ret (Some (port_error e))
                        | Inr portNumber \<Rightarrow>
                            gbind (cl_mirror (nr_client r) (ns_type (net_spec network))
                              ((payload (net_name network) [])\<lparr>vp_mirror := of_port E (ids_node idsRules) OVERLAY_PROVIDER portNumber\<rparr>))
                            (\<lambda>err. case err of
                               Some e \<Rightarrow> ret (Some (Errorf ''could not set up mirror port for IDS on network %q: %w'' [net_name network] (Some e)))
                             | None \<Rightarrow>
                                 gbind (rand64 E) (\<lambda>rnd.
                                 gbind (glift (GenerateExternalResources (Some network)
                                     (MultusAnnotationToString [GenerateIPv6Address rnd (new_annotation
                                        \<lparr>na_name := nad_name netAttachDef, na_namespace := om_namespace (nad_meta netAttachDef)\<rparr>)])))
                                   (\<lambda>resources. case resources of
                                      Inl e \<Rightarrow> ret None
                                    | Inr resArray \<Rightarrow>
                                        gbind (gloop (create_ids_resource E network) resArray ()) (\<lambda>x. case x of
                                          Inl v \<Rightarrow> ret v
                                        | Inr _ \<Rightarrow>
                                            gbind (update_nad E netAttachDef) (\<lambda>y. ret (case y of
                                              Inl e \<Rightarrow> Some (Errorf ''could not update network attachment definition: %s'' [] (Some e))
                                            | Inr _ \<Rightarrow> None))))))))))"

definition delete_network :: "environment \<Rightarrow> network_reconciler \<Rightarrow> l2network \<Rightarrow> (history, err option) go" where
  "delete_network E r network =
     (if l2smFinalizer \<notin> set (om_finalizers (net_meta network)) then ret None
      else gbind (cl_delete (nr_client r) (ns_type (net_spec network)) (net_name network)) (\<lambda>err. case err of
          Some e \<Rightarrow> ret (Some e)
        | None \<Rightarrow>
            gbind (update_net E (set_net_finalizers (RemoveString (om_finalizers (net_meta network)) l2smFinalizer) network))
              (\<lambda>x. ret (case x of Inl e \<Rightarrow> Some e | Inr _ \<Rightarrow> None))))"

definition create_network :: "environment \<Rightarrow> network_reconciler \<Rightarrow> l2network \<Rightarrow> (history, err option) go" where
  "create_network E r network =
     (if l2smFinalizer \<in> set (om_finalizers (net_meta network)) then ret None
      else gbind (cl_create (nr_client r) (ns_type (net_spec network)) (payload (net_name network) [])) (\<lambda>err. case err of
          Some e \<Rightarrow> gbind (updateControllerStatus E network OfflineStatus) (\<lambda>_. ret (Some e))
        | None \<Rightarrow>
            gbind (updateControllerStatus E network OnlineStatus) (\<lambda>(network, _).
            gbind (update_net E (set_net_finalizers (om_finalizers (net_meta network) @ [l2smFinalizer])
                (network\<lparr>net_status := (net_status network)\<lparr>st_assigned_ips := Some Map.empty\<rparr>\<rparr>))) (\<lambda>x. case x of
              Inl e \<Rightarrow> ret (Some e)
            | Inr network \<Rightarrow>
                gbind (connect_provider E r network) (\<lambda>y. case y of
                  Inl v \<Rightarrow> ret v
                | Inr network \<Rightarrow> setup_ids E r network)))))"

definition Reconcile :: "environment \<Rightarrow> network_reconciler \<Rightarrow> key \<Rightarrow> (history, err option) go" where
  "Reconcile E r req =
     gbind (get_net E req) (\<lambda>got. case got of
       Inl e \<Rightarrow> ret (ignore_not_found e)
     | Inr network \<Rightarrow>
         if om_deleted (net_meta network) then delete_network E r network else create_network E r network)"

section \<open>Storing a network needs the controller's consent\<close>

abbreviation network_reconciler :: "environment \<Rightarrow> session_client \<Rightarrow> string \<Rightarrow> network_reconciler" where
  "network_reconciler E s ns \<equiv> \<lparr>nr_client = InternalClient E s, nr_namespace = ns\<rparr>"

definition creation :: "session_client \<Rightarrow> string \<Rightarrow> event" where
  "creation s name = sent s ''POST'' ''/vnets/api'' (payload_json (payload name [])) (Inr 204)"

definition deletion :: "session_client \<Rightarrow> string \<Rightarrow> event" where
  "deletion s name = sent s ''DELETE'' (''/vnets/api/'' @ name) [] (Inr 204)"

text \<open>
  What must have happened before this controller stores a network: with the finalizer, its
  creation; without it, its deletion.
\<close>

fun store_guard :: "session_client \<Rightarrow> event \<Rightarrow> history \<Rightarrow> bool" where
  "store_guard s (UpdatedNet n r) h =
     ((if l2smFinalizer \<in> set (om_finalizers (net_meta n)) then creation s (net_name n) else deletion s (net_name n)) \<in> set h)"
| "store_guard s _ h = True"

text \<open>The API server does not rename a network when it stores its status.\<close>

definition keeps_names :: "environment \<Rightarrow> bool" where
  "keeps_names E \<longleftrightarrow> (\<forall>h n n'. e_update_net_status E h n = Inr n' \<longrightarrow> net_name n' = net_name n)"

fun stores_network :: "event \<Rightarrow> bool" where
  "stores_network (UpdatedNet n r) = True"
| "stores_network _ = False"

lemma store_guard_other: "\<not> stores_network e \<Longrightarrow> store_guard s e h"
  by (cases e) simp_all

lemma store_guard_mono: "store_guard s e h \<Longrightarrow> store_guard s e (es @ h)"
  by (cases e) auto

lemma not_stores_sent [simp]: "\<not> stores_network (sent s m u b r)"
  by (simp add: sent_def)

lemma wp_store_other:
  assumes "emits (\<lambda>e. \<not> stores_network e) m" "guarded (store_guard s) h"
  shows "wp m (\<lambda>x h'. guarded (store_guard s) h' \<and> set h \<subseteq> set h') h"
  by (rule wp_guarded [OF emits_weaken [OF assms(1)] store_guard_mono assms(2)]) (simp_all add: store_guard_other)

lemma emits_interDomainReconcile:
  assumes "\<And>m u a b r. P (Http m u a b r)"
  shows "emits P (interDomainReconcile E network)"
proof (cases "ns_provider (net_spec network)")
  case (Some p)
  show ?thesis unfolding interDomainReconcile_def Some option.case
  proof (rule emits_with_client, goal_cases)
    case (3 s)
    show ?case unfolding sum.case by (intro emits_intros emits_internal assms)
  qed (simp_all add: assms emits_ret)
qed (simp add: interDomainReconcile_def emits_ret)

lemma emits_CreateNewNEDConnection:
  assumes "\<And>m u a b r. P (Http m u a b r)" "\<And>a i r. P (NedAttach a i r)"
  shows "emits P (CreateNewNEDConnection E network d ned)"
proof (cases "ns_provider (net_spec network)")
  case (Some p)
  show ?thesis unfolding CreateNewNEDConnection_def Some option.case
  proof (rule emits_with_client, goal_cases)
    case (3 s)
    show ?case unfolding sum.case by (intro emits_intros emits_internal assms)
  qed (simp_all add: assms emits_ret)
qed (simp add: CreateNewNEDConnection_def emits_gpanic)

lemma emits_connect_provider:
  assumes "\<And>m u a b r. P (Http m u a b r)" "\<And>n r. P (UpdatedNetStatus n r)" "\<And>r. P (ListedNeds r)"
    "\<And>n l r. P (ListedNads n l r)" "\<And>n r. P (UpdatedNad n r)" "\<And>a i r. P (NedAttach a i r)" "\<And>c x r. P (CoreDns c x r)"
  shows "emits P (connect_provider E (network_reconciler E s ns) network)"
  unfolding connect_provider_def ConnectInternalSwitchToNED_def Let_def network_reconciler.simps
  by (intro emits_intros emits_interDomainReconcile emits_CreateNewNEDConnection emits_internal assms)

lemma emits_setup_ids:
  assumes "\<And>m u a b r. P (Http m u a b r)" "\<And>n l r. P (ListedNads n l r)" "\<And>n r. P (UpdatedNad n r)" "\<And>r. P (Rand64 r)"
    "\<And>x r. P (Created x r)"
  shows "emits P (setup_ids E (network_reconciler E s ns) network)"
  unfolding setup_ids_def create_ids_resource_def Let_def network_reconciler.simps
  by (intro emits_intros emits_internal assms)


lemma wp_create_network:
  assumes E: "keeps_names E" and h: "guarded (store_guard s) h"
  shows "wp (create_network E (network_reconciler E s ns) n) (\<lambda>x h'. guarded (store_guard s) h') h"
proof -
  let ?r = "network_reconciler E s ns"
  have rest: "wp (gbind (connect_provider E ?r n2) (\<lambda>y. case y of Inl v \<Rightarrow> ret v | Inr network \<Rightarrow> setup_ids E ?r network))
      (\<lambda>x h'. guarded (store_guard s) h') h2" if "guarded (store_guard s) h2" for n2 h2
    by (rule wp_mono [OF wp_store_other [OF _ that]])
      (auto intro!: emits_gbind emits_connect_provider emits_setup_ids emits_ret split: sum.split)
  have store: "wp (gbind (update_net E (set_net_finalizers (fs @ [l2smFinalizer]) n1)) (\<lambda>x. case x of
        Inl e \<Rightarrow> ret (Some e)
      | Inr network \<Rightarrow> gbind (connect_provider E ?r network) (\<lambda>y. case y of Inl v \<Rightarrow> ret v | Inr network \<Rightarrow> setup_ids E ?r network)))
      (\<lambda>x h'. guarded (store_guard s) h') h2"
    if "guarded (store_guard s) h2" "creation s (net_name n1) \<in> set h2" for n1 h2 fs
  proof -
    have "guarded (store_guard s) (UpdatedNet (set_net_finalizers (fs @ [l2smFinalizer]) n1) y # h2)" for y
      using that by (simp add: set_net_finalizers_def)
    then show ?thesis
      using rest by (auto simp: wp_gbind wp_update_net wp_ret split: sum.split)
  qed
  have status: "wp (updateControllerStatus E n st) (\<lambda>r h'. \<exists>n1 e. r = Val (n1, e) \<and> net_name n1 = net_name n \<and>
      guarded (store_guard s) h' \<and> set h2 \<subseteq> set h') h2" if "guarded (store_guard s) h2" for st h2
    using that E by (auto simp: updateControllerStatus_def Let_def wp_simps keeps_names_def split: sum.split)
  let ?rest = "\<lambda>(network, _). gbind (update_net E (set_net_finalizers (om_finalizers (net_meta network) @ [l2smFinalizer])
                (network\<lparr>net_status := (net_status network)\<lparr>st_assigned_ips := Some Map.empty\<rparr>\<rparr>))) (\<lambda>x. case x of
              Inl e \<Rightarrow> ret (Some e)
            | Inr network \<Rightarrow>
                gbind (connect_provider E ?r network) (\<lambda>y. case y of
                  Inl v \<Rightarrow> ret v
                | Inr network \<Rightarrow> setup_ids E ?r network))"
  have created: "wp (gbind (updateControllerStatus E n OnlineStatus) ?rest) (\<lambda>x h'. guarded (store_guard s) h') h2"
    if "guarded (store_guard s) h2" "creation s (net_name n) \<in> set h2" for h2
    unfolding wp_gbind [of "updateControllerStatus E n OnlineStatus"]
    by (rule wp_mono [OF status [OF that(1)]]) (use that(2) in \<open>auto intro!: store simp: subset_eq\<close>)
  have refused: "wp (gbind (updateControllerStatus E n OfflineStatus) (\<lambda>_. ret (Some e))) (\<lambda>x h'. guarded (store_guard s) h') h2"
    if "guarded (store_guard s) h2" for e h2
    unfolding wp_gbind by (rule wp_mono [OF status [OF that]]) (auto simp: wp_ret)
  have g: "guarded (store_guard s) (sent s m u b y # h)" for m u b y
    using h by (simp add: store_guard_other)
  show ?thesis
  proof (cases "l2smFinalizer \<in> set (om_finalizers (net_meta n))")
    case False
    show ?thesis unfolding create_network_def network_reconciler.simps if_not_P [OF False] wp_gbind [of "cl_create _ _ _"]
    proof (rule internal.create.wp_op, goal_cases)
      case (1 e)
      then show ?case by (simp add: refused [OF h])
    next
      case (2 e reply)
      then show ?case by (simp add: refused [OF g])
    next
      case (3 c)
      then show ?case using created [OF g, of "''POST''" "''/vnets/api''" "payload_json (payload (net_name n) [])" "Inr 204"]
        by (simp add: creation_def)
    qed
  qed (use h in \<open>simp add: create_network_def wp_ret\<close>)
qed

lemma wp_delete_network:
  assumes h: "guarded (store_guard s) h"
  shows "wp (delete_network E (network_reconciler E s ns) n) (\<lambda>x h'. guarded (store_guard s) h') h"
proof (cases "l2smFinalizer \<in> set (om_finalizers (net_meta n))")
  case True
  show ?thesis unfolding delete_network_def network_reconciler.simps
    using True h
    by (auto simp: wp_gbind intro!: internal.delete.wp_op)
      (auto simp: wp_simps store_guard_other RemoveString_filter set_net_finalizers_def deletion_def split: sum.split)
qed (use h in \<open>simp add: delete_network_def wp_ret\<close>)

definition network_guard :: "environment \<Rightarrow> session_client \<Rightarrow> event \<Rightarrow> history \<Rightarrow> bool" where
  "network_guard E s e h \<longleftrightarrow> (keeps_names E \<longrightarrow> store_guard s e h)"

lemma guarded_network_guard: "guarded (network_guard E s) h \<longleftrightarrow> (keeps_names E \<longrightarrow> guarded (store_guard s) h)"
  by (induction h) (auto simp: network_guard_def)

interpretation networks: controller "Reconcile E (network_reconciler E s ns)" "\<lambda>e. \<not> stores_network e" "network_guard E s"
  for E s ns
proof
  fix h k assume g: "guarded (network_guard E s) h"
  show "wp (Reconcile E (network_reconciler E s ns) k) (\<lambda>r h'. guarded (network_guard E s) h') h"
  proof (cases "keeps_names E")
    case True
    with g have "guarded (store_guard s) (GotNet k y # h)" for y by (simp add: guarded_network_guard)
    then show ?thesis using True wp_create_network wp_delete_network
      by (auto simp: Reconcile_def wp_simps guarded_network_guard split: sum.split)
  qed (simp add: guarded_network_guard wp_def)
qed (simp add: network_guard_def store_guard_other)

section \<open>Properties\<close>

text \<open>
  C5. In every run, provided that the API server does not rename networks: a network is
  stored with the finalizer only after the SDN controller accepted its creation, and
  without it only after it accepted its deletion.
\<close>

theorem network_stored_after_consent:
  assumes "controller_run (Reconcile E (network_reconciler E s ns)) (\<lambda>e. \<not> stores_network e) h"
    and "\<forall>h n n'. e_update_net_status E h n = Inr n' \<longrightarrow> net_name n' = net_name n"
    and "h = es @ UpdatedNet n r # h0"
  shows "(if l2smFinalizer \<in> set (om_finalizers (net_meta n))
    then sent s ''POST'' ''/vnets/api'' (payload_json (payload (net_name n) [])) (Inr 204)
    else sent s ''DELETE'' (''/vnets/api/'' @ net_name n) [] (Inr 204)) \<in> set h0"
  using networks.run_event [of E s ns es "UpdatedNet n r" h0] assms
  by (simp add: network_guard_def keeps_names_def creation_def deletion_def split: if_splits)


text \<open>
  C19. What the SDN controller refuses is tried again: when there is something to do for a
  network (it is new, or it is being deleted and was created) and the controller answers
  with another code than 204, \<open>Reconcile\<close> returns an error, which makes controller-runtime
  retry, and does not store the network, so that its finalizers stay. All it stores is, after a refused creation, the status of the network,
  which then says offline; after a refused deletion nothing is stored.
\<close>

theorem network_refusal_retried:
  assumes "e_get_net E h req = Inr n"
    and "om_deleted (net_meta n) = (l2smFinalizer \<in> set (om_finalizers (net_meta n)))"
    and "\<forall>u. e_url_error E u = None" "\<forall>h m u a b. e_http E h m u a b = Inr code" "code \<noteq> 204"
  shows "\<exists>e es. Reconcile E (network_reconciler E s ns) req h = (Val (Some e), es @ h) \<and>
    (\<forall>m r. UpdatedNet m r \<notin> set es) \<and>
    {m. \<exists>r. UpdatedNetStatus m r \<in> set es} =
      (if om_deleted (net_meta n) then {} else {n\<lparr>net_status := (net_status n)\<lparr>st_internal := Some OfflineStatus\<rparr>\<rparr>})"
proof (cases "om_deleted (net_meta n)")
  case True
  then show ?thesis using assms
    by (simp add: Reconcile_def delete_network_def run_simps InternalClient_def internal_DeleteNetwork_def Delete_def
        newRequest_def Do_def expect_status_def)
next
  case False
  then show ?thesis using assms
    by (simp add: Reconcile_def create_network_def run_simps InternalClient_def internal_CreateNetwork_def Post_def
        newRequest_def Do_def expect_status_def updateControllerStatus_def Let_def split: sum.split prod.split)
qed

section \<open>A network with an IDS and no free interface\<close>

abbreviation sdn_session :: session_client where
  "sdn_session \<equiv> NewSessionClient ''http://sdn'' [] []"

definition watched :: l2network where
  "watched = \<lparr>net_meta = new_meta ''net'' ''default'',
     net_spec = \<lparr>ns_type = NetworkTypeVnet, ns_config = None, ns_provider = None, ns_network_cidr = [],
       ns_pod_address_range = [], ns_ids = Some sample_ids\<rparr>,
     net_status = \<lparr>st_connected_pods = 0, st_last_assigned_ip = [], st_assigned_ips = None,
       st_internal = None, st_provider = None\<rparr>\<rparr>"

text \<open>An API server that stores networks and gives back the last one stored.\<close>

definition watched_env :: environment where
  "watched_env = quiet_env\<lparr>e_get_net := \<lambda>h _. Inr (case List.map_filter
     (\<lambda>e. case e of UpdatedNet _ (Inr n) \<Rightarrow> Some n | _ \<Rightarrow> None) h of [] \<Rightarrow> watched | n # _ \<Rightarrow> n)\<rparr>"

lemma watched_simps:
  "l2smFinalizer \<notin> set (om_finalizers (net_meta watched))" "\<not> om_deleted (net_meta watched)"
  "ns_provider (net_spec watched) = None" "ns_ids (net_spec watched) = Some sample_ids" "ids_enabled sample_ids"
  "net_name watched = ''net''"
  by (simp_all add: watched_def new_meta_def sample_ids_def)

abbreviation watched_online :: l2network where
  "watched_online \<equiv> watched\<lparr>net_status := (net_status watched)\<lparr>st_internal := Some OnlineStatus\<rparr>\<rparr>"

abbreviation watched_stored :: l2network where
  "watched_stored \<equiv> set_net_finalizers (om_finalizers (net_meta watched) @ [l2smFinalizer])
     (watched_online\<lparr>net_status := (net_status watched_online)\<lparr>st_assigned_ips := Some Map.empty\<rparr>\<rparr>)"

abbreviation watched_history :: history where
  "watched_history \<equiv> [ListedNads ''l2sm'' (nad_label (ids_node sample_ids)) (Inr []), UpdatedNet watched_stored (Inr watched_stored),
     UpdatedNetStatus watched_online (Inr watched_online),
     sent sdn_session ''POST'' ''/vnets/api'' (payload_json (payload (net_name watched) [])) (Inr 204),
     GotNet (''default'', ''net'') (Inr watched)]"

lemma watched_run:
  "Reconcile watched_env (network_reconciler watched_env sdn_session ''l2sm'') (''default'', ''net'') [] =
     (Val (Some (errorf ''no interfaces available in control plane node'' [])), watched_history)"
proof -
  have E: "e_url_error watched_env u = None" "e_http watched_env h m u a b = Inr 204"
    "e_update_net watched_env h n = Inr n" "e_update_net_status watched_env h n = Inr n" "e_valid_label_key watched_env l"
    "e_list_nads watched_env h ns l = Inr []" "e_get_net watched_env [] k = Inr watched" for u h m a b n l ns k
    by (simp_all add: watched_env_def quiet_env_def map_filter_simps)
  show ?thesis
    using watched_simps E
    by (simp add: Reconcile_def create_network_def run_simps InternalClient_def internal_CreateNetwork_def Post_def newRequest_def
        Do_def expect_status_def updateControllerStatus_def Let_def set_net_finalizers_def connect_provider_def setup_ids_def
        GetFreeNetAttachDefs_def sent_def)
qed

text \<open>
  A failed IDS set-up is reported once and then forgotten: with no free interface on the
  IDS node the first reconciliation creates and stores the network and returns an error;
  the retry finds the finalizer, returns nil, and has created nothing for the IDS.
\<close>

lemma ids_failure_not_retried:
  "\<exists>h1 h2 n. Reconcile watched_env (network_reconciler watched_env sdn_session ''l2sm'') (''default'', ''net'') [] =
      (Val (Some (errorf ''no interfaces available in control plane node'' [])), h1) \<and>
    Reconcile watched_env (network_reconciler watched_env sdn_session ''l2sm'') (''default'', ''net'') h1 = (Val None, h2) \<and>
    h2 = GotNet (''default'', ''net'') (Inr n) # h1 \<and> l2smFinalizer \<in> set (om_finalizers (net_meta n)) \<and>
    (\<forall>x r. Created x r \<notin> set h2)"
proof -
  let ?k = "(''default'', ''net'')" and ?r = "network_reconciler watched_env sdn_session ''l2sm''"
  have "e_get_net watched_env watched_history ?k = Inr watched_stored"
    by (simp add: watched_env_def sent_def map_filter_simps)
  then have "Reconcile watched_env ?r ?k watched_history = (Val None, GotNet ?k (Inr watched_stored) # watched_history)"
    using watched_simps by (simp add: Reconcile_def create_network_def run_simps set_net_finalizers_def)
  then show ?thesis
    by (intro exI [of _ watched_history] exI [of _ "GotNet ?k (Inr watched_stored) # watched_history"] exI [of _ watched_stored])
      (simp add: watched_run set_net_finalizers_def sent_def)
qed

theorem network_stored_after_consent_witness:
  "sent sdn_session ''POST'' ''/vnets/api'' (payload_json (payload ''net'' [])) (Inr 204) \<in>
     set [UpdatedNetStatus watched_online (Inr watched_online),
       sent sdn_session ''POST'' ''/vnets/api'' (payload_json (payload (net_name watched) [])) (Inr 204),
       GotNet (''default'', ''net'') (Inr watched)]"
proof -
  have "controller_run (Reconcile watched_env (network_reconciler watched_env sdn_session ''l2sm''))
      (\<lambda>e. \<not> stores_network e) watched_history"
    by (rule controller_run.reconcile [where k = "(''default'', ''net'')" and h = "[]"]) (rule controller_run.start, rule watched_run)
  moreover have "watched_history = [ListedNads ''l2sm'' (nad_label (ids_node sample_ids)) (Inr [])] @
      UpdatedNet watched_stored (Inr watched_stored) # [UpdatedNetStatus watched_online (Inr watched_online),
       sent sdn_session ''POST'' ''/vnets/api'' (payload_json (payload (net_name watched) [])) (Inr 204),
       GotNet (''default'', ''net'') (Inr watched)]" by simp
  moreover have "\<forall>h n n'. e_update_net_status watched_env h n = Inr n' \<longrightarrow> net_name n' = net_name n"
    by (simp add: watched_env_def quiet_env_def)
  ultimately show ?thesis
    using network_stored_after_consent by (fastforce simp: set_net_finalizers_def watched_simps)
qed

theorem network_refusal_retried_witness:
  "\<exists>e h'. Reconcile (quiet_env\<lparr>e_get_net := \<lambda>_ _. Inr watched, e_http := \<lambda>_ _ _ _ _. Inr 500\<rparr>)
     (network_reconciler (quiet_env\<lparr>e_get_net := \<lambda>_ _. Inr watched, e_http := \<lambda>_ _ _ _ _. Inr 500\<rparr>) sdn_session ''l2sm'')
     (''default'', ''net'') [] = (Val (Some e), h') \<and> (\<forall>m r. UpdatedNet m r \<notin> set h') \<and>
     {m. \<exists>r. UpdatedNetStatus m r \<in> set h'} = {watched\<lparr>net_status := (net_status watched)\<lparr>st_internal := Some OfflineStatus\<rparr>\<rparr>}"
  using network_refusal_retried [of "quiet_env\<lparr>e_get_net := \<lambda>_ _. Inr watched, e_http := \<lambda>_ _ _ _ _. Inr 500\<rparr>" "[]" _ watched 500] watched_simps
  by (fastforce simp: quiet_env_def)

end
