(* ===== verification/Quarantine.thy ===== *)
theory Quarantine
  imports PodUtils SdnClient
begin

text \<open>
  \<^verbatim>\<open>internal/controller/quarantinepodrequest_controller.go\<close>: moving the pods a request selects
  from their network to a target network. The two networks are pointers that every moved pod
  updates, so they are part of the state of the loop and of the results.
\<close>

section \<open>Code\<close>

record quarantine_reconciler =
  qc_client :: "sdn_client option"

definition quarantine_condition :: "string \<Rightarrow> int \<Rightarrow> string \<Rightarrow> err \<Rightarrow> condition" where
  "quarantine_condition status generation reason message =
     \<lparr>cd_type = ''Available'', cd_status = status, cd_generation = generation, cd_reason = reason, cd_message = message\<rparr>"

definition setQuarantineStatus ::
  "environment \<Rightarrow> quarantine_request \<Rightarrow> string \<Rightarrow> string \<Rightarrow> err \<Rightarrow> string \<Rightarrow> string \<Rightarrow> int \<Rightarrow> int \<Rightarrow> (history, err option) go" where
  "setQuarantineStatus E request conditionStatus reason message sourceName targetName matched moved =
     (let generation = om_generation (qp_meta request);
          request = request\<lparr>qp_status :=
            \<lparr>qt_generation = generation, qt_source = sourceName, qt_target = targetName, qt_matched = matched, qt_moved = moved,
             qt_conditions = e_set_condition E (qt_conditions (qp_status request))
               (quarantine_condition conditionStatus generation reason message)\<rparr>\<rparr>
      in gbind (update_quarantine_status E request) (\<lambda>x. ret (case x of Inl e \<Rightarrow> ignore_not_found e | Inr _ \<Rightarrow> None)))"

text \<open>The source network and the error: both are nil when the selector does not match exactly one.\<close>

definition resolveSourceNetwork ::
  "environment \<Rightarrow> quarantine_request \<Rightarrow> (history, l2network option \<times> err option) go" where
  "resolveSourceNetwork E request =
     (let target = qr_target (qp_spec request);
          fail = (\<lambda>reason message. gbind (setQuarantineStatus E request ''False'' reason message [] target 0 0)
            (\<lambda>err. ret (None, err)))
      in case e_selector E (qs_networks (qr_selector (qp_spec request))) of
           Inl e \<Rightarrow> fail ''InvalidL2NetworkSelector'' (Errorf ''invalid L2Network selector: %v'' [] (Some e))
         | Inr sourceSelector \<Rightarrow>
             gbind (list_nets E (Some (om_namespace (qp_meta request), sourceSelector))) (\<lambda>x. case x of
               Inl e \<Rightarrow> ret (None, Some e)
             | Inr items \<Rightarrow> (case items of
                 [] \<Rightarrow> fail ''SourceL2NetworkNotFound'' (errorf ''L2Network selector did not match any source L2Network'' [])
               | [n] \<Rightarrow> ret (Some n, None)
               | _ \<Rightarrow> fail ''MultipleSourceL2Networks''
                   (errorf ''L2Network selector matched %d source L2Networks; expected exactly one'' [dec (length items)]))))"

primrec networkAnnotationIndex :: "network_annotation list \<Rightarrow> string \<Rightarrow> nat option" where
  "networkAnnotationIndex [] networkName = None"
| "networkAnnotationIndex (n # ns) networkName =
     (if na_name n = networkName then Some 0 else map_option Suc (networkAnnotationIndex ns networkName))"

text \<open>Moving one address of the pod from the source's pool to the target's.\<close>

definition move_address :: "string \<Rightarrow> gomap \<times> gomap \<Rightarrow> string \<Rightarrow> gomap \<times> gomap" where
  "move_address podName pools podCIDR =
     (case parse_cidr podCIDR of
        None \<Rightarrow> pools
      | Some (ip, _) \<Rightarrow> (map_del (fst pools) (ip_string ip), map_put_alloc (snd pools) (ip_string ip) podName))"

definition move_addresses :: "string \<Rightarrow> gomap \<times> gomap \<Rightarrow> string list \<Rightarrow> gomap \<times> gomap" where
  "move_addresses podName = foldl (move_address podName)"

definition moved_statuses :: "l2network \<Rightarrow> l2network \<Rightarrow> string \<Rightarrow> string list \<Rightarrow> l2network \<times> l2network" where
  "moved_statuses source target podName ipAddresses =
     (let s = net_status source; t = net_status target;
          pools = move_addresses podName (st_assigned_ips s, st_assigned_ips t) ipAddresses;
          left = (if st_connected_pods s > 0 then st_connected_pods s - 1 else st_connected_pods s)
      in (source\<lparr>net_status := s\<lparr>st_connected_pods := left, st_assigned_ips := fst pools\<rparr>\<rparr>,
          target\<lparr>net_status := t\<lparr>st_connected_pods := st_connected_pods t + 1, st_assigned_ips := snd pools\<rparr>\<rparr>))"

definition updateNetworkStatuses ::
  "environment \<Rightarrow> l2network \<Rightarrow> l2network \<Rightarrow> string \<Rightarrow> string list \<Rightarrow> (history, (l2network \<times> l2network) \<times> err option) go" where
  "updateNetworkStatuses E source target podName ipAddresses =
     (let (source, target) = moved_statuses source target podName ipAddresses
      in gbind (update_net_status E source) (\<lambda>x. case x of
           Inl e \<Rightarrow> ret ((source, target), Some (Errorf ''could not update source L2Network status: %w'' [] (Some e)))
         | Inr source \<Rightarrow>
             gbind (update_net_status E target) (\<lambda>y. ret (case y of
               Inl e \<Rightarrow> ((source, target), Some (Errorf ''could not update target L2Network status: %w'' [] (Some e)))
             | Inr target \<Rightarrow> ((source, target), None)))))"

text \<open>The annotation of the pod after the move.\<close>

definition renamed_networks :: "network_annotation list \<Rightarrow> nat \<Rightarrow> string \<Rightarrow> network_annotation list" where
  "renamed_networks networks i name = networks[i := (networks ! i)\<lparr>na_name := name\<rparr>]"

definition movePodToTargetNetwork ::
  "environment \<Rightarrow> sdn_client \<Rightarrow> pod \<Rightarrow> l2network \<Rightarrow> l2network \<Rightarrow> (history, (l2network \<times> l2network) \<times> (err + bool)) go" where
  "movePodToTargetNetwork E client p source target =
     (let nets = (source, target); ns = om_namespace (pod_meta p); name = om_name (pod_meta p)
      in if \<not> has_annotation p L2SM_NETWORK_ANNOTATION \<or> \<not> has_annotation p MULTUS_ANNOTATION_KEY then ret (nets, Inr False)
         else case ExtractNetworks (annotation_of p L2SM_NETWORK_ANNOTATION) ns of
           Inl e \<Rightarrow> ret (nets, Inl (Errorf ''could not extract pod L2Network annotations: %w'' [] (Some e)))
         | Inr l2smNetworks \<Rightarrow> (case networkAnnotationIndex l2smNetworks (net_name source) of
             None \<Rightarrow> ret (nets, Inr False)
           | Some sourceIndex \<Rightarrow> (case ExtractNetworks (annotation_of p MULTUS_ANNOTATION_KEY) ns of
               Inl e \<Rightarrow> ret (nets, Inl (Errorf ''could not extract pod Multus annotations: %w'' [] (Some e)))
             | Inr multusNetworks \<Rightarrow>
                 if length multusNetworks \<noteq> length l2smNetworks then
                   ret (nets, Inl (errorf ''pod has mismatched l2sm and Multus annotation counts: %d l2sm networks, %d Multus networks''
                     [dec (length l2smNetworks), dec (length multusNetworks)]))
                 else gbind (glift (nth_go multusNetworks sourceIndex)) (\<lambda>m.
                   case GetPortNumberFromNetAttachDef (na_name m) of
                     Inl e \<Rightarrow> ret (nets, Inl (Errorf ''could not get port number from network attachment definition %q: %w'' [na_name m] (Some e)))
                   | Inr portNumber \<Rightarrow>
                       (let ofPort = of_port E (pod_node p) OVERLAY_PROVIDER portNumber
                        in gbind (cl_detach client (ns_type (net_spec source)) (payload (net_name source) [ofPort])) (\<lambda>err. case err of
                             Some e \<Rightarrow> ret (nets, Inl (Errorf ''could not detach pod %s/%s port %s from source L2Network %q: %w''
                               [ns, name, ofPort, net_name source] (Some e)))
                           | None \<Rightarrow>
                               gbind (cl_attach client (ns_type (net_spec target)) (payload (net_name target) [ofPort])) (\<lambda>err. case err of
                                 Some e \<Rightarrow> ret (nets, Inl (Errorf ''could not attach pod %s/%s port %s to target L2Network %q: %w''
                                   [ns, name, ofPort, net_name target] (Some e)))
                               | None \<Rightarrow>
                                   gbind (glift (set_annotation L2SM_NETWORK_ANNOTATION
                                       (MultusAnnotationToString (renamed_networks l2smNetworks sourceIndex (net_name target))) p)) (\<lambda>p.
                                   gbind (update_pod E p) (\<lambda>x. case x of
                                     Inl e \<Rightarrow> ret (nets, Inl (Errorf ''could not update pod network annotation: %w'' [] (Some e)))
                                   | Inr stored \<Rightarrow>
                                       gbind (updateNetworkStatuses E source target (om_name (pod_meta stored)) (na_ips m))
                                         (\<lambda>(nets, err). ret (nets, case err of Some e \<Rightarrow> Inl e | None \<Rightarrow> Inr True)))))))))))"

type_synonym quarantine_state = "(int \<times> int) \<times> l2network \<times> l2network"

text \<open>One round of the loop over the pods: \<open>Inl v\<close> leaves \<open>Reconcile\<close>.\<close>

definition quarantine_pod ::
  "environment \<Rightarrow> sdn_client \<Rightarrow> quarantine_request \<Rightarrow> pod \<Rightarrow> quarantine_state \<Rightarrow> (history, err option + quarantine_state) go" where
  "quarantine_pod E client request p st =
     (let ((matched, moved), source, target) = st
      in if om_deleted (pod_meta p) then ret (Inr st)
         else gbind (movePodToTargetNetwork E client p source target) (\<lambda>((source, target), r). case r of
             Inl e \<Rightarrow> gbind (setQuarantineStatus E request ''False'' ''PodMoveFailed'' e (net_name source) (net_name target) matched moved)
               (\<lambda>err. ret (Inl err))
           | Inr True \<Rightarrow> ret (Inr ((matched + 1, moved + 1), source, target))
           | Inr False \<Rightarrow> ret (Inr ((matched, moved), source, target))))"

definition quarantine_pods ::
  "environment \<Rightarrow> sdn_client \<Rightarrow> string \<Rightarrow> quarantine_request \<Rightarrow> l2network \<Rightarrow> l2network \<Rightarrow> (history, err option) go" where
  "quarantine_pods E client namespace request source target =
     (case e_selector E (qs_pods (qr_selector (qp_spec request))) of
        Inl e \<Rightarrow> setQuarantineStatus E request ''False'' ''InvalidPodSelector'' (Errorf ''invalid pod selector: %v'' [] (Some e))
          (net_name source) (net_name target) 0 0
      | Inr podSelector \<Rightarrow>
          gbind (list_pods E namespace podSelector) (\<lambda>x. case x of
            Inl e \<Rightarrow> ret (Some e)
          | Inr items \<Rightarrow>
              gbind (gloop (quarantine_pod E client request) items ((0, 0), source, target)) (\<lambda>r. case r of
                Inl v \<Rightarrow> ret v
              | Inr ((matched, moved), source, target) \<Rightarrow>
                  setQuarantineStatus E request ''True'' ''PodsMoved''
                    (errorf ''moved %d pod(s) from %q to %q'' [dec_int moved, net_name source, net_name target])
                    (net_name source) (net_name target) matched moved)))"

definition Reconcile :: "environment \<Rightarrow> quarantine_reconciler \<Rightarrow> key \<Rightarrow> (history, err option) go" where
  "Reconcile E r req =
     gbind (get_quarantine E req) (\<lambda>got. case got of
       Inl e \<Rightarrow> ret (ignore_not_found e)
     | Inr request \<Rightarrow>
         (let targetName = qr_target (qp_spec request)
          in gbind (resolveSourceNetwork E request) (\<lambda>(sourcep, err).
             if err \<noteq> None then ret err
             else gbind (get_net E (fst req, targetName)) (\<lambda>x. case x of
               Inl e \<Rightarrow>
                 if is_not_found e then (case sourcep of
                   None \<Rightarrow> gpanic
                 | Some source \<Rightarrow> setQuarantineStatus E request ''False'' ''TargetL2NetworkNotFound''
                     (errorf ''target L2Network %q does not exist'' [targetName]) (net_name source) targetName 0 0)
                 else ret (Some e)
             | Inr target \<Rightarrow> (case sourcep of
                 None \<Rightarrow> gpanic
               | Some source \<Rightarrow>
                   (let status = (\<lambda>reason message. setQuarantineStatus E request ''False'' reason message (net_name source) (net_name target) 0 0)
                    in if net_name source = net_name target then
                         status ''InvalidRequest'' (errorf ''source and target L2Network are the same'' [])
                       else (case qc_client r of
                           None \<Rightarrow> status ''SDNClientNotConfigured'' (errorf ''internal SDN client is not configured'' [])
                         | Some client \<Rightarrow>
                             gbind (cl_exists client (ns_type (net_spec target)) (net_name target)) (\<lambda>y. case y of
                               Inl e \<Rightarrow> status ''TargetL2NetworkCheckFailed''
                                 (Errorf ''could not check target L2Network in SDN controller: %v'' [] (Some e))
                             | Inr False \<Rightarrow> status ''TargetL2NetworkUnavailable''
                                 (errorf ''target L2Network %q does not exist in the SDN controller'' [net_name target])
                             | Inr True \<Rightarrow> quarantine_pods E client (fst req) request source target))))))))"

section \<open>Moving one pod\<close>

definition port_request :: "session_client \<Rightarrow> string \<Rightarrow> string \<Rightarrow> string \<Rightarrow> nat \<Rightarrow> event" where
  "port_request s method network port code =
     sent s method ''/vnets/api/port'' (payload_json (payload network [port])) (Inr code)"

text \<open>
  The pod \<open>q\<close>, read with these annotations, has its \<open>i\<close>-th port moved: the port of its \<open>i\<close>-th interface
  was just detached from its \<open>i\<close>-th network \<open>source\<close> and then attached to \<open>target\<close>.
\<close>

definition port_moved ::
  "environment \<Rightarrow> session_client \<Rightarrow> pod \<Rightarrow> network_annotation list \<Rightarrow> nat \<Rightarrow> string \<Rightarrow> history \<Rightarrow> history \<Rightarrow> bool" where
  "port_moved E s q networks i target h h2 \<longleftrightarrow> (\<exists>interfaces port code.
     ExtractNetworks (annotation_of q L2SM_NETWORK_ANNOTATION) (om_namespace (pod_meta q)) = Inr networks \<and>
     ExtractNetworks (annotation_of q MULTUS_ANNOTATION_KEY) (om_namespace (pod_meta q)) = Inr interfaces \<and>
     i < length networks \<and> length interfaces = length networks \<and>
     GetPortNumberFromNetAttachDef (na_name (interfaces ! i)) = Inr port \<and> code \<in> {200, 204} \<and>
     h = port_request s ''POST'' target (of_port E (pod_node q) OVERLAY_PROVIDER port) 204 #
         port_request s ''DELETE'' (na_name (networks ! i)) (of_port E (pod_node q) OVERLAY_PROVIDER port) code # h2)"

definition pod_moved :: "environment \<Rightarrow> session_client \<Rightarrow> pod \<Rightarrow> history \<Rightarrow> bool" where
  "pod_moved E s p h \<longleftrightarrow> (\<exists>n l items q networks i target h2. ListedPods n l (Inr items) \<in> set h2 \<and> q \<in> set items \<and>
     port_moved E s q networks i target h h2 \<and> pod_node p = pod_node q \<and>
     pod_meta p = (pod_meta q)\<lparr>om_annotations := om_annotations (pod_meta p)\<rparr> \<and>
     pod_annotation p MULTUS_ANNOTATION_KEY = pod_annotation q MULTUS_ANNOTATION_KEY \<and>
     pod_annotation p L2SM_NETWORK_ANNOTATION = Some (MultusAnnotationToString (renamed_networks networks i target)))"

text \<open>A pod is stored when the port of one of its interfaces was moved, with the annotation that says so.\<close>

fun move_guard :: "environment \<Rightarrow> session_client \<Rightarrow> event \<Rightarrow> history \<Rightarrow> bool" where
  "move_guard E s (UpdatedPod p r) h = pod_moved E s p h"
| "move_guard E s (UpdatedQuarantineStatus q r) h = (qt_matched (qp_status q) = qt_moved (qp_status q))"
| "move_guard E s _ h = True"

lemma move_guard_sent [simp]: "move_guard E s (sent s' m u b r) h"
  by (simp add: sent_def)

lemma networkAnnotationIndex_Some:
  "networkAnnotationIndex ns k = Some i \<Longrightarrow> i < length ns \<and> na_name (ns ! i) = k \<and> (\<forall>j<i. na_name (ns ! j) \<noteq> k)"
proof (induction ns arbitrary: i)
  case (Cons n ns)
  then show ?case by (auto simp: nth_Cons split: if_splits nat.split)
qed simp

lemma set_annotation_cases:
  obtains "set_annotation k v p = Panic" | p' where "set_annotation k v p = Val p'"
    "pod_meta p' = (pod_meta p)\<lparr>om_annotations := om_annotations (pod_meta p')\<rparr>" "pod_node p' = pod_node p" "pod_annotation p' k = Some v"
    "\<And>k'. k' \<noteq> k \<Longrightarrow> pod_annotation p' k' = pod_annotation p k'"
  by (cases "om_annotations (pod_meta p)") (auto simp: set_annotation_def pod_annotation_def)

lemma wp_setQuarantineStatus [wp_simps]:
  "wp (setQuarantineStatus E q st rs ms s t a b) Q h =
    (let q' = q\<lparr>qp_status := \<lparr>qt_generation = om_generation (qp_meta q), qt_source = s, qt_target = t, qt_matched = a, qt_moved = b,
           qt_conditions = e_set_condition E (qt_conditions (qp_status q)) (quarantine_condition st (om_generation (qp_meta q)) rs ms)\<rparr>\<rparr>;
         r = e_update_quarantine_status E h q'
     in Q (Val (case r of Inl e \<Rightarrow> ignore_not_found e | Inr _ \<Rightarrow> None)) (UpdatedQuarantineStatus q' r # h))"
  by (simp add: setQuarantineStatus_def wp_simps Let_def)

lemma wp_updateNetworkStatuses [wp_simps]:
  "wp (updateNetworkStatuses E source target podName ips) Q h =
    (let (s, t) = moved_statuses source target podName ips; x = e_update_net_status E h s
     in case x of
          Inl e \<Rightarrow> Q (Val ((s, t), Some (Errorf ''could not update source L2Network status: %w'' [] (Some e)))) (UpdatedNetStatus s x # h)
        | Inr s' \<Rightarrow> (let h' = UpdatedNetStatus s x # h; y = e_update_net_status E h' t
            in Q (Val (case y of
                 Inl e \<Rightarrow> ((s', t), Some (Errorf ''could not update target L2Network status: %w'' [] (Some e)))
               | Inr t' \<Rightarrow> ((s', t'), None))) (UpdatedNetStatus t y # h')))"
  by (simp add: updateNetworkStatuses_def wp_simps Let_def split: prod.split sum.split)

lemma renamed_networks_nth: "i < length ns \<Longrightarrow> i < length (renamed_networks ns i k) \<and> na_name (renamed_networks ns i k ! i) = k"
  by (simp add: renamed_networks_def)

lemma emits_movePod_any: "emits (\<lambda>e. True) (movePodToTargetNetwork E (InternalClient E s) p source target)"
  unfolding movePodToTargetNetwork_def updateNetworkStatuses_def Let_def
  by (intro emits_intros internal.attach.op_emits internal.detach.op_emits TrueI)

lemma wp_movePod:
  assumes h: "guarded (move_guard E s) h" and l: "ListedPods n l (Inr items) \<in> set h" "p \<in> set items"
  shows "wp (movePodToTargetNetwork E (InternalClient E s) p source target) (\<lambda>r h'. guarded (move_guard E s) h') h"
proof -
  have statuses: "wp (gbind (updateNetworkStatuses E source target name ips)
      (\<lambda>(nets, err). ret (nets, case err of Some e \<Rightarrow> Inl e | None \<Rightarrow> Inr True))) (\<lambda>r h'. guarded (move_guard E s) h') h2"
    if "guarded (move_guard E s) h2" for name ips h2
    using that by (simp add: wp_simps Let_def split: sum.split prod.split)
  have store: "wp (gbind (glift (set_annotation L2SM_NETWORK_ANNOTATION (MultusAnnotationToString (renamed_networks ns i (net_name target))) p))
      (\<lambda>p. gbind (update_pod E p) (\<lambda>x. case x of Inl e \<Rightarrow> ret (f e) | Inr stored \<Rightarrow> g stored)))
      (\<lambda>r h'. guarded (move_guard E s) h') h2"
    if g: "guarded (move_guard E s) h2" and m: "port_moved E s p ns i (net_name target) h2 h"
      and rest: "\<And>y h3. guarded (move_guard E s) h3 \<Longrightarrow> wp (g y) (\<lambda>r h'. guarded (move_guard E s) h') h3" for ns i f g h2
  proof (rule set_annotation_cases [of L2SM_NETWORK_ANNOTATION "MultusAnnotationToString (renamed_networks ns i (net_name target))" p])
    fix p' assume p': "set_annotation L2SM_NETWORK_ANNOTATION (MultusAnnotationToString (renamed_networks ns i (net_name target))) p = Val p'"
      "pod_meta p' = (pod_meta p)\<lparr>om_annotations := om_annotations (pod_meta p')\<rparr>"
      "pod_node p' = pod_node p" "pod_annotation p' L2SM_NETWORK_ANNOTATION = Some (MultusAnnotationToString (renamed_networks ns i (net_name target)))"
      "\<And>k'. k' \<noteq> L2SM_NETWORK_ANNOTATION \<Longrightarrow> pod_annotation p' k' = pod_annotation p k'"
    have "pod_annotation p' MULTUS_ANNOTATION_KEY = pod_annotation p MULTUS_ANNOTATION_KEY"
      using p'(5) by (simp add: L2SM_NETWORK_ANNOTATION_def MULTUS_ANNOTATION_KEY_def)
    then have "move_guard E s (UpdatedPod p' y) h2" for y
      unfolding move_guard.simps pod_moved_def using m l p'(2-4) by blast
    then show ?thesis using g by (auto simp: wp_simps p' intro!: rest split: sum.split)
  qed (use g in \<open>simp add: wp_simps\<close>)
  have transfer: "wp (gbind (cl_detach (InternalClient E s) t1 (payload (net_name source) [of_port E (pod_node p) OVERLAY_PROVIDER port]))
      (\<lambda>err. case err of None \<Rightarrow>
          gbind (cl_attach (InternalClient E s) t2 (payload (net_name target) [of_port E (pod_node p) OVERLAY_PROVIDER port]))
            (\<lambda>err. case err of None \<Rightarrow> k | Some e \<Rightarrow> ret (f2 e))
        | Some e \<Rightarrow> ret (f1 e))) (\<lambda>r h'. guarded (move_guard E s) h') h"
    if e: "ExtractNetworks (annotation_of p L2SM_NETWORK_ANNOTATION) (om_namespace (pod_meta p)) = Inr ns"
      "ExtractNetworks (annotation_of p MULTUS_ANNOTATION_KEY) (om_namespace (pod_meta p)) = Inr ms" "length ms = length ns"
      and i: "networkAnnotationIndex ns (net_name source) = Some i" and g: "GetPortNumberFromNetAttachDef (na_name (ms ! i)) = Inr port"
      and k: "\<And>h2. guarded (move_guard E s) h2 \<Longrightarrow> port_moved E s p ns i (net_name target) h2 h \<Longrightarrow>
        wp k (\<lambda>r h'. guarded (move_guard E s) h') h2" for t1 t2 ns ms i port f1 f2 k
  proof -
    have "i < length ns" "na_name (ns ! i) = net_name source" using networkAnnotationIndex_Some [OF i] by simp_all
    then have "port_moved E s p ns i (net_name target)
       (port_request s ''POST'' (net_name target) (of_port E (pod_node p) OVERLAY_PROVIDER port) 204 #
        port_request s ''DELETE'' (net_name source) (of_port E (pod_node p) OVERLAY_PROVIDER port) code # h) h" if "code \<in> {200, 204}" for code
      unfolding port_moved_def using that e g by (intro exI [of _ ms] exI [of _ port] exI [of _ code]) simp
    note now = this [unfolded port_request_def]
    show ?thesis unfolding wp_gbind
      by (rule internal.detach.wp_op; simp add: wp_gbind wp_ret h; rule internal.attach.wp_op)
        (auto simp: wp_ret h intro!: k now)
  qed
  show ?thesis
    unfolding movePodToTargetNetwork_def Let_def
    by (auto simp: wp_ret h wp_gbind [of "glift _"] wp_glift nth_go_def case_prod_beta split: sum.splits option.splits
        dest: networkAnnotationIndex_Some)
      (rule transfer, assumption+, rule store, assumption+, rule statuses)
qed

text \<open>The loop keeps the two counters equal.\<close>

lemma wp_quarantine_loop:
  assumes h: "guarded (move_guard E s) h" "ListedPods n l (Inr items) \<in> set h"
  shows "wp (gloop (quarantine_pod E (InternalClient E s) request) items ((0, 0), source, target))
    (\<lambda>r h'. guarded (move_guard E s) h' \<and> (\<forall>a b t. r = Val (Inr ((a, b), t)) \<longrightarrow> a = b)) h"
proof (rule wp_gloop [where I = "\<lambda>ds st w. guarded (move_guard E s) w \<and> ListedPods n l (Inr items) \<in> set w \<and> fst (fst st) = snd (fst st)"], goal_cases)
  case (1 ds p st w)
  obtain m source target where st: "st = ((m, m), source, target)" using 1 by (metis prod.collapse)
  from 1 have w: "guarded (move_guard E s) w" "ListedPods n l (Inr items) \<in> set w" "p \<in> set items" by auto
  show ?case unfolding quarantine_pod_def st Let_def
    by (auto simp: wp_ret w wp_gbind intro!: wp_mono [OF wp_conj [OF wp_movePod [OF w] wp_emits [OF emits_movePod_any]]])
      (auto simp: wp_simps Let_def w split: flow.split sum.split bool.split)
qed (use h in auto)

lemma wp_quarantine_pods:
  assumes h: "guarded (move_guard E s) h"
  shows "wp (quarantine_pods E (InternalClient E s) ns request source target) (\<lambda>r h'. guarded (move_guard E s) h') h"
proof -
  have loop: "wp (gloop (quarantine_pod E (InternalClient E s) request) items ((0, 0), source, target))
    (\<lambda>r h'. guarded (move_guard E s) h' \<and> (\<forall>a b t. r = Val (Inr ((a, b), t)) \<longrightarrow> a = b)) (ListedPods ns l (Inr items) # h)" for l items
    by (rule wp_quarantine_loop [of E s _ ns l]) (use h in simp_all)
  show ?thesis using h unfolding quarantine_pods_def
    by (auto simp: wp_simps Let_def split: sum.split flow.split intro!: wp_mono [OF loop])
qed

abbreviation quarantine_reconciler :: "environment \<Rightarrow> session_client \<Rightarrow> quarantine_reconciler" where
  "quarantine_reconciler E s \<equiv> \<lparr>qc_client = Some (InternalClient E s)\<rparr>"

lemma wp_target_exists:
  assumes "guarded (move_guard E s) h"
  shows "wp (cl_exists (InternalClient E s) t n) (\<lambda>r h'. guarded (move_guard E s) h') h"
proof -
  have "emits (\<lambda>e. \<forall>h. move_guard E s e h) (cl_exists (InternalClient E s) t n)" by (rule emits_internal(3)) simp
  from wp_emits [OF this] show ?thesis by (rule wp_mono) (auto intro!: guarded_append [OF assms])
qed

lemma wp_resolveSourceNetwork:
  assumes h: "guarded (move_guard E s) h"
  shows "wp (resolveSourceNetwork E request) (\<lambda>r h'. guarded (move_guard E s) h') h"
  using h by (auto simp: resolveSourceNetwork_def wp_simps Let_def split: sum.split list.split)

definition stores_move :: "event \<Rightarrow> bool" where
  "stores_move e = (case e of UpdatedPod p r \<Rightarrow> True | UpdatedQuarantineStatus q r \<Rightarrow> True | _ \<Rightarrow> False)"

interpretation moves: controller "Reconcile E (quarantine_reconciler E s)" "\<lambda>e. \<not> stores_move e" "move_guard E s" for E s
proof
  fix h k assume g: "guarded (move_guard E s) h"
  then have r: "guarded (move_guard E s) (GotQuarantine k x # h)" for x by simp
  let ?good = "\<lambda>r h'. guarded (move_guard E s) h'"
  show "wp (Reconcile E (quarantine_reconciler E s) k) ?good h"
    unfolding Reconcile_def Let_def
    by (auto simp: wp_gbind wp_get_quarantine wp_get_net wp_setQuarantineStatus wp_ret wp_gpanic Let_def r g
       intro!: wp_mono [OF wp_resolveSourceNetwork [OF r]] wp_mono [OF wp_target_exists]
       split: sum.split option.split flow.split)
      (auto simp: wp_simps Let_def intro: wp_quarantine_pods split: flow.split sum.split bool.split)
qed (auto simp: stores_move_def split: event.splits)

section \<open>Properties\<close>

text \<open>
  C7. In every run of the quarantine controller a pod is stored only when the port of one of its interfaces was just
  moved. The pod was listed with networks and interfaces in its two annotations, as many of the one as of the other; for some
  \<open>i\<close> the last two calls are the detachment of the port of its \<open>i\<close>-th interface from its \<open>i\<close>-th
  network and the attachment of the same port to another network, both accepted by the SDN controller; and what is stored is the pod as it was
  listed, with the \<open>i\<close>-th network renamed to the latter.
\<close>

theorem quarantine_stores_moved_pods:
  assumes "controller_run (Reconcile E (quarantine_reconciler E s)) (\<lambda>e. \<not> stores_move e) h"
    and "h = es @ UpdatedPod p r # h0"
  shows "\<exists>n l items q networks interfaces i port target code h1.
    ListedPods n l (Inr items) \<in> set h1 \<and> q \<in> set items \<and>
    ExtractNetworks (annotation_of q L2SM_NETWORK_ANNOTATION) (om_namespace (pod_meta q)) = Inr networks \<and>
    ExtractNetworks (annotation_of q MULTUS_ANNOTATION_KEY) (om_namespace (pod_meta q)) = Inr interfaces \<and>
    i < length networks \<and> length interfaces = length networks \<and>
    GetPortNumberFromNetAttachDef (na_name (interfaces ! i)) = Inr port \<and> code \<in> {200, 204} \<and>
    h0 = sent s ''POST'' ''/vnets/api/port'' (payload_json (payload target [of_port E (pod_node q) OVERLAY_PROVIDER port])) (Inr 204) #
      sent s ''DELETE'' ''/vnets/api/port''
        (payload_json (payload (na_name (networks ! i)) [of_port E (pod_node q) OVERLAY_PROVIDER port])) (Inr code) # h1 \<and>
    pod_node p = pod_node q \<and> pod_meta p = (pod_meta q)\<lparr>om_annotations := om_annotations (pod_meta p)\<rparr> \<and>
    pod_annotation p MULTUS_ANNOTATION_KEY = pod_annotation q MULTUS_ANNOTATION_KEY \<and>
    pod_annotation p L2SM_NETWORK_ANNOTATION = Some (MultusAnnotationToString (networks[i := (networks ! i)\<lparr>na_name := target\<rparr>]))"
proof -
  from assms have "pod_moved E s p h0" using moves.run_event [of E s es "UpdatedPod p r" h0] by simp
  then show ?thesis
    unfolding pod_moved_def port_moved_def port_request_def renamed_networks_def by blast
qed

text \<open>
  The two counters of a request's status never differ: a selected pod that is not moved
  is not counted as matched.
\<close>

lemma quarantine_counts_only_moved:
  assumes "controller_run (Reconcile E (quarantine_reconciler E s)) (\<lambda>e. \<not> stores_move e) h"
    and "UpdatedQuarantineStatus q r \<in> set h"
  shows "qt_matched (qp_status q) = qt_moved (qp_status q)"
proof -
  from assms(2) obtain es h0 where h: "h = es @ UpdatedQuarantineStatus q r # h0" by (meson split_list)
  from moves.run_event [OF assms(1) [unfolded h]] show ?thesis by simp
qed

text \<open>
  C34. When the pod's port is refused by the target network, the port has already left the
  source network and is not put back: the pod keeps its annotation and loses its network. The
  loop stops, the status says so, and the pods after it are not visited.
\<close>

theorem quarantine_half_move:
  assumes "\<not> om_deleted (pod_meta p)" "has_annotation p L2SM_NETWORK_ANNOTATION" "has_annotation p MULTUS_ANNOTATION_KEY"
    and "ExtractNetworks (annotation_of p L2SM_NETWORK_ANNOTATION) (om_namespace (pod_meta p)) = Inr networks"
      "ExtractNetworks (annotation_of p MULTUS_ANNOTATION_KEY) (om_namespace (pod_meta p)) = Inr interfaces"
      "length interfaces = length networks" "networkAnnotationIndex networks (net_name source) = Some i"
      "GetPortNumberFromNetAttachDef (na_name (interfaces ! i)) = Inr port"
    and "\<forall>u. e_url_error E u = None" "\<forall>h u a b. e_http E h ''DELETE'' u a b = Inr 204"
      "\<forall>h u a b. e_http E h ''POST'' u a b = Inr code" "code \<noteq> 204"
    and "\<forall>h q. e_update_quarantine_status E h q = Inr q"
  shows "\<exists>q. quarantine_pod E (InternalClient E s) request p ((matched, moved), source, target) h =
    (Val (Inl None),
     [UpdatedQuarantineStatus q (Inr q),
      sent s ''POST'' ''/vnets/api/port'' (payload_json (payload (net_name target) [of_port E (pod_node p) OVERLAY_PROVIDER port])) (Inr code),
      sent s ''DELETE'' ''/vnets/api/port'' (payload_json (payload (net_name source) [of_port E (pod_node p) OVERLAY_PROVIDER port])) (Inr 204)] @ h) \<and>
    qt_moved (qp_status q) = moved"
  using assms networkAnnotationIndex_Some [OF assms(7)]
  by (simp add: quarantine_pod_def movePodToTargetNetwork_def setQuarantineStatus_def Let_def run_simps nth_go_def InternalClient_def
      internal_DetachPodFromNetwork_def internal_AttachPodToNetwork_def Post_def Delete_def newRequest_def Do_def expect_status_def sent_def)

text \<open>
  C38. A selector that does not match exactly one network makes the controller panic: the
  problem is stored in the status, \<open>resolveSourceNetwork\<close> returns neither a network nor an
  error, and the missing network is dereferenced whether or not the target exists.
\<close>

theorem quarantine_panics_without_source:
  assumes "e_get_quarantine E h req = Inr q" "e_selector E (qs_networks (qr_selector (qp_spec q))) = Inr selector"
    and "\<forall>h. e_list_nets E h (Some (om_namespace (qp_meta q), selector)) = Inr items" "length items \<noteq> 1"
    and "\<forall>h q. e_update_quarantine_status E h q = Inr q" "\<forall>h e. e_get_net E h (fst req, qr_target (qp_spec q)) = Inl e \<longrightarrow> is_not_found e"
  shows "\<exists>h'. Reconcile E r req h = (Panic, h') \<and> (\<exists>q'. UpdatedQuarantineStatus q' (Inr q') \<in> set h')"
proof -
  from assms(4) consider "items = []" | x y zs where "items = x # y # zs" by (metis length_Suc_conv length_0_conv One_nat_def list.exhaust)
  then show ?thesis
    using assms
    by cases (auto simp: Reconcile_def resolveSourceNetwork_def setQuarantineStatus_def Let_def run_simps gpanic_def split: sum.splits)
qed

lemma movePod_moved:
  assumes "movePodToTargetNetwork E (InternalClient E s) p source target h = (Val (nets, Inr True), h')"
  obtains networks interfaces i port code p' stored where
    "ExtractNetworks (annotation_of p L2SM_NETWORK_ANNOTATION) (om_namespace (pod_meta p)) = Inr networks"
    "ExtractNetworks (annotation_of p MULTUS_ANNOTATION_KEY) (om_namespace (pod_meta p)) = Inr interfaces"
    "networkAnnotationIndex networks (net_name source) = Some i" "length interfaces = length networks"
    "GetPortNumberFromNetAttachDef (na_name (interfaces ! i)) = Inr port" "code \<in> {200, 204}"
    "set_annotation L2SM_NETWORK_ANNOTATION (MultusAnnotationToString (renamed_networks networks i (net_name target))) p = Val p'"
    "updateNetworkStatuses E source target (om_name (pod_meta stored)) (na_ips (interfaces ! i))
       (UpdatedPod p' (Inr stored) #
          sent s ''POST'' ''/vnets/api/port'' (payload_json (payload (net_name target) [of_port E (pod_node p) OVERLAY_PROVIDER port])) (Inr 204) #
          sent s ''DELETE'' ''/vnets/api/port'' (payload_json (payload (net_name source) [of_port E (pod_node p) OVERLAY_PROVIDER port])) (Inr code) # h) =
     (Val (nets, None), h')"
  using assms
  unfolding movePodToTargetNetwork_def Let_def
  apply (auto simp: gbind_def glift_def ret_def update_pod_def call_def nth_go_def
      split: if_splits sum.splits option.splits flow.splits prod.splits dest!: internal.detach.op_done internal.attach.op_done)
  by (rule that; (assumption | simp))+

text \<open>
  C14. A pod reported as moved was moved, in this order and with nothing else: one of its
  interfaces, the one at the place of the source network in its annotation, was detached from
  the source, attached to the target, the pod was stored with the target's name at that
  place, and the statuses of both networks were stored with the pod's addresses moved.
\<close>

theorem quarantine_move:
  assumes "movePodToTargetNetwork E (InternalClient E s) p source target h = (Val (nets, Inr True), h')"
  shows "\<exists>networks interfaces i port code p' stored.
    ExtractNetworks (annotation_of p L2SM_NETWORK_ANNOTATION) (om_namespace (pod_meta p)) = Inr networks \<and>
    ExtractNetworks (annotation_of p MULTUS_ANNOTATION_KEY) (om_namespace (pod_meta p)) = Inr interfaces \<and>
    length interfaces = length networks \<and> i < length networks \<and> na_name (networks ! i) = net_name source \<and>
    GetPortNumberFromNetAttachDef (na_name (interfaces ! i)) = Inr port \<and> code \<in> {200, 204} \<and>
    pod_annotation p' L2SM_NETWORK_ANNOTATION = Some (MultusAnnotationToString (networks[i := (networks ! i)\<lparr>na_name := net_name target\<rparr>])) \<and>
    (let (s', t') = moved_statuses source target (om_name (pod_meta stored)) (na_ips (interfaces ! i));
         ofPort = of_port E (pod_node p) OVERLAY_PROVIDER port
     in h' = [UpdatedNetStatus t' (Inr (snd nets)), UpdatedNetStatus s' (Inr (fst nets)), UpdatedPod p' (Inr stored),
          sent s ''POST'' ''/vnets/api/port'' (payload_json (payload (net_name target) [ofPort])) (Inr 204),
          sent s ''DELETE'' ''/vnets/api/port'' (payload_json (payload (net_name source) [ofPort])) (Inr code)] @ h)"
proof -
  from assms obtain networks interfaces i port code p' stored where r:
    "ExtractNetworks (annotation_of p L2SM_NETWORK_ANNOTATION) (om_namespace (pod_meta p)) = Inr networks"
    "ExtractNetworks (annotation_of p MULTUS_ANNOTATION_KEY) (om_namespace (pod_meta p)) = Inr interfaces"
    "networkAnnotationIndex networks (net_name source) = Some i" "length interfaces = length networks"
    "GetPortNumberFromNetAttachDef (na_name (interfaces ! i)) = Inr port" "code \<in> {200, 204}"
    "set_annotation L2SM_NETWORK_ANNOTATION (MultusAnnotationToString (renamed_networks networks i (net_name target))) p = Val p'"
    and u: "updateNetworkStatuses E source target (om_name (pod_meta stored)) (na_ips (interfaces ! i))
       (UpdatedPod p' (Inr stored) #
          sent s ''POST'' ''/vnets/api/port'' (payload_json (payload (net_name target) [of_port E (pod_node p) OVERLAY_PROVIDER port])) (Inr 204) #
          sent s ''DELETE'' ''/vnets/api/port'' (payload_json (payload (net_name source) [of_port E (pod_node p) OVERLAY_PROVIDER port])) (Inr code) # h) =
     (Val (nets, None), h')"
    by (rule movePod_moved)
  have "(case moved_statuses source target (om_name (pod_meta stored)) (na_ips (interfaces ! i)) of (s', t') \<Rightarrow>
      h' = [UpdatedNetStatus t' (Inr (snd nets)), UpdatedNetStatus s' (Inr (fst nets)), UpdatedPod p' (Inr stored),
          sent s ''POST'' ''/vnets/api/port'' (payload_json (payload (net_name target) [of_port E (pod_node p) OVERLAY_PROVIDER port])) (Inr 204),
          sent s ''DELETE'' ''/vnets/api/port'' (payload_json (payload (net_name source) [of_port E (pod_node p) OVERLAY_PROVIDER port])) (Inr code)] @ h)"
    using u by (auto simp: updateNetworkStatuses_def run_simps Let_def split: prod.splits sum.splits)
  then show ?thesis
    using r networkAnnotationIndex_Some [OF r(3)] annotation_set [OF r(7)]
    by (intro exI [of _ networks] exI [of _ interfaces] exI [of _ i] exI [of _ port] exI [of _ code] exI [of _ p'] exI [of _ stored])
      (simp add: renamed_networks_def Let_def)
qed

definition moved_ips :: "string list \<Rightarrow> string list" where
  "moved_ips addresses = List.map_filter (\<lambda>a. map_option (\<lambda>(ip, _). ip_string ip) (parse_cidr a)) addresses"

lemma move_addresses_get:
  "map_get (fst (move_addresses podName pools addresses)) a = (if a \<in> set (moved_ips addresses) then None else map_get (fst pools) a)"
  "map_get (snd (move_addresses podName pools addresses)) a = (if a \<in> set (moved_ips addresses) then Some podName else map_get (snd pools) a)"
  unfolding move_addresses_def moved_ips_def
  by (induction addresses arbitrary: pools) (auto simp: move_address_def map_filter_simps split: option.split prod.split)

text \<open>
  The pools follow the pod: each address of the moved interface is free in the source
  network and recorded for the pod in the target network, where it replaces the pod that had
  it, all other addresses stay as they were, and one pod is counted over (never below zero).
\<close>

lemma quarantine_moves_addresses:
  "map_get (st_assigned_ips (net_status (fst (moved_statuses source target podName addresses)))) a =
     (if a \<in> set (moved_ips addresses) then None else map_get (st_assigned_ips (net_status source)) a) \<and>
   map_get (st_assigned_ips (net_status (snd (moved_statuses source target podName addresses)))) a =
     (if a \<in> set (moved_ips addresses) then Some podName else map_get (st_assigned_ips (net_status target)) a) \<and>
   st_connected_pods (net_status (snd (moved_statuses source target podName addresses))) = st_connected_pods (net_status target) + 1 \<and>
   st_connected_pods (net_status (fst (moved_statuses source target podName addresses))) =
     (let n = st_connected_pods (net_status source) in if n > 0 then n - 1 else n)"
  by (simp add: moved_statuses_def Let_def move_addresses_get)

section \<open>A pod that is moved\<close>

definition plain_network :: "string \<Rightarrow> l2network" where
  "plain_network name = \<lparr>net_meta = new_meta name ''default'',
     net_spec = \<lparr>ns_type = NetworkTypeVnet, ns_config = None, ns_provider = None, ns_network_cidr = [],
       ns_pod_address_range = [], ns_ids = None\<rparr>,
     net_status = \<lparr>st_connected_pods = 1, st_last_assigned_ip = [], st_assigned_ips = None,
       st_internal = None, st_provider = None\<rparr>\<rparr>"

definition suspect :: pod where
  "suspect = \<lparr>pod_meta = (new_meta ''web'' ''default'')\<lparr>om_annotations := Some [L2SM_NETWORK_ANNOTATION \<mapsto> ''net'',
     MULTUS_ANNOTATION_KEY \<mapsto> ''veth3'']\<rparr>, pod_node = ''n1''\<rparr>"

definition quarantine :: quarantine_request where
  "quarantine = \<lparr>qp_meta = new_meta ''q'' ''default'',
     qp_spec = \<lparr>qr_selector = \<lparr>qs_pods = \<lparr>sel_match_labels = None, sel_match_expressions = []\<rparr>,
       qs_networks = \<lparr>sel_match_labels = None, sel_match_expressions = []\<rparr>\<rparr>, qr_target = ''safe''\<rparr>,
     qp_status = \<lparr>qt_generation = 0, qt_source = [], qt_target = [], qt_matched = 0, qt_moved = 0, qt_conditions = []\<rparr>\<rparr>"

text \<open>Detaching is answered 204, everything else \<open>code\<close>.\<close>

definition quarantine_env :: "nat \<Rightarrow> environment" where
  "quarantine_env code = quiet_env\<lparr>e_get_quarantine := (\<lambda>_ _. Inr quarantine), e_list_nets := (\<lambda>_ _. Inr [plain_network ''net'']),
     e_get_net := (\<lambda>_ _. Inr (plain_network ''safe'')), e_list_pods := (\<lambda>_ _ _. Inr [suspect]),
     e_http := (\<lambda>_ m _ _ _. Inr (if m = ''DELETE'' then 204 else if m = ''GET'' then 200 else code))\<rparr>"

lemma suspect_simps:
  "has_annotation suspect L2SM_NETWORK_ANNOTATION" "has_annotation suspect MULTUS_ANNOTATION_KEY"
  "annotation_of suspect L2SM_NETWORK_ANNOTATION = ''net''" "annotation_of suspect MULTUS_ANNOTATION_KEY = ''veth3''"
  "\<not> om_deleted (pod_meta suspect)" "om_namespace (pod_meta suspect) = ''default''" "om_name (pod_meta suspect) = ''web''"
  "net_name (plain_network k) = k"
  by (simp_all add: suspect_def plain_network_def has_annotation_def annotation_of_def new_meta_def
      L2SM_NETWORK_ANNOTATION_def MULTUS_ANNOTATION_KEY_def)

lemma suspect_networks:
  "ExtractNetworks ''net'' ''default'' = Inr [new_annotation\<lparr>na_name := ''net'', na_namespace := ''default''\<rparr>]"
  "ExtractNetworks ''veth3'' ''default'' = Inr [new_annotation\<lparr>na_name := ''veth3'', na_namespace := ''default''\<rparr>]"
  "GetPortNumberFromNetAttachDef ''veth3'' = Inr ''3''"
  by code_simp+

abbreviation quarantine_session :: session_client where
  "quarantine_session \<equiv> NewSessionClient ''http://sdn'' [] []"

abbreviation suspect_move_request :: "string \<Rightarrow> string \<Rightarrow> nat \<Rightarrow> event" where
  "suspect_move_request m network code \<equiv>
     sent quarantine_session m ''/vnets/api/port'' (payload_json (payload network [''of:n1/3''])) (Inr code)"

definition moved_suspect :: pod where
  "moved_suspect = suspect\<lparr>pod_meta := (pod_meta suspect)\<lparr>om_annotations := Some [
     L2SM_NETWORK_ANNOTATION \<mapsto> MultusAnnotationToString (renamed_networks
       [new_annotation\<lparr>na_name := ''net'', na_namespace := ''default''\<rparr>] 0 ''safe''),
     MULTUS_ANNOTATION_KEY \<mapsto> ''veth3'']\<rparr>\<rparr>"

abbreviation net_left :: l2network where
  "net_left \<equiv> fst (moved_statuses (plain_network ''net'') (plain_network ''safe'') ''web'' [])"

abbreviation safe_joined :: l2network where
  "safe_joined \<equiv> snd (moved_statuses (plain_network ''net'') (plain_network ''safe'') ''web'' [])"

lemma quarantine_env_simps:
  "e_url_error (quarantine_env c) u = None" "e_http (quarantine_env c) h ''DELETE'' u x b = Inr 204"
  "e_http (quarantine_env c) h ''POST'' u x b = Inr c" "e_http (quarantine_env c) h ''GET'' u x b = Inr 200"
  "e_update_pod (quarantine_env c) h p = Inr p" "e_update_net_status (quarantine_env c) h n = Inr n"
  "e_update_quarantine_status (quarantine_env c) h q = Inr q" "e_selector (quarantine_env c) l = Inr []"
  "e_list_pods (quarantine_env c) h a b = Inr [suspect]" "e_get_net (quarantine_env c) h k = Inr (plain_network ''safe'')"
  "e_list_nets (quarantine_env c) h y = Inr [plain_network ''net'']" "e_get_quarantine (quarantine_env c) h k = Inr quarantine"
  "of_port (quarantine_env c) (pod_node suspect) OVERLAY_PROVIDER ''3'' = ''of:n1/3''"
  by (simp_all add: quarantine_env_def quiet_env_def of_port_def suspect_def)

lemma suspect_annotation:
  "set_annotation L2SM_NETWORK_ANNOTATION (MultusAnnotationToString (renamed_networks
     [new_annotation\<lparr>na_name := ''net'', na_namespace := ''default''\<rparr>] 0 ''safe'')) suspect = Val moved_suspect"
  by (simp add: set_annotation_def moved_suspect_def suspect_def new_meta_def fun_upd_twist
      L2SM_NETWORK_ANNOTATION_def MULTUS_ANNOTATION_KEY_def)

lemma suspect_move:
  "movePodToTargetNetwork (quarantine_env 204) (InternalClient (quarantine_env 204) quarantine_session) suspect
     (plain_network ''net'') (plain_network ''safe'') h =
   (Val ((net_left, safe_joined), Inr True),
     UpdatedNetStatus safe_joined (Inr safe_joined) # UpdatedNetStatus net_left (Inr net_left) #
     UpdatedPod moved_suspect (Inr moved_suspect) # suspect_move_request ''POST'' ''safe'' 204 #
     suspect_move_request ''DELETE'' ''net'' 204 # h)"
proof -
  have "om_name (pod_meta moved_suspect) = ''web''" "na_ips new_annotation = []"
    by (simp_all add: moved_suspect_def suspect_simps new_annotation_def)
  then show ?thesis
    by (simp add: movePodToTargetNetwork_def Let_def suspect_simps suspect_networks run_simps InternalClient_def
        internal_DetachPodFromNetwork_def internal_AttachPodToNetwork_def Post_def Delete_def newRequest_def Do_def expect_status_def sent_def
        quarantine_env_simps suspect_annotation updateNetworkStatuses_def split: prod.split)
qed

lemma suspect_run:
  "\<exists>q. qt_moved (qp_status q) = 1 \<and> Reconcile (quarantine_env 204) (quarantine_reconciler (quarantine_env 204) quarantine_session) (''default'', ''q'') [] =
   (Val None,
     [UpdatedQuarantineStatus q (Inr q), UpdatedNetStatus safe_joined (Inr safe_joined), UpdatedNetStatus net_left (Inr net_left),
      UpdatedPod moved_suspect (Inr moved_suspect), suspect_move_request ''POST'' ''safe'' 204, suspect_move_request ''DELETE'' ''net'' 204,
      ListedPods ''default'' [] (Inr [suspect]), sent quarantine_session ''GET'' ''/vnets/api/safe'' [] (Inr 200),
      GotNet (''default'', ''safe'') (Inr (plain_network ''safe'')),
      ListedNets (Some (''default'', [])) (Inr [plain_network ''net'']), GotQuarantine (''default'', ''q'') (Inr quarantine)])"
proof -
  have q: "qr_target (qp_spec quarantine) = ''safe''" "om_namespace (qp_meta quarantine) = ''default''"
    by (simp_all add: quarantine_def new_meta_def)
  have c: "cl_exists (InternalClient (quarantine_env 204) quarantine_session) t ''safe'' h =
      (Val (Inr True), sent quarantine_session ''GET'' ''/vnets/api/safe'' [] (Inr 200) # h)" for t h
    by (simp add: InternalClient_def internal_CheckNetworkExists_def Get_def newRequest_def Do_def run_simps quarantine_env_simps sent_def)
  show ?thesis
    by (simp add: Reconcile_def resolveSourceNetwork_def run_simps quarantine_env_simps q Let_def suspect_simps c quarantine_pods_def
        quarantine_pod_def suspect_move setQuarantineStatus_def case_prod_beta)
qed


theorem quarantine_move_witness:
  "\<exists>networks i. i < length networks \<and> na_name (networks ! i) = ''net'' \<and>
     pod_annotation moved_suspect L2SM_NETWORK_ANNOTATION = Some (MultusAnnotationToString (networks[i := (networks ! i)\<lparr>na_name := ''safe''\<rparr>]))"
  using quarantine_move [OF suspect_move [of "[]"]] by (fastforce simp: Let_def suspect_simps case_prod_beta)

theorem quarantine_stores_moved_pods_witness:
  "\<exists>networks i target. i < length networks \<and>
     pod_annotation moved_suspect L2SM_NETWORK_ANNOTATION = Some (MultusAnnotationToString (networks[i := (networks ! i)\<lparr>na_name := target\<rparr>]))"
proof -
  from suspect_run obtain q where r: "Reconcile (quarantine_env 204) (quarantine_reconciler (quarantine_env 204) quarantine_session) (''default'', ''q'') [] =
     (Val None,
     [UpdatedQuarantineStatus q (Inr q), UpdatedNetStatus safe_joined (Inr safe_joined), UpdatedNetStatus net_left (Inr net_left)] @
      UpdatedPod moved_suspect (Inr moved_suspect) # [suspect_move_request ''POST'' ''safe'' 204, suspect_move_request ''DELETE'' ''net'' 204,
      ListedPods ''default'' [] (Inr [suspect]), sent quarantine_session ''GET'' ''/vnets/api/safe'' [] (Inr 200),
      GotNet (''default'', ''safe'') (Inr (plain_network ''safe'')),
      ListedNets (Some (''default'', [])) (Inr [plain_network ''net'']), GotQuarantine (''default'', ''q'') (Inr quarantine)])" (is "_ = (_, ?h)")
    by auto
  have "controller_run (Reconcile (quarantine_env 204) (quarantine_reconciler (quarantine_env 204) quarantine_session)) (\<lambda>e. \<not> stores_move e) ?h"
    by (rule controller_run.reconcile [where k = "(''default'', ''q'')" and h = "[]"]) (rule controller_run.start, rule r)
  from quarantine_stores_moved_pods [OF this refl] show ?thesis by blast
qed

theorem quarantine_half_move_witness:
  "\<exists>q. quarantine_pod (quarantine_env 500) (InternalClient (quarantine_env 500) quarantine_session) quarantine suspect
      ((0, 0), plain_network ''net'', plain_network ''safe'') [] =
    (Val (Inl None), [UpdatedQuarantineStatus q (Inr q), suspect_move_request ''POST'' ''safe'' 500, suspect_move_request ''DELETE'' ''net'' 204]) \<and>
    qt_moved (qp_status q) = 0"
  using quarantine_half_move [of suspect "[new_annotation\<lparr>na_name := ''net'', na_namespace := ''default''\<rparr>]"
      "[new_annotation\<lparr>na_name := ''veth3'', na_namespace := ''default''\<rparr>]" "plain_network ''net''" 0 "''3''" "quarantine_env 500" 500
      quarantine_session quarantine 0 0 "plain_network ''safe''" "[]"]
  by (simp add: suspect_simps suspect_networks quarantine_env_simps)

theorem quarantine_panics_without_source_witness:
  "\<exists>h'. Reconcile ((quarantine_env 204)\<lparr>e_list_nets := \<lambda>_ _. Inr []\<rparr>) \<lparr>qc_client = None\<rparr> (''default'', ''q'') [] = (Panic, h')"
  using quarantine_panics_without_source [of "(quarantine_env 204)\<lparr>e_list_nets := \<lambda>_ _. Inr []\<rparr>" "[]" "(''default'', ''q'')" quarantine "[]" "[]"
      "\<lparr>qc_client = None\<rparr>"]
  by (fastforce simp: quarantine_env_simps)

end
