(* ===== verification/SwitchPods.thy ===== *)
theory SwitchPods
  imports PodUtils Monitoring
begin

text \<open>
  What the controllers of overlays and of network edge devices share
  (\<^verbatim>\<open>overlay_controller.go\<close>, \<^verbatim>\<open>networkedgedevice_controller.go\<close>): the loop that creates the
  objects of a resource with an owner reference, the mount added to the containers of a
  switch template, the clients for the monitoring network, and the shape of the runs of a
  controller that guards its finalizer.
\<close>

section \<open>Code\<close>

text \<open>A reconciliation returns after how many seconds it wants to run again, and the error.\<close>

type_synonym reconcile_result = "nat \<times> err option"

text \<open>The kind in the error text is that of the object's type meta, empty when it has none.\<close>

definition create_owned ::
  "environment \<Rightarrow> string \<Rightarrow> obj_meta \<Rightarrow> string \<times> obj \<Rightarrow> unit \<Rightarrow> (history, err option + unit) go" where
  "create_owned E owner_kind owner ob u = (case ob of (kind, x) \<Rightarrow>
     case SetControllerReference E owner_kind owner x of
       Inl e \<Rightarrow> ret (Inl (Some (Errorf ''failed to set controller reference to obj %s: %w'' [obj_name x] (Some e))))
     | Inr x \<Rightarrow> gbind (create_obj E x) (\<lambda>err. case err of
         Some e \<Rightarrow> ret (Inl (Some (Errorf ''failed to create %s %s: %w'' [kind, obj_name x] (Some e))))
       | None \<Rightarrow> ret (Inr ())))"

definition create_all :: "environment \<Rightarrow> string \<Rightarrow> obj_meta \<Rightarrow> (string \<times> obj) list \<Rightarrow> (history, err option) go" where
  "create_all E owner_kind owner objs =
     gbind (gloop (create_owned E owner_kind owner) objs ()) (\<lambda>r. ret (case r of Inl v \<Rightarrow> v | Inr _ \<Rightarrow> None))"

text \<open>The containers of a template, each with one more mount.\<close>

definition mount_config :: "string \<Rightarrow> container list \<Rightarrow> container list" where
  "mount_config volume cs = map (\<lambda>c. c\<lparr>ct_mounts := ct_mounts c @
     [\<lparr>vm_name = volume, vm_path = ''/etc/l2sm/'', vm_sub_path = [], vm_read_only = True\<rparr>]\<rparr>) cs"

text \<open>\<^verbatim>\<open>maps.Copy\<close> into a fresh map.\<close>

definition copy_map :: "gomap \<Rightarrow> gomap" where
  "copy_map m = Some (case m of None \<Rightarrow> Map.empty | Some f \<Rightarrow> f)"

definition monitoringClientFactory :: "environment \<Rightarrow> client_factory option \<Rightarrow> client_factory" where
  "monitoringClientFactory E f = (case f of None \<Rightarrow> DefaultClientFactory E | Some c \<Rightarrow> c)"

text \<open>The error of attaching the volume is dropped.\<close>

definition attach_collector :: "pod_spec \<Rightarrow> string \<Rightarrow> pod_spec" where
  "attach_collector ps rsName = (case AttachCollectorConfigToReplicaSet (Some ps) rsName of Inl e \<Rightarrow> ps | Inr ps' \<Rightarrow> ps')"

section \<open>Lemmas\<close>

definition owned :: "environment \<Rightarrow> string \<Rightarrow> obj_meta \<Rightarrow> obj \<Rightarrow> obj option" where
  "owned E kind owner x = (case SetControllerReference E kind owner x of Inl e \<Rightarrow> None | Inr y \<Rightarrow> Some y)"

fun accepted_object :: "event \<Rightarrow> obj option" where
  "accepted_object (Created x None) = Some x"
| "accepted_object _ = None"

text \<open>The objects accepted by the API server, newest first.\<close>

abbreviation created :: "history \<Rightarrow> obj list" where
  "created \<equiv> view accepted_object"

lemma wp_create_owned:
  "wp (create_owned E kind owner (k, x) u) (\<lambda>r h'.
     (\<exists>e. r = Val (Inl (Some e)) \<and> created h' = created h) \<or>
     (\<exists>y. r = Val (Inr ()) \<and> owned E kind owner x = Some y \<and> created h' = y # created h)) h"
proof -
  have "accepted_object (Created y z) = (if z = None then Some y else None)" for y z by (cases z) simp_all
  then show ?thesis
    by (auto simp: create_owned_def owned_def wp_simps split: sum.split option.split)
qed

text \<open>
  Creation stops at the first refusal: what was accepted are the first objects of the list,
  each with its owner, and all of them exactly when no error is returned.
\<close>

lemma wp_create_all:
  "wp (create_all E kind owner objs) (\<lambda>r h'. \<exists>n err. r = Val err \<and> n \<le> length objs \<and> (err = None \<longleftrightarrow> n = length objs) \<and>
     map Some (created h') = rev (map (\<lambda>(k, x). owned E kind owner x) (take n objs)) @ map Some (created h)) h"
  unfolding create_all_def wp_gbind
proof (rule wp_gloop [where I = "\<lambda>ds u w. map Some (created w) =
    rev (map (\<lambda>(k, x). owned E kind owner x) ds) @ map Some (created h)"], goal_cases)
  case (1 ds ob u w)
  then obtain k x es where ob: "ob = (k, x)" and objs: "objs = ds @ (k, x) # es" by (cases ob) auto
  have stopped: "\<exists>n. n \<le> length objs \<and> n \<noteq> length objs \<and>
      map Some (created w) = rev (map (\<lambda>(k, x). owned E kind owner x) (take n objs)) @ map Some (created h)"
    using 1 objs by (intro exI [of _ "length ds"]) simp
  show ?case unfolding ob
    by (rule wp_mono [OF wp_create_owned]) (use stopped 1 in \<open>auto simp: wp_ret\<close>)
next
  case (2 u w)
  then show ?case by (auto simp: wp_ret intro!: exI [of _ "length objs"])
qed simp

lemma emits_create_all [emits_intros]: "(\<And>x r. P (Created x r)) \<Longrightarrow> emits P (create_all E kind owner objs)"
  unfolding create_all_def create_owned_def by (intro emits_intros)

end
