(* ===== verification/Overlay.thy ===== *)
theory Overlay
  imports SwitchPods
begin

text \<open>
  \<^verbatim>\<open>internal/controller/overlay_controller.go\<close>: the reconciler of overlays. It creates, once,
  the topology config map, the attachment definitions, one switch replica set and one service
  per node and, with a monitor, the exporter and the collectors; then the monitoring network.
  The replica sets share one slice of containers, which the monitoring patches in place: the
  shared slice is the accumulator of \<open>add_collectors\<close>.
\<close>

section \<open>Code\<close>

record overlay_reconciler =
  or_factory :: "client_factory option"

definition applyOverlayDefaults :: "overlay option \<Rightarrow> err + overlay" where
  "applyOverlayDefaults overlayp =
     (case overlayp of
        None \<Rightarrow> Inl (errorf ''overlay is nil'' [])
      | Some overlay \<Rightarrow> (case ov_template overlay of
          Some t \<Rightarrow> Inr overlay
        | None \<Rightarrow> (case DefaultSwitchTemplate SwitchTemplateModeSPS of
            Inl e \<Rightarrow> Inl e
          | Inr template \<Rightarrow> Inr (overlay\<lparr>ov_template := Some template\<rparr>))))"

definition createMonitoringNetwork :: "environment \<Rightarrow> overlay_reconciler \<Rightarrow> overlay \<Rightarrow> (history, err option) go" where
  "createMonitoringNetwork E r overlay =
     gbind (cf_internal (monitoringClientFactory E (or_factory r))) (\<lambda>x. case x of
       Inl e \<Rightarrow> ret (Some e)
     | Inr client \<Rightarrow> (case ov_topology overlay of
         None \<Rightarrow> gpanic
       | Some tp \<Rightarrow> Ensure E \<lparr>mg_client = Some client\<rparr> (om_name (ov_meta overlay)) OVERLAY_PROVIDER (tp_nodes tp)))"

definition deleteMonitoringNetwork :: "environment \<Rightarrow> overlay_reconciler \<Rightarrow> overlay \<Rightarrow> (history, err option) go" where
  "deleteMonitoringNetwork E r overlay =
     gbind (cf_internal (monitoringClientFactory E (or_factory r))) (\<lambda>x. case x of
       Inl e \<Rightarrow> ret (Some e)
     | Inr client \<Rightarrow> DeleteMonitoring \<lparr>mg_client = Some client\<rparr> (om_name (ov_meta overlay)))"

text \<open>The definitions labelled with the overlay's name are deleted; a failure is dropped.\<close>

definition deleteExternalResources :: "environment \<Rightarrow> overlay \<Rightarrow> (history, err option) go" where
  "deleteExternalResources E overlay =
     gbind (delete_all_nads E (om_namespace (ov_meta overlay)) (om_name (ov_meta overlay))) (\<lambda>_. ret None)"

text \<open>A missing topology or provider is dereferenced.\<close>

definition buildTopologyConfigMap :: "environment \<Rightarrow> overlay \<Rightarrow> (err + config_map) flow" where
  "buildTopologyConfigMap E overlay =
     (let name = om_name (ov_meta overlay) in
      case (ov_topology overlay, ov_provider overlay) of
        (Some tp, Some provider) \<Rightarrow>
          (let nodes = map (\<lambda>n. \<lparr>sn_name = n, sn_ip = GenerateServiceName (GenerateSwitchPodName name n SlicePacketSwitch),
                 sn_neighbours = []\<rparr>) (tp_nodes tp);
               settings = \<lparr>ss_controller_ip = pv_domain provider, ss_controller_port = pv_of_port provider,
                 ss_interfaces = ov_interface_number overlay, ss_provider = OVERLAY_PROVIDER, ss_node = [], ss_switch = []\<rparr>
           in Val (case e_topology_json E \<lparr>st_nodes = nodes, st_links = tp_links tp\<rparr> of
                Inl e \<Rightarrow> Inl e
              | Inr topologyJSON \<Rightarrow> (case e_settings_json E settings of
                  Inl e \<Rightarrow> Inl e
                | Inr configJSON \<Rightarrow> Inr
                    \<lparr>cm_meta = new_meta (name @ ''-topology'') (om_namespace (ov_meta overlay)),
                     cm_data = Some [''topology.json'' \<mapsto> topologyJSON, ''config.json'' \<mapsto> configJSON]\<rparr>)))
      | _ \<Rightarrow> Panic)"

definition json_line :: "string \<Rightarrow> string \<Rightarrow> string" where
  "json_line k v = ''            '' @ [CHR 0x22] @ k @ [CHR 0x22] @ '': '' @ v"

definition json_text :: "string \<Rightarrow> string" where
  "json_text s = [CHR 0x22] @ s @ [CHR 0x22]"

definition nad_config_text :: "string \<Rightarrow> nat \<Rightarrow> string" where
  "nad_config_text name i = join nl
     [''{'',
      json_line ''cniVersion'' (json_text ''0.3.0'') @ '','',
      json_line ''type'' (json_text ''bridge'') @ '','',
      json_line ''bridge'' (json_text (''br'' @ dec i)) @ '','',
      json_line ''mtu'' ''1400,'',
      json_line ''device'' (json_text (name @ ''-veth'' @ dec i)) @ '','',
      json_line ''ipam'' (''{ '' @ json_text ''type'' @ '':'' @ json_text ''static'' @ '' }''),
      ''        }'']"

definition overlay_nad :: "overlay \<Rightarrow> nat \<Rightarrow> nad" where
  "overlay_nad overlay i =
     (let name = om_name (ov_meta overlay)
      in \<lparr>nad_meta = (new_meta (name @ ''-veth'' @ dec i) (om_namespace (ov_meta overlay)))
            \<lparr>om_labels := Some [''app'' \<mapsto> ''l2sm'', ''overlay'' \<mapsto> name]\<rparr>,
          nad_config = nad_config_text name i\<rparr>)"

definition buildNetworkAttachmentDefinitions :: "overlay \<Rightarrow> nad list" where
  "buildNetworkAttachmentDefinitions overlay = map (overlay_nad overlay) [1..<Suc (nat (ov_interface_number overlay))]"

text \<open>The replica set and the service of one node.\<close>

definition node_replica_set :: "overlay \<Rightarrow> switch_template \<Rightarrow> string \<Rightarrow> container list \<Rightarrow> string \<Rightarrow> string \<Rightarrow> workload" where
  "node_replica_set overlay template configMapName containers node annotations =
     (let name = GenerateSwitchPodName (om_name (ov_meta overlay)) node SlicePacketSwitch
      in \<lparr>wl_meta = (new_meta (GenerateReplicaSetName name) (om_namespace (ov_meta overlay)))
            \<lparr>om_labels := copy_map (om_labels (sw_meta template)), om_annotations := copy_map (om_annotations (sw_meta template))\<rparr>,
          wl_replicas = Some 1,
          wl_selector = Some [''app'' \<mapsto> name],
          wl_labels = Some [''app'' \<mapsto> name],
          wl_annotations = Some [MULTUS_ANNOTATION_KEY \<mapsto> annotations],
          wl_pod = new_pod_spec
            \<lparr>ps_init_containers := sp_init_containers (sw_spec template),
             ps_containers := containers,
             ps_volumes := [\<lparr>vol_name = ''config'', vol_source = ConfigMapSource configMapName
               [(''topology.json'', ''topology.json''), (''config.json'', ''config.json'')]\<rparr>],
             ps_host_network := sp_host_network (sw_spec template),
             ps_node_selector := Some [''kubernetes.io/hostname'' \<mapsto> node],
             ps_tolerate_all := True\<rparr>\<rparr>)"

definition node_service :: "overlay \<Rightarrow> string \<Rightarrow> service" where
  "node_service overlay node =
     (let name = GenerateSwitchPodName (om_name (ov_meta overlay)) node SlicePacketSwitch
      in \<lparr>svc_meta = (new_meta (GenerateServiceName name) (om_namespace (ov_meta overlay)))\<lparr>om_labels := Some [''app'' \<mapsto> name]\<rparr>,
          svc_cluster_ip = ''None'',
          svc_selector = Some [''app'' \<mapsto> name],
          svc_ports = [(''http'', [], 80)]\<rparr>)"

definition buildNodeResources :: "environment \<Rightarrow> overlay \<Rightarrow> string \<Rightarrow> (history, workload list \<times> service list) go" where
  "buildNodeResources E overlay configMapName =
     (case (ov_template overlay, ov_topology overlay) of
        (Some template, Some tp) \<Rightarrow>
          (let containers = mount_config ''config'' (sp_containers (sw_spec template))
           in gbind (gloop (\<lambda>node (rss, svcs).
                  gbind (GenerateAnnotations E (om_name (ov_meta overlay)) node OVERLAY_PROVIDER (ov_interface_number overlay))
                    (\<lambda>annotations. ret (Inr (rss @ [node_replica_set overlay template configMapName containers node annotations],
                       svcs @ [node_service overlay node])))) (tp_nodes tp) ([], []))
                (\<lambda>x. ret (case x of Inl (v :: unit) \<Rightarrow> ([], []) | Inr y \<Rightarrow> y)))
      | _ \<Rightarrow> gpanic)"

text \<open>
  The loop that adds the collector: patching one pod spec writes to the containers all replica
  sets still share; appending the collector then gives the set a slice of its own.
\<close>

fun add_collectors :: "container \<Rightarrow> container list \<Rightarrow> workload list \<Rightarrow> workload list" where
  "add_collectors monCont shared [] = []"
| "add_collectors monCont shared (rs # rss) =
     (let patched = AddLPMConfigMapToSps ((wl_pod rs)\<lparr>ps_containers := shared\<rparr>);
          spec = attach_collector (patched\<lparr>ps_containers := ps_containers patched @ [monCont]\<rparr>) (om_name (wl_meta rs))
      in rs\<lparr>wl_pod := spec\<rparr> # add_collectors monCont (ps_containers patched) rss)"

definition shared_containers :: "workload list \<Rightarrow> container list" where
  "shared_containers rss = (case rss of [] \<Rightarrow> [] | rs # _ \<Rightarrow> ps_containers (wl_pod rs))"

definition exporter_targets :: "overlay \<Rightarrow> topology \<Rightarrow> string list" where
  "exporter_targets overlay tp =
     map (\<lambda>node. GenerateServiceName (GenerateSwitchPodName (om_name (ov_meta overlay)) node SlicePacketSwitch) @ '':8090'') (tp_nodes tp)"

text \<open>The \<^verbatim>\<open>if overlay.Spec.Monitor != nil\<close> block: the patched replica sets, the exporter, the collectors.\<close>

definition monitoring_resources ::
  "environment \<Rightarrow> overlay \<Rightarrow> topology \<Rightarrow> workload list \<Rightarrow> (err + workload list \<times> obj list \<times> obj list) flow" where
  "monitoring_resources E overlay tp replicaSets =
     (case ov_monitor overlay of
        None \<Rightarrow> Val (Inr (replicaSets, [], []))
      | Some monitor \<Rightarrow>
          (let exporterResources = (case mo_export monitor of
                 None \<Rightarrow> Inr []
               | Some ex \<Rightarrow> map_sum id (\<lambda>(d, cm, svc). [ODeployment d, OConfigMap cm, OService svc])
                   (BuildResources (NewExporter (ex_method ex) (om_namespace (ov_meta overlay)) (ex_config ex))
                      (ex_service_account ex) (exporter_targets overlay tp)))
           in case exporterResources of
                Inl e \<Rightarrow> Val (Inl (Errorf ''failed to build monitoring resources: %w'' [] (Some e)))
              | Inr exp \<Rightarrow>
                  (case BuildMonitoringCollectorResources E (Some overlay)
                      (no_options\<lparr>co_spread_factor := Some (mo_spread_factor monitor), co_network_cidr := mo_network_cidr monitor\<rparr>) of
                     Panic \<Rightarrow> Panic
                   | Hang \<Rightarrow> Hang
                   | Val (Inl e) \<Rightarrow> Val (Inl (Errorf
                       ''failed to build collector monitoring resources; continuing without monitoring %w'' [] (Some e)))
                   | Val (Inr (monCont, monCMs)) \<Rightarrow>
                       Val (Inr (add_collectors monCont (shared_containers replicaSets) replicaSets,
                         exp, map OConfigMap monCMs)))))"

definition createExternalResources :: "environment \<Rightarrow> overlay \<Rightarrow> (history, err option) go" where
  "createExternalResources E overlay =
     gbind (glift (buildTopologyConfigMap E overlay)) (\<lambda>x. case x of
       Inl e \<Rightarrow> ret (Some (Errorf ''failed to build config map: %w'' [] (Some e)))
     | Inr configMap \<Rightarrow>
         (let netAttachDefs = buildNetworkAttachmentDefinitions overlay
          in gbind (buildNodeResources E overlay (om_name (cm_meta configMap))) (\<lambda>(replicaSets, services).
             case ov_topology overlay of
               None \<Rightarrow> gpanic
             | Some tp \<Rightarrow>
                 gbind (glift (monitoring_resources E overlay tp replicaSets)) (\<lambda>y. case y of
                   Inl e \<Rightarrow> ret (Some e)
                 | Inr (replicaSets, exp, collectors) \<Rightarrow>
                     create_all E ''Overlay'' (ov_meta overlay) (map (Pair [])
                       ([OConfigMap configMap] @ map ONad netAttachDefs @ map OReplicaSet replicaSets @ map OService services @
                        exp @ collectors))))))"

definition set_overlay_finalizers :: "string list \<Rightarrow> overlay \<Rightarrow> overlay" where
  "set_overlay_finalizers fs overlay = overlay\<lparr>ov_meta := (ov_meta overlay)\<lparr>om_finalizers := fs\<rparr>\<rparr>"

definition delete_overlay :: "environment \<Rightarrow> overlay_reconciler \<Rightarrow> overlay \<Rightarrow> (history, reconcile_result) go" where
  "delete_overlay E r overlay =
     (if l2smFinalizer \<notin> set (om_finalizers (ov_meta overlay)) then ret (0, None)
      else gbind (deleteExternalResources E overlay) (\<lambda>err. case err of
          Some e \<Rightarrow> ret (0, Some e)
        | None \<Rightarrow>
            gbind (if ov_monitor overlay = None then ret None else deleteMonitoringNetwork E r overlay) (\<lambda>err. case err of
              Some e \<Rightarrow> ret (0, Some e)
            | None \<Rightarrow>
                gbind (update_overlay E (set_overlay_finalizers
                    (filter (\<lambda>f. f \<noteq> l2smFinalizer) (om_finalizers (ov_meta overlay))) overlay)) (\<lambda>x.
                  ret (0, case x of Inl e \<Rightarrow> Some e | Inr _ \<Rightarrow> None)))))"

text \<open>\<open>Inl v\<close> is a \<^verbatim>\<open>return\<close> of \<open>Reconcile\<close>.\<close>

definition register_overlay :: "environment \<Rightarrow> overlay \<Rightarrow> (history, reconcile_result + overlay) go" where
  "register_overlay E overlay =
     (if l2smFinalizer \<in> set (om_finalizers (ov_meta overlay)) then ret (Inr overlay)
      else case applyOverlayDefaults (Some overlay) of
        Inl e \<Rightarrow> ret (Inl (0, Some (Errorf ''failed to apply overlay defaults: %w'' [] (Some e))))
      | Inr overlay \<Rightarrow>
          gbind (update_overlay E (set_overlay_finalizers (om_finalizers (ov_meta overlay) @ [l2smFinalizer]) overlay)) (\<lambda>x. ret (case x of
            Inl e \<Rightarrow> Inl (0, Some e)
          | Inr stored \<Rightarrow> Inr stored)))"

definition launch_overlay :: "environment \<Rightarrow> overlay_reconciler \<Rightarrow> overlay \<Rightarrow> (history, reconcile_result) go" where
  "launch_overlay E r overlay =
     gbind (createExternalResources E overlay) (\<lambda>err. case err of
       Some e \<Rightarrow> ret (0, Some e)
     | None \<Rightarrow>
         gbind (if ov_monitor overlay = None then ret None else createMonitoringNetwork E r overlay) (\<lambda>err. ret (case err of
           Some e \<Rightarrow> (0, Some e)
         | None \<Rightarrow> (20, None))))"

definition Reconcile :: "environment \<Rightarrow> overlay_reconciler \<Rightarrow> key \<Rightarrow> (history, reconcile_result) go" where
  "Reconcile E r req =
     gbind (get_overlay E req) (\<lambda>got. case got of
       Inl e \<Rightarrow> ret (0, ignore_not_found e)
     | Inr overlay \<Rightarrow>
         if om_deleted (ov_meta overlay) then delete_overlay E r overlay
         else gbind (register_overlay E overlay) (\<lambda>x. case x of
             Inl v \<Rightarrow> ret v
           | Inr overlay \<Rightarrow>
               gbind (list_replica_sets E ''.metadata.controller.overlay'' (fst req) (snd req)) (\<lambda>y. case y of
                 Inl e \<Rightarrow> ret (0, Some e)
               | Inr items \<Rightarrow> if items = [] then launch_overlay E r overlay else ret (0, None))))"

section \<open>The switches\<close>

lemma wp_GenerateAnnotations:
  assumes "\<And>h s h'. GenerateAnnotations E ov node pv n h = (Val s, h') \<Longrightarrow> P s"
  shows "wp (GenerateAnnotations E ov node pv n) (\<lambda>r h'. (\<exists>s. r = Val s \<and> P s) \<and> view accepted_object h' = view accepted_object h) h"
proof -
  have "wp (gloop (\<lambda>i as. gbind (Generate4byteChunk E) (\<lambda>chunk. ret (Inr (as @ [annotation_text E ov node i chunk])))) xs s)
      (\<lambda>r h'. (\<exists>y. r = Val (Inr y :: unit + string list)) \<and> created h' = created h) h" for xs s
    by (rule wp_gloop [where I = "\<lambda>ds s w. created w = created h"]) (auto simp: Generate4byteChunk_def wp_simps)
  then have "wp (GenerateAnnotations E ov node pv n) (\<lambda>r h'. (\<exists>s. r = Val s) \<and> view accepted_object h' = view accepted_object h) h"
    unfolding GenerateAnnotations_def wp_gbind
    by (rule wp_mono) (auto simp: wp_ret)
  then show ?thesis using assms by (auto simp: wp_def)
qed

abbreviation switch_containers :: "switch_template \<Rightarrow> container list" where
  "switch_containers template \<equiv> mount_config ''config'' (sp_containers (sw_spec template))"

lemma wp_buildNodeResources_with:
  assumes "ov_template ov = Some t" "ov_topology ov = Some tp"
    and "\<And>node h s h'. node \<in> set (tp_nodes tp) \<Longrightarrow>
      GenerateAnnotations E (om_name (ov_meta ov)) node OVERLAY_PROVIDER (ov_interface_number ov) h = (Val s, h') \<Longrightarrow> P s"
  shows "wp (buildNodeResources E ov cm) (\<lambda>r h'. \<exists>annots. length annots = length (tp_nodes tp) \<and> list_all P annots \<and> created h' = created h \<and>
     r = Val (map (\<lambda>(n, a). node_replica_set ov t cm (switch_containers t) n a) (zip (tp_nodes tp) annots),
       map (node_service ov) (tp_nodes tp))) h"
proof -
  let ?rs = "\<lambda>(n, a). node_replica_set ov t cm (switch_containers t) n a"
  have "wp (gloop (\<lambda>node (rss, svcs).
      gbind (GenerateAnnotations E (om_name (ov_meta ov)) node OVERLAY_PROVIDER (ov_interface_number ov))
        (\<lambda>annotations. ret (Inr (rss @ [node_replica_set ov t cm (switch_containers t) node annotations], svcs @ [node_service ov node]))))
      (tp_nodes tp) ([], []))
     (\<lambda>r h'. \<exists>annots. length annots = length (tp_nodes tp) \<and> list_all P annots \<and> created h' = created h \<and>
       r = Val (Inr (map ?rs (zip (tp_nodes tp) annots), map (node_service ov) (tp_nodes tp)) :: unit + _)) h"
  proof (rule wp_gloop [where I = "\<lambda>ds st w. \<exists>annots. length annots = length ds \<and> list_all P annots \<and> created w = created h \<and>
       st = (map ?rs (zip ds annots), map (node_service ov) ds)"], goal_cases)
    case (1 ds x st w)
    then obtain annots where a: "length annots = length ds" "list_all P annots" "created w = created h"
      "st = (map ?rs (zip ds annots), map (node_service ov) ds)" by blast
    have ext: "\<exists>as. length as = Suc (length ds) \<and> list_all P as \<and>
        map ?rs (zip ds annots) @ [node_replica_set ov t cm (switch_containers t) x s] = map ?rs (zip (ds @ [x]) as)" if "P s" for s
      using a(1,2) that by (intro exI [of _ "annots @ [s]"]) simp
    have "x \<in> set (tp_nodes tp)" using 1(1) by auto
    then show ?case unfolding a(4) prod.case wp_gbind
      by (intro wp_mono [OF wp_GenerateAnnotations [OF assms(3)]]) (use a ext in \<open>auto simp: wp_ret\<close>)
  qed auto
  then show ?thesis
    unfolding buildNodeResources_def assms(1,2) Let_def prod.case option.case wp_gbind
    by (rule wp_mono) (auto simp: wp_ret)
qed

lemma wp_buildNodeResources:
  assumes "ov_template ov = Some t" "ov_topology ov = Some tp"
  shows "wp (buildNodeResources E ov cm) (\<lambda>r h'. \<exists>annots. length annots = length (tp_nodes tp) \<and> created h' = created h \<and>
     r = Val (map (\<lambda>(n, a). node_replica_set ov t cm (switch_containers t) n a) (zip (tp_nodes tp) annots),
       map (node_service ov) (tp_nodes tp))) h"
  by (rule wp_mono [OF wp_buildNodeResources_with [OF assms, where P = "\<lambda>_. True"]]) auto

text \<open>Sharing the slice of containers makes no difference: patching it twice is patching it once.\<close>

lemma add_collectors_separate:
  shows "add_collectors c shared rss = map (\<lambda>rs. rs\<lparr>wl_pod := attach_collector
     ((wl_pod rs)\<lparr>ps_containers := add_lpm_mount shared @ [c]\<rparr>) (om_name (wl_meta rs))\<rparr>) rss"
proof (induction rss arbitrary: shared)
  case (Cons rs rss)
  have "add_collectors c (add_lpm_mount shared) rss = map (\<lambda>rs. rs\<lparr>wl_pod := attach_collector
     ((wl_pod rs)\<lparr>ps_containers := add_lpm_mount (add_lpm_mount shared) @ [c]\<rparr>) (om_name (wl_meta rs))\<rparr>) rss"
    by (rule Cons.IH)
  then show ?case by (simp add: AddLPMConfigMapToSps_def Let_def add_lpm_mount_once)
qed simp

lemma switch_pod_name_nonempty: "GenerateSwitchPodName r n k \<noteq> []"
  by (cases k) (simp_all add: GenerateSwitchPodName_def Let_def)

lemma attach_collector_rs:
  "attach_collector ps (GenerateReplicaSetName (GenerateSwitchPodName r n k)) = ps\<lparr>ps_volumes := upsert_volume
     \<lparr>vol_name = collectorVolumeName, vol_source = ConfigMapSource (GenerateConfigmapName (GenerateReplicaSetName (GenerateSwitchPodName r n k)))
       [(collectorConfigKey, collectorMountedCfgName)]\<rparr> (ps_volumes ps)\<rparr>"
  using switch_pod_name_nonempty by (simp add: attach_collector_def AttachCollectorConfigToReplicaSet_def GenerateReplicaSetName_def)

lemma shared_containers_switch:
  "length annots = length nodes \<Longrightarrow> nodes \<noteq> [] \<Longrightarrow>
     shared_containers (map2 (node_replica_set ov t cm cs) nodes annots) = cs"
  by (cases nodes; cases annots) (simp_all add: shared_containers_def node_replica_set_def Let_def new_pod_spec_def)

lemma node_replica_set_simps:
  "om_name (wl_meta (node_replica_set ov t cm cs n a)) = GenerateReplicaSetName (GenerateSwitchPodName (om_name (ov_meta ov)) n SlicePacketSwitch)"
  "ps_node_selector (wl_pod (node_replica_set ov t cm cs n a)) = Some [''kubernetes.io/hostname'' \<mapsto> n]"
  by (simp_all add: node_replica_set_def Let_def new_meta_def)

lemma collector_config_map_simps:
  "om_name (cm_meta (collector_config_map ov n json)) =
     GenerateConfigmapName (GenerateReplicaSetName (GenerateSwitchPodName (om_name (ov_meta ov)) n SlicePacketSwitch))"
  "map_get (cm_data (collector_config_map ov n json)) collectorConfigKey = Some json"
  by (simp_all add: collector_config_map_def Let_def new_meta_def)

lemma monitoring_resources_Inr:
  assumes "monitoring_resources E ov tp rss = Val (Inr (rss', exp, cols))" "ov_monitor ov = Some m"
  obtains c cms where "BuildMonitoringCollectorResources E (Some ov)
      (no_options\<lparr>co_spread_factor := Some (mo_spread_factor m), co_network_cidr := mo_network_cidr m\<rparr>) = Val (Inr (c, cms))"
    "rss' = add_collectors c (shared_containers rss) rss" "cols = map OConfigMap cms"
  using assms by (auto simp: monitoring_resources_def Let_def split: sum.splits flow.splits)

lemma collector_maps_nth:
  assumes "BuildMonitoringCollectorResources E (Some ov) opts = Val (Inr (c, cms))" "ov_topology ov = Some tp"
  shows "c = collector_container opts \<and> tp_nodes tp \<noteq> [] \<and> length cms = length (tp_nodes tp) \<and>
    (\<forall>i<length (tp_nodes tp). \<exists>json. cms ! i = collector_config_map ov (tp_nodes tp ! i) json)"
proof -
  obtain f where "c = collector_container opts" "tp_nodes tp \<noteq> []" "collector_config_maps E ov f (tp_nodes tp) = Inr cms"
    using assms by (auto simp: BuildMonitoringCollectorResources_def Let_def map_sum_def
        split: flow.splits if_splits sum.splits option.splits prod.splits)
  then show ?thesis using collector_config_maps_Inr by blast
qed

text \<open>
  C23. With a monitor every switch is wired to its own collector: although the replica sets share
  their containers, each ends with the template's containers patched exactly once and the
  collector behind them, and its volume refers to the config map built for that very node.
\<close>

theorem overlay_monitoring_wired:
  assumes "monitoring_resources E ov tp (map2 (node_replica_set ov t cm (switch_containers t)) (tp_nodes tp) annots) = Val (Inr (rss, exp, cols))"
    and "ov_monitor ov = Some m" "ov_topology ov = Some tp" "length annots = length (tp_nodes tp)"
  shows "\<exists>collector. length rss = length (tp_nodes tp) \<and> length cols = length (tp_nodes tp) \<and>
    (\<forall>i<length (tp_nodes tp). \<exists>c. cols ! i = OConfigMap c \<and> map_get (cm_data c) ''config.json'' \<noteq> None \<and>
       ps_node_selector (wl_pod (rss ! i)) = Some [''kubernetes.io/hostname'' \<mapsto> tp_nodes tp ! i] \<and>
       ps_containers (wl_pod (rss ! i)) = add_lpm_mount (switch_containers t) @ [collector] \<and>
       (\<exists>v\<in>set (ps_volumes (wl_pod (rss ! i))). vol_source v = ConfigMapSource (om_name (cm_meta c)) [(''config.json'', ''lpm-config.json'')] \<and>
          (\<forall>vm\<in>set (ct_mounts collector). vm_name vm = vol_name v)))"
proof -
  obtain c cms where b: "BuildMonitoringCollectorResources E (Some ov)
      (no_options\<lparr>co_spread_factor := Some (mo_spread_factor m), co_network_cidr := mo_network_cidr m\<rparr>) = Val (Inr (c, cms))"
    and r: "rss = add_collectors c (shared_containers (map2 (node_replica_set ov t cm (switch_containers t)) (tp_nodes tp) annots))
        (map2 (node_replica_set ov t cm (switch_containers t)) (tp_nodes tp) annots)" and cols: "cols = map OConfigMap cms"
    by (rule monitoring_resources_Inr [OF assms(1,2)])
  note cms = collector_maps_nth [OF b assms(3)]
  have c: "\<forall>vm\<in>set (ct_mounts c). vm_name vm = collectorVolumeName"
    using cms by (simp add: collector_container_def)
  have v: "v \<in> set (upsert_volume v vs)" for v vs by (induction vs) auto
  show ?thesis
  proof (intro exI [of _ c] conjI allI impI)
    fix i assume i: "i < length (tp_nodes tp)"
    then obtain json where json: "cms ! i = collector_config_map ov (tp_nodes tp ! i) json" using cms by blast
    show "\<exists>d. cols ! i = OConfigMap d \<and> map_get (cm_data d) ''config.json'' \<noteq> None \<and>
       ps_node_selector (wl_pod (rss ! i)) = Some [''kubernetes.io/hostname'' \<mapsto> tp_nodes tp ! i] \<and>
       ps_containers (wl_pod (rss ! i)) = add_lpm_mount (switch_containers t) @ [c] \<and>
       (\<exists>v\<in>set (ps_volumes (wl_pod (rss ! i))). vol_source v = ConfigMapSource (om_name (cm_meta d)) [(''config.json'', ''lpm-config.json'')] \<and>
          (\<forall>vm\<in>set (ct_mounts c). vm_name vm = vol_name v))"
      using i cms assms(4) c
      by (auto simp: cols r add_collectors_separate shared_containers_switch node_replica_set_simps attach_collector_rs json
          collector_config_map_simps [unfolded collectorConfigKey_def] collectorConfigKey_def collectorMountedCfgName_def intro!: bexI [OF _ v])
  qed (use cms assms(4) in \<open>simp_all add: r cols add_collectors_separate\<close>)
qed

definition overlay_objects ::
  "environment \<Rightarrow> overlay \<Rightarrow> switch_template \<Rightarrow> topology \<Rightarrow> config_map \<Rightarrow> string list \<Rightarrow> obj list option" where
  "overlay_objects E ov t tp cm annots =
     (case monitoring_resources E ov tp (map2 (node_replica_set ov t (om_name (cm_meta cm)) (switch_containers t)) (tp_nodes tp) annots) of
        Val (Inr (rss, exp, cols)) \<Rightarrow> Some ([OConfigMap cm] @ map ONad (buildNetworkAttachmentDefinitions ov) @ map OReplicaSet rss @
          map (OService \<circ> node_service ov) (tp_nodes tp) @ exp @ cols)
      | _ \<Rightarrow> None)"

lemma wp_create_objects:
  "wp (create_all E kind owner (map (Pair k) objs)) (\<lambda>r h'. \<forall>err. r = Val err \<longrightarrow> (\<exists>n. n \<le> length objs \<and> (err = None \<longleftrightarrow> n = length objs) \<and>
     map Some (created h') = rev (map (owned E kind owner) (take n objs)) @ map Some (created h))) h"
  by (rule wp_mono [OF wp_create_all]) (auto simp: take_map)

lemma wp_createExternalResources:
  assumes t: "ov_template ov = Some t" "ov_topology ov = Some tp"
  shows "wp (createExternalResources E ov) (\<lambda>r h'. \<forall>err. r = Val err \<longrightarrow> err \<noteq> None \<and> created h' = created h \<or>
    (\<exists>cm annots objs n. buildTopologyConfigMap E ov = Val (Inr cm) \<and> length annots = length (tp_nodes tp) \<and>
       overlay_objects E ov t tp cm annots = Some objs \<and> n \<le> length objs \<and> (err = None \<longleftrightarrow> n = length objs) \<and>
       map Some (created h') = rev (map (owned E ''Overlay'' (ov_meta ov)) (take n objs)) @ map Some (created h))) h"
    (is "wp _ ?Q h")
proof (cases "\<exists>cm. buildTopologyConfigMap E ov = Val (Inr cm)")
  case True
  then obtain cm where cm: "buildTopologyConfigMap E ov = Val (Inr cm)" by blast
  have rest: "wp (case ov_topology ov of None \<Rightarrow> gpanic
          | Some tp \<Rightarrow> gbind (glift (monitoring_resources E ov tp (map2 (node_replica_set ov t (om_name (cm_meta cm)) (switch_containers t)) (tp_nodes tp0) annots)))
              (\<lambda>y. case y of Inl e \<Rightarrow> ret (Some e)
            | Inr (replicaSets, exp, collectors) \<Rightarrow> create_all E ''Overlay'' (ov_meta ov) (map (Pair [])
                ([OConfigMap cm] @ map ONad (buildNetworkAttachmentDefinitions ov) @ map OReplicaSet replicaSets @
                 map OService (map (node_service ov) (tp_nodes tp0)) @ exp @ collectors)))) ?Q h1"
      if len: "length annots = length (tp_nodes tp)" and h1: "created h1 = created h" and tp0: "tp0 = tp" for annots h1 tp0
  proof -
    let ?rss = "map2 (node_replica_set ov t (om_name (cm_meta cm)) (switch_containers t)) (tp_nodes tp) annots"
    show ?thesis
    proof (cases "\<exists>rss exp cols. monitoring_resources E ov tp ?rss = Val (Inr (rss, exp, cols))")
      case True
      then obtain rss exp cols where m: "monitoring_resources E ov tp ?rss = Val (Inr (rss, exp, cols))" by blast
      let ?objs = "[OConfigMap cm] @ map ONad (buildNetworkAttachmentDefinitions ov) @ map OReplicaSet rss @
          map OService (map (node_service ov) (tp_nodes tp)) @ exp @ cols"
      have objs: "overlay_objects E ov t tp cm annots = Some ?objs" by (simp add: overlay_objects_def m)
      show ?thesis unfolding tp0 flow.case prod.case t option.case wp_gbind wp_glift m sum.case
      proof (rule wp_mono [OF wp_create_objects], intro allI impI disjI2)
        fix r :: "err option flow" and h' err
        assume "\<forall>err. r = Val err \<longrightarrow> (\<exists>n\<le>length ?objs. (err = None) = (n = length ?objs) \<and>
          map Some (created h') = rev (map (owned E ''Overlay'' (ov_meta ov)) (take n ?objs)) @ map Some (created h1))" "r = Val err"
        then obtain n where "n \<le> length ?objs" "(err = None) = (n = length ?objs)"
          "map Some (created h') = rev (map (owned E ''Overlay'' (ov_meta ov)) (take n ?objs)) @ map Some (created h)"
          using h1 by auto
        then show "\<exists>cm annots objs n. buildTopologyConfigMap E ov = Val (Inr cm) \<and> length annots = length (tp_nodes tp) \<and>
            overlay_objects E ov t tp cm annots = Some objs \<and> n \<le> length objs \<and> (err = None \<longleftrightarrow> n = length objs) \<and>
            map Some (created h') = rev (map (owned E ''Overlay'' (ov_meta ov)) (take n objs)) @ map Some (created h)"
          using cm len objs by blast
      qed
    qed (use h1 in \<open>auto simp: t tp0 wp_gbind wp_glift wp_ret split: flow.split sum.split\<close>)
  qed
  show ?thesis unfolding createExternalResources_def cm wp_gbind wp_glift flow.case sum.case Let_def
    by (rule wp_mono [OF wp_buildNodeResources [OF t]], elim exE conjE, simp only: flow.case prod.case)
      (rule rest [unfolded cm], simp_all)
qed (auto simp: createExternalResources_def wp_simps split: flow.split sum.split)

text \<open>
  C18. Creation goes through one list in order and stops at the first refusal: the topology
  config map, the interfaces' definitions, a replica set and then a service for each node, the
  exporter, the collectors' configurations, each with the overlay as its owner; no error is
  returned exactly when all of them were accepted.
\<close>

theorem overlay_creates_in_order:
  assumes "createExternalResources E ov h = (Val err, h')" "ov_template ov = Some t" "ov_topology ov = Some tp"
  shows "err \<noteq> None \<and> created h' = created h \<or>
    (\<exists>cm annots rss exp cols n objs. buildTopologyConfigMap E ov = Val (Inr cm) \<and> length annots = length (tp_nodes tp) \<and>
       monitoring_resources E ov tp (map2 (node_replica_set ov t (om_name (cm_meta cm)) (switch_containers t)) (tp_nodes tp) annots) =
         Val (Inr (rss, exp, cols)) \<and>
       objs = [OConfigMap cm] @ map ONad (buildNetworkAttachmentDefinitions ov) @ map OReplicaSet rss @
         map (OService \<circ> node_service ov) (tp_nodes tp) @ exp @ cols \<and>
       n \<le> length objs \<and> (err = None \<longleftrightarrow> n = length objs) \<and>
       map Some (created h') = rev (map (owned E ''Overlay'' (ov_meta ov)) (take n objs)) @ map Some (created h))"
proof -
  have objs: "\<exists>rss exp cols. monitoring_resources E ov tp (map2 (node_replica_set ov t (om_name (cm_meta cm)) (switch_containers t)) (tp_nodes tp) annots) =
         Val (Inr (rss, exp, cols)) \<and>
       objs = [OConfigMap cm] @ map ONad (buildNetworkAttachmentDefinitions ov) @ map OReplicaSet rss @
         map (OService \<circ> node_service ov) (tp_nodes tp) @ exp @ cols"
    if "overlay_objects E ov t tp cm annots = Some objs" for cm annots objs
    using that by (auto simp: overlay_objects_def split: flow.splits sum.splits)
  consider "err \<noteq> None" "created h' = created h" | cm annots objs n where "buildTopologyConfigMap E ov = Val (Inr cm)"
      "length annots = length (tp_nodes tp)" "overlay_objects E ov t tp cm annots = Some objs" "n \<le> length objs"
      "err = None \<longleftrightarrow> n = length objs"
      "map Some (created h') = rev (map (owned E ''Overlay'' (ov_meta ov)) (take n objs)) @ map Some (created h)"
    using wpD [OF wp_createExternalResources [OF assms(2,3)] assms(1)] by blast
  then show ?thesis
  proof cases
    case 2
    from objs [OF 2(3)] obtain rss exp cols where
      "monitoring_resources E ov tp (map2 (node_replica_set ov t (om_name (cm_meta cm)) (switch_containers t)) (tp_nodes tp) annots) =
         Val (Inr (rss, exp, cols))"
      "objs = [OConfigMap cm] @ map ONad (buildNetworkAttachmentDefinitions ov) @ map OReplicaSet rss @
         map (OService \<circ> node_service ov) (tp_nodes tp) @ exp @ cols" by blast
    with 2 show ?thesis
      by (intro disjI2 exI [of _ cm] exI [of _ annots] exI [of _ rss] exI [of _ exp] exI [of _ cols] exI [of _ n] exI [of _ objs] conjI)
  qed simp
qed

section \<open>The finalizer\<close>

abbreviation monitor_session :: "environment \<Rightarrow> session_client" where
  "monitor_session E \<equiv> NewSessionClient (internal_url E) ''karaf'' ''karaf''"

definition monitoring_deleted :: "environment \<Rightarrow> string \<Rightarrow> event" where
  "monitoring_deleted E name = sent (monitor_session E) ''DELETE'' (''/vnets/api/lpm-'' @ name) [] (Inr 204)"

text \<open>
  An overlay is stored with the finalizer only together with a switch template, and without
  it only after its definitions were asked to be deleted and its monitoring network was deleted.
\<close>

fun overlay_guard :: "environment \<Rightarrow> event \<Rightarrow> history \<Rightarrow> bool" where
  "overlay_guard E (UpdatedOverlay ov r) h =
     (if l2smFinalizer \<in> set (om_finalizers (ov_meta ov)) then ov_template ov \<noteq> None
      else (\<exists>x. DeletedAllNads (om_namespace (ov_meta ov)) (om_name (ov_meta ov)) x \<in> set h) \<and>
        (ov_monitor ov \<noteq> None \<longrightarrow> monitoring_deleted E (om_name (ov_meta ov)) \<in> set h))"
| "overlay_guard E _ h = True"

fun stores_overlay :: "event \<Rightarrow> bool" where
  "stores_overlay (UpdatedOverlay ov r) = True"
| "stores_overlay _ = False"

lemma overlay_guard_other: "\<not> stores_overlay e \<Longrightarrow> overlay_guard E e h"
  by (cases e) simp_all

lemma overlay_guard_mono: "overlay_guard E e h \<Longrightarrow> overlay_guard E e (es @ h)"
  by (cases e) auto

lemma not_stores_overlay_sent [simp]: "\<not> stores_overlay (sent s m u b r)"
  by (simp add: sent_def)

lemma wp_overlay_other:
  assumes "emits (\<lambda>e. \<not> stores_overlay e) m" "guarded (overlay_guard E) h"
  shows "wp m (\<lambda>r h'. guarded (overlay_guard E) h' \<and> set h \<subseteq> set h') h"
  by (rule wp_guarded [OF emits_weaken [OF assms(1)] overlay_guard_mono assms(2)]) (simp_all add: overlay_guard_other)

abbreviation overlay_reconciler :: overlay_reconciler where
  "overlay_reconciler \<equiv> \<lparr>or_factory = None\<rparr>"

lemma emits_monitoring:
  assumes "\<And>m u a b r. P (Http m u a b r)"
  shows "emits P (createMonitoringNetwork E overlay_reconciler ov)" "emits P (deleteMonitoringNetwork E overlay_reconciler ov)"
proof -
  have "emits P (gbind (NewClient E InternalType cfg) (\<lambda>x. case x of Inl e \<Rightarrow> ret (Some e) | Inr client \<Rightarrow> f client))"
    if "\<And>s. emits P (f (InternalClient E s))" for f :: "sdn_client \<Rightarrow> (history, err option) go" and cfg
    by (rule emits_with_client) (simp_all add: assms that emits_ret)
  note client = this
  show "emits P (createMonitoringNetwork E overlay_reconciler ov)"
    unfolding createMonitoringNetwork_def monitoringClientFactory_def DefaultClientFactory_def DefaultFactory_Internal_def
      overlay_reconciler.simps option.case client_factory.simps
    by (rule client) (auto simp: Ensure_def Let_def intro!: emits_intros emits_internal assms split: option.split)
  show "emits P (deleteMonitoringNetwork E overlay_reconciler ov)"
    unfolding deleteMonitoringNetwork_def monitoringClientFactory_def DefaultClientFactory_def DefaultFactory_Internal_def
      overlay_reconciler.simps option.case client_factory.simps
    by (rule client) (auto simp: DeleteMonitoring_def Let_def intro!: emits_intros emits_internal assms)
qed

lemma wp_deleteMonitoringNetwork:
  "wp (deleteMonitoringNetwork E overlay_reconciler ov) (\<lambda>r h'. r = Val None \<longrightarrow>
     monitoring_deleted E (om_name (ov_meta ov)) \<in> set h') h"
proof (rule wpI)
  fix r h' assume run: "deleteMonitoringNetwork E overlay_reconciler ov h = (r, h')"
  show "r = Val None \<longrightarrow> monitoring_deleted E (om_name (ov_meta ov)) \<in> set h'"
  proof
    assume "r = Val None"
    with run obtain c h1 where "NewClient E InternalType (karaf_config (internal_url E)) h = (Val (Inr c), h1)"
      and d: "DeleteMonitoring \<lparr>mg_client = Some c\<rparr> (om_name (ov_meta ov)) h1 = (Val None, h')"
      by (auto simp: deleteMonitoringNetwork_def monitoringClientFactory_def DefaultClientFactory_def DefaultFactory_Internal_def
          gbind_def ret_def split: prod.splits flow.splits sum.splits)
    then have "c = InternalClient E (monitor_session E)"
      using NewClient_internal [of E "karaf_config (internal_url E)" h c h1] by (simp add: karaf_config_def)
    with internal.Delete_done d show "monitoring_deleted E (om_name (ov_meta ov)) \<in> set h'"
      by (fastforce simp: monitoring_deleted_def GenerateLPMNetworkName_def)
  qed
qed

lemma applyOverlayDefaults_template: "applyOverlayDefaults (Some ov) = Inr ov' \<Longrightarrow> ov_template ov' \<noteq> None"
  by (auto simp: applyOverlayDefaults_def split: option.splits sum.splits)

lemma set_overlay_finalizers_simps [simp]:
  "om_finalizers (ov_meta (set_overlay_finalizers fs ov)) = fs" "om_name (ov_meta (set_overlay_finalizers fs ov)) = om_name (ov_meta ov)"
  "om_namespace (ov_meta (set_overlay_finalizers fs ov)) = om_namespace (ov_meta ov)"
  "ov_template (set_overlay_finalizers fs ov) = ov_template ov" "ov_monitor (set_overlay_finalizers fs ov) = ov_monitor ov"
  by (simp_all add: set_overlay_finalizers_def)

lemma wp_register_overlay:
  assumes "guarded (overlay_guard E) h"
  shows "wp (register_overlay E ov) (\<lambda>r h'. guarded (overlay_guard E) h') h"
  using assms applyOverlayDefaults_template
  by (auto simp: register_overlay_def wp_simps split: sum.split)

lemma wp_delete_overlay:
  assumes h: "guarded (overlay_guard E) h"
  shows "wp (delete_overlay E overlay_reconciler ov) (\<lambda>r h'. guarded (overlay_guard E) h') h"
proof (cases "l2smFinalizer \<in> set (om_finalizers (ov_meta ov))")
  case True
  let ?ns = "om_namespace (ov_meta ov)" and ?name = "om_name (ov_meta ov)"
  let ?store = "gbind (update_overlay E (set_overlay_finalizers (filter (\<lambda>f. f \<noteq> l2smFinalizer) (om_finalizers (ov_meta ov))) ov))
      (\<lambda>x. ret (0 :: nat, case x of Inl e \<Rightarrow> Some e | Inr _ \<Rightarrow> None))"
  let ?good = "\<lambda>r h'. guarded (overlay_guard E) h'"
  have store: "wp ?store ?good h'" if "guarded (overlay_guard E) h'" "DeletedAllNads ?ns ?name x \<in> set h'"
      "ov_monitor ov \<noteq> None \<longrightarrow> monitoring_deleted E ?name \<in> set h'" for h' x
    using that by (auto simp: wp_simps split: sum.split)
  have rest: "wp (gbind (if ov_monitor ov = None then ret None else deleteMonitoringNetwork E overlay_reconciler ov)
      (\<lambda>err. case err of Some e \<Rightarrow> ret (0, Some e) | None \<Rightarrow> ?store)) ?good h'"
    if g: "guarded (overlay_guard E) h'" and d: "DeletedAllNads ?ns ?name x \<in> set h'" for h' x
  proof (cases "ov_monitor ov")
    case None
    then show ?thesis unfolding wp_gbind [of "ret _"] if_P [OF refl] by (simp add: wp_ret store [OF g d])
  next
    case (Some m)
    have em: "emits (\<lambda>e. \<not> stores_overlay e) (deleteMonitoringNetwork E overlay_reconciler ov)" by (rule emits_monitoring) simp
    have if_eq: "(if ov_monitor ov = None then ret None else deleteMonitoringNetwork E overlay_reconciler ov) = deleteMonitoringNetwork E overlay_reconciler ov"
      using Some by simp
    from wp_conj [OF wp_overlay_other [OF em g] wp_deleteMonitoringNetwork]
    show ?thesis unfolding if_eq wp_gbind [of "deleteMonitoringNetwork _ _ _"]
      by (rule wp_mono) (use d in \<open>auto simp: wp_ret subset_eq intro!: store split: flow.split option.split\<close>)
  qed
  show ?thesis using True h
    by (simp add: delete_overlay_def deleteExternalResources_def wp_gbind [of "gbind (delete_all_nads _ _ _) _"]
        wp_gbind [of "delete_all_nads _ _ _"] wp_delete_all_nads wp_ret split del: if_split)
      (rule rest [OF _ list.set_intros(1)], simp)
qed (use h in \<open>simp add: delete_overlay_def wp_ret\<close>)

lemma emits_createExternalResources: "emits (\<lambda>e. \<not> stores_overlay e) (createExternalResources E ov)"
  unfolding createExternalResources_def buildNodeResources_def GenerateAnnotations_def Generate4byteChunk_def Let_def
  by (intro emits_intros) simp_all

lemma emits_launch_overlay: "emits (\<lambda>e. \<not> stores_overlay e) (launch_overlay E overlay_reconciler ov)"
  unfolding launch_overlay_def
  by (intro emits_intros emits_createExternalResources emits_monitoring) simp_all

interpretation overlays: controller "Reconcile E overlay_reconciler" "\<lambda>e. \<not> stores_overlay e" "overlay_guard E" for E
proof
  fix h k assume g: "guarded (overlay_guard E) h"
  have g1: "guarded (overlay_guard E) (GotOverlay k x # h)" for x using g by simp
  have launch: "wp (launch_overlay E overlay_reconciler ov) (\<lambda>r h'. guarded (overlay_guard E) h') h'"
    if "guarded (overlay_guard E) h'" for ov h'
    by (rule wp_mono [OF wp_overlay_other [OF emits_launch_overlay that]]) simp
  show "wp (Reconcile E overlay_reconciler k) (\<lambda>r h'. guarded (overlay_guard E) h') h"
    unfolding Reconcile_def
    by (auto simp: wp_gbind wp_get_overlay wp_ret wp_list_replica_sets g intro!: wp_delete_overlay wp_mono [OF wp_register_overlay] launch
        split: sum.split flow.split)
qed (simp add: overlay_guard_other)

text \<open>
  C9. In every run of the overlay controller: an overlay loses its finalizer only after its
  attachment definitions were asked to be deleted and, if it is monitored, the SDN controller
  accepted the deletion of its monitoring network; and it gets the finalizer only together
  with a switch template.
\<close>

theorem overlay_finalizer:
  assumes "controller_run (Reconcile E \<lparr>or_factory = None\<rparr>) (\<lambda>e. \<not> stores_overlay e) h" and "h = es @ UpdatedOverlay ov r # h0"
  shows "if l2smFinalizer \<in> set (om_finalizers (ov_meta ov)) then ov_template ov \<noteq> None
    else (\<exists>x. DeletedAllNads (om_namespace (ov_meta ov)) (om_name (ov_meta ov)) x \<in> set h0) \<and>
      (ov_monitor ov \<noteq> None \<longrightarrow> sent (NewSessionClient (internal_url E) ''karaf'' ''karaf'') ''DELETE''
         (''/vnets/api/lpm-'' @ om_name (ov_meta ov)) [] (Inr 204) \<in> set h0)"
  unfolding monitoring_deleted_def [symmetric] using overlays.run_event [of E es "UpdatedOverlay ov r" h0] assms by simp

text \<open>
  C39. Creating the resources of an overlay is not repeatable: when the API server answers that
  the topology config map exists, as it does in every attempt after a failed one, no object is
  created and the error is returned again.
\<close>

theorem overlay_creation_stuck:
  assumes "e_get_overlay E h req = Inr ov" "\<not> om_deleted (ov_meta ov)" "l2smFinalizer \<in> set (om_finalizers (ov_meta ov))"
    and "ov_template ov = Some t" "ov_topology ov = Some tp"
    and "\<forall>h. e_list_replica_sets E h ''.metadata.controller.overlay'' (fst req) (snd req) = Inr []"
    and "\<forall>h cm. e_create E h (OConfigMap cm) = Some e"
    and "Reconcile E r req h = (Val (after, err), h')"
  shows "after = 0 \<and> err \<noteq> None \<and> created h' = created h"
proof -
  have first: "wp (create_owned E k ow (a, OConfigMap cm) u) (\<lambda>r h'. \<exists>e. r = Val (Inl (Some e)) \<and> created h' = created h) h" for k ow a cm u h
  proof -
    show ?thesis
    proof (cases "SetControllerReference E k ow (OConfigMap cm)")
      case (Inr y)
      then obtain cm' where "y = OConfigMap cm'" by (auto simp: SetControllerReference_def map_sum_def split: sum.splits)
      then show ?thesis using Inr assms(7) by (simp add: create_owned_def wp_simps)
    qed (simp add: create_owned_def wp_ret)
  qed
  have refused: "wp (create_all E k ow (map (Pair a) ([OConfigMap cm] @ os))) (\<lambda>r h'. \<forall>err. r = Val err \<longrightarrow> err \<noteq> None \<and> created h' = created h) h'"
    if "created h' = created h" for k ow a cm os h'
    unfolding create_all_def append.simps list.map gloop.simps wp_gbind
    by (rule wp_mono [OF first]) (use that in \<open>auto simp: wp_ret\<close>)
  have create: "wp (createExternalResources E ov) (\<lambda>r h'. \<forall>err. r = Val err \<longrightarrow> err \<noteq> None \<and> created h' = created h) h'"
    if "created h' = created h" for h'
    unfolding createExternalResources_def Let_def wp_gbind [of "glift _"] wp_glift
    by (auto simp: wp_gbind [of "buildNodeResources _ _ _"] wp_ret assms(5) wp_gbind [of "glift _"] wp_glift that
       intro!: wp_mono [OF wp_buildNodeResources [OF assms(4,5)]] refused
       simp del: map_append append.simps list.map not_None_eq
       split: flow.split sum.split)
  have "wp (launch_overlay E r ov) (\<lambda>x h'. \<forall>after err. x = Val (after, err) \<longrightarrow> after = 0 \<and> err \<noteq> None \<and> created h' = created h) h'"
    if "created h' = created h" for h'
    unfolding launch_overlay_def wp_gbind [of "createExternalResources _ _"]
    by (rule wp_mono [OF create [OF that]]) (auto simp: wp_ret split: flow.split option.split)
  then have "wp (Reconcile E r req) (\<lambda>x h'. \<forall>after err. x = Val (after, err) \<longrightarrow> after = 0 \<and> err \<noteq> None \<and> created h' = created h) h"
    using assms(1,2,3,6) by (simp add: Reconcile_def register_overlay_def wp_simps del: not_None_eq)
  from wpD [OF this assms(8)] show ?thesis by simp
qed

section \<open>An overlay with one node\<close>

definition one_node :: overlay where
  "one_node = \<lparr>ov_meta = (new_meta ''ov'' ''default'')\<lparr>om_finalizers := [l2smFinalizer]\<rparr>,
     ov_provider = Some \<lparr>pv_name = ''l2sm-sdn'', pv_domain = [''sdn''], pv_sdn_port = [], pv_dns_port = [], pv_dns_grpc_port = [], pv_of_port = []\<rparr>,
     ov_topology = Some \<lparr>tp_nodes = [''a''], tp_links = []\<rparr>,
     ov_template = Some \<lparr>sw_meta = new_meta [] [], sw_spec = \<lparr>sp_volumes = [], sp_init_containers = [],
       sp_containers = [defaultSwitchContainer], sp_host_network = False\<rparr>\<rparr>,
     ov_interface_number = 1,
     ov_monitor = Some \<lparr>mo_metrics = [], mo_spread_factor = ''0.2'', mo_export = None, mo_network_cidr = None, mo_ip_cidr = None\<rparr>\<rparr>"

lemma one_node_simps:
  "ov_topology one_node = Some \<lparr>tp_nodes = [''a''], tp_links = []\<rparr>" "\<exists>t. ov_template one_node = Some t" "ov_interface_number one_node = 1"
  "\<exists>m. ov_monitor one_node = Some m" "om_finalizers (ov_meta one_node) = [l2smFinalizer]" "\<not> om_deleted (ov_meta one_node)"
  "om_name (ov_meta one_node) = ''ov''" "om_namespace (ov_meta one_node) = ''default''"
  by (simp_all add: one_node_def new_meta_def)

text \<open>The API server answers \<open>c\<close> to every creation.\<close>

definition one_node_env :: "err option \<Rightarrow> environment" where
  "one_node_env c = quiet_env\<lparr>e_get_overlay := \<lambda>_ _. Inr one_node, e_create := \<lambda>_ _. c\<rparr>"

lemma one_node_monitoring:
  "\<exists>rss cols. monitoring_resources (one_node_env c) one_node \<lparr>tp_nodes = [''a''], tp_links = []\<rparr> rs = Val (Inr (rss, [], cols))"
proof -
  have "AllocateIPv4s ''10.0.0.0/24'' 2 1 = Val (Inr ([''10.0.0.2''], ''/24''))"
    by (simp add: AllocateIPv4s_def parse_cidr_lit mask_size_24 Let_def ipv4ToUint32_def uint32ToIPv4_def go_int_def make_strings_ok_def ip_eval)
  then show ?thesis
    by (simp add: monitoring_resources_def one_node_def BuildMonitoringCollectorResources_def no_options_def or_nonempty_def
        or_default_def defaultNetworkCIDR_def one_node_env_def quiet_env_def Let_def)
qed

theorem overlay_monitoring_wired_witness:
  "\<exists>rss cols t collector. monitoring_resources (one_node_env None) one_node \<lparr>tp_nodes = [''a''], tp_links = []\<rparr>
      (map2 (node_replica_set one_node t ''ov-topology'' (switch_containers t)) [''a''] [''[]'']) = Val (Inr (rss, [], cols)) \<and>
    ps_containers (wl_pod (rss ! 0)) = add_lpm_mount (switch_containers t) @ [collector]"
proof -
  obtain t m where t: "ov_template one_node = Some t" "ov_monitor one_node = Some m" using one_node_simps by blast
  obtain rss cols where r: "monitoring_resources (one_node_env None) one_node \<lparr>tp_nodes = [''a''], tp_links = []\<rparr>
      (map2 (node_replica_set one_node t ''ov-topology'' (switch_containers t)) (tp_nodes \<lparr>tp_nodes = [''a''], tp_links = []\<rparr>) [''[]'']) =
    Val (Inr (rss, [], cols))" using one_node_monitoring by blast
  from overlay_monitoring_wired [OF r t(2) one_node_simps(1)] r show ?thesis by fastforce
qed

lemma one_node_env_simps:
  "e_create (one_node_env c) h x = c" "e_get_overlay (one_node_env c) h k = Inr one_node" "e_list_replica_sets (one_node_env c) h i n n2 = Inr []"
  "SetControllerReference (one_node_env c) kind ow x = Inr x"
  by (cases x; simp add: SetControllerReference_def one_node_env_def quiet_env_def)+

lemma create_all_accepted: "\<exists>h'. create_all (one_node_env None) k ow objs h = (Val None, h')"
proof -
  have "create_owned (one_node_env None) k ow ob u h = (Val (Inr ()), Created (snd ob) None # h)" for ob u h
    by (cases ob) (simp add: create_owned_def run_simps one_node_env_simps)
  then have "\<exists>h'. gloop (create_owned (one_node_env None) k ow) objs u h = (Val (Inr ()), h')" for u
    by (induction objs arbitrary: h u) (simp_all add: run_simps)
  then obtain h' where "gloop (create_owned (one_node_env None) k ow) objs () h = (Val (Inr ()), h')" by blast
  then show ?thesis by (simp add: create_all_def run_simps)
qed

lemma one_node_run:
  "\<exists>rss cm nads svcs cols h1. createExternalResources (one_node_env c) one_node h = create_all (one_node_env c) ''Overlay'' (ov_meta one_node)
     (map (Pair []) ([OConfigMap cm] @ nads @ rss @ svcs @ cols)) h1"
proof -
  obtain t where t: "ov_template one_node = Some t" using one_node_simps by blast
  obtain cm where cm: "buildTopologyConfigMap (one_node_env c) one_node = Val (Inr cm)"
    by (simp add: buildTopologyConfigMap_def one_node_def one_node_env_def quiet_env_def Let_def)
  obtain p h1 where b: "buildNodeResources (one_node_env c) one_node (om_name (cm_meta cm)) h = (Val p, h1)"
    using wpD [OF wp_buildNodeResources [OF t one_node_simps(1)]] by (metis surj_pair)
  obtain rss cols where "monitoring_resources (one_node_env c) one_node \<lparr>tp_nodes = [''a''], tp_links = []\<rparr> (fst p) = Val (Inr (rss, [], cols))"
    using one_node_monitoring by blast
  then have "createExternalResources (one_node_env c) one_node h = create_all (one_node_env c) ''Overlay'' (ov_meta one_node)
     (map (Pair []) ([OConfigMap cm] @ map ONad (buildNetworkAttachmentDefinitions one_node) @ map OReplicaSet rss @ map OService (snd p) @ cols)) h1"
    by (simp add: createExternalResources_def run_simps cm b one_node_simps case_prod_beta)
  then show ?thesis by blast
qed

theorem overlay_creates_in_order_witness:
  "\<exists>h' cm. createExternalResources (one_node_env None) one_node [] = (Val None, h') \<and> last (map Some (created h')) = owned (one_node_env None) ''Overlay'' (ov_meta one_node) (OConfigMap cm)"
proof -
  obtain t where t: "ov_template one_node = Some t" using one_node_simps by blast
  obtain h' where r: "createExternalResources (one_node_env None) one_node [] = (Val None, h')"
    using one_node_run create_all_accepted by metis
  from overlay_creates_in_order [OF r t one_node_simps(1)] show ?thesis using r by fastforce
qed


theorem overlay_creation_stuck_witness:
  "\<exists>e h'. Reconcile (one_node_env (Some (ApiError False []))) \<lparr>or_factory = None\<rparr> (''default'', ''ov'') [] = (Val (0, Some e), h') \<and> created h' = []"
proof -
  let ?E = "one_node_env (Some (ApiError False []))"
  obtain t where t: "ov_template one_node = Some t" using one_node_simps by blast
  have "\<exists>e h'. createExternalResources ?E one_node h = (Val (Some e), h')" for h
    using one_node_run [of "Some (ApiError False [])" h] by (auto simp: create_all_def create_owned_def run_simps one_node_env_simps)
  then obtain e h' where "createExternalResources ?E one_node [ListedReplicaSets ''.metadata.controller.overlay'' ''default'' ''ov'' (Inr []),
      GotOverlay (''default'', ''ov'') (Inr one_node)] = (Val (Some e), h')" by blast
  then have "\<exists>after err h'. Reconcile ?E \<lparr>or_factory = None\<rparr> (''default'', ''ov'') [] = (Val (after, err), h')"
    by (simp add: Reconcile_def register_overlay_def launch_overlay_def run_simps one_node_simps one_node_env_simps)
  then obtain after err h' where r: "Reconcile ?E \<lparr>or_factory = None\<rparr> (''default'', ''ov'') [] = (Val (after, err), h')" by blast
  have "after = 0 \<and> err \<noteq> None \<and> created h' = created []"
    by (rule overlay_creation_stuck [OF _ _ _ t one_node_simps(1) _ _ r]) (simp_all add: one_node_env_simps one_node_simps)
  then show ?thesis using r by auto
qed

definition leaving :: overlay where
  "leaving = one_node\<lparr>ov_meta := (ov_meta one_node)\<lparr>om_deleted := True\<rparr>\<rparr>"

abbreviation leaving_env :: environment where
  "leaving_env \<equiv> quiet_env\<lparr>e_get_overlay := \<lambda>_ _. Inr leaving, e_http := \<lambda>_ m _ _ _. Inr (if m = ''GET'' then 200 else 204)\<rparr>"

lemma leaving_run:
  "Reconcile leaving_env \<lparr>or_factory = None\<rparr> (''default'', ''ov'') [] =
     (Val (0, None), [UpdatedOverlay (set_overlay_finalizers [] leaving) (Inr (set_overlay_finalizers [] leaving)),
       monitoring_deleted leaving_env ''ov'', sent (monitor_session leaving_env) ''GET'' ''/vnets/api/status'' [] (Inr 200),
       DeletedAllNads ''default'' ''ov'' None, GotOverlay (''default'', ''ov'') (Inr leaving)])"
proof -
  have l: "om_deleted (ov_meta leaving)" "om_finalizers (ov_meta leaving) = [l2smFinalizer]" "om_name (ov_meta leaving) = ''ov''"
    "om_namespace (ov_meta leaving) = ''default''" "ov_monitor leaving \<noteq> None"
    using one_node_simps by (auto simp: leaving_def)
  show ?thesis
    using l by (simp add: Reconcile_def delete_overlay_def deleteExternalResources_def run_simps deleteMonitoringNetwork_def monitoringClientFactory_def
        DefaultClientFactory_def DefaultFactory_Internal_def NewClient_def internal_beginSessionController_def Get_def newRequest_def Do_def
        DeleteMonitoring_def InternalClient_def internal_DeleteNetwork_def Delete_def expect_status_def karaf_config_def monitoring_deleted_def
        sent_def Let_def GenerateLPMNetworkName_def quiet_env_def)
qed

theorem overlay_finalizer_witness:
  "sent (NewSessionClient (internal_url leaving_env) ''karaf'' ''karaf'') ''DELETE'' ''/vnets/api/lpm-ov'' [] (Inr 204) \<in>
     set [monitoring_deleted leaving_env ''ov'', sent (monitor_session leaving_env) ''GET'' ''/vnets/api/status'' [] (Inr 200),
       DeletedAllNads ''default'' ''ov'' None, GotOverlay (''default'', ''ov'') (Inr leaving)]"
proof -
  let ?h0 = "[monitoring_deleted leaving_env ''ov'', sent (monitor_session leaving_env) ''GET'' ''/vnets/api/status'' [] (Inr 200),
       DeletedAllNads ''default'' ''ov'' None, GotOverlay (''default'', ''ov'') (Inr leaving)]"
  let ?o = "set_overlay_finalizers [] leaving"
  have "controller_run (Reconcile leaving_env \<lparr>or_factory = None\<rparr>) (\<lambda>e. \<not> stores_overlay e) (UpdatedOverlay ?o (Inr ?o) # ?h0)"
    by (rule controller_run.reconcile [where k = "(''default'', ''ov'')" and h = "[]"]) (rule controller_run.start, rule leaving_run)
  from overlay_finalizer [OF this, of "[]" ?o "Inr ?o" ?h0] show ?thesis
    using one_node_simps by (auto simp: leaving_def)
qed

section \<open>What the parts of an overlay agree on\<close>

lemma nad_name_overlay: "nad_name (overlay_nad ov i) = om_name (ov_meta ov) @ ''-veth'' @ dec i"
  by (simp add: overlay_nad_def Let_def new_meta_def)

text \<open>
  C26. The interfaces of an overlay, whose name does not contain \<^verbatim>\<open>veth\<close>, can be used by what comes after: one definition for each
  number from 1 to \<open>interfaceNumber\<close> (none for a negative one), with different names, in the
  overlay's namespace, from whose names the pod controller reads back the very number, and
  which the webhook can label.
\<close>

theorem overlay_interfaces:
  assumes "index_of (om_name (ov_meta ov)) ''veth'' = None" and "nads = buildNetworkAttachmentDefinitions ov"
  shows "int (length nads) = max 0 (ov_interface_number ov) \<and> distinct (map nad_name nads) \<and>
    (\<forall>i<length nads. GetPortNumberFromNetAttachDef (nad_name (nads ! i)) = Inr (dec (Suc i)) \<and>
       om_namespace (nad_meta (nads ! i)) = om_namespace (ov_meta ov) \<and> (\<exists>n. set_nad_label label v (nads ! i) = Val n))"
proof -
  have "inj (\<lambda>i. om_name (ov_meta ov) @ ''-veth'' @ dec i)" by (rule injI) simp
  then have "distinct (map nad_name nads)"
    by (simp add: assms(2) buildNetworkAttachmentDefinitions_def comp_def nad_name_overlay distinct_map inj_def inj_on_def del: upt_Suc)
  then show ?thesis
    using GetPortNumber_of_veth [OF assms(1)]
    by (auto simp: assms(2) buildNetworkAttachmentDefinitions_def nad_name_overlay overlay_nad_def Let_def new_meta_def set_nad_label_def map_put_def
        simp del: upt_Suc)
qed

theorem overlay_interfaces_witness:
  "GetPortNumberFromNetAttachDef (nad_name (buildNetworkAttachmentDefinitions one_node ! 0)) = Inr (dec (Suc 0))"
proof -
  have "index_of (om_name (ov_meta one_node)) ''veth'' = None" by (simp add: one_node_simps starts_with_def)
  from overlay_interfaces [OF this refl] show ?thesis
    by (simp add: buildNetworkAttachmentDefinitions_def one_node_simps)
qed

text \<open>
  C24. The switch of every node asks Multus for exactly the definitions of its overlay: the
  annotation of its replica set is valid JSON, which names them all, in order, with one
  address each.
\<close>

theorem switch_annotations:
  assumes "buildNodeResources E ov cm h = (Val (rss, svcs), h')" "ov_template ov = Some t" "ov_topology ov = Some tp"
    and u: "list_all unescaped (om_name (ov_meta ov))" "\<forall>node\<in>set (tp_nodes tp). \<forall>i. list_all unescaped (GetIfName E node OVERLAY_PROVIDER i)"
  shows "length rss = length (tp_nodes tp) \<and> (\<forall>rs\<in>set rss. \<exists>s as. map_get (wl_annotations rs) MULTUS_ANNOTATION_KEY = Some s \<and>
    ExtractNetworks s ns = Inr as \<and> map na_name as = map nad_name (buildNetworkAttachmentDefinitions ov) \<and>
    (\<forall>a\<in>set as. length (na_ips a) = 1))"
proof -
  let ?P = "\<lambda>s. \<exists>as. ExtractNetworks s ns = Inr as \<and> map na_name as = map nad_name (buildNetworkAttachmentDefinitions ov) \<and>
    (\<forall>a\<in>set as. length (na_ips a) = 1)"
  have P: "?P s" if "node \<in> set (tp_nodes tp)" "GenerateAnnotations E (om_name (ov_meta ov)) node OVERLAY_PROVIDER (ov_interface_number ov) h = (Val s, h')" for node h s h'
    using ExtractNetworks_GenerateAnnotations [OF that(2) u(1) bspec [OF u(2) that(1)]]
    by (simp add: buildNetworkAttachmentDefinitions_def comp_def nad_name_overlay del: upt_Suc)
  have "wp (buildNodeResources E ov cm) (\<lambda>r h'. \<exists>annots. length annots = length (tp_nodes tp) \<and> list_all ?P annots \<and> created h' = created h \<and>
     r = Val (map (\<lambda>(n, a). node_replica_set ov t cm (switch_containers t) n a) (zip (tp_nodes tp) annots),
       map (node_service ov) (tp_nodes tp))) h"
    by (rule wp_buildNodeResources_with [OF assms(2,3)]) (rule P)
  from wpD [OF this assms(1)] obtain annots where
    a: "length annots = length (tp_nodes tp)" "list_all ?P annots"
      "rss = map2 (node_replica_set ov t cm (switch_containers t)) (tp_nodes tp) annots" by blast
  have "map_get (wl_annotations (node_replica_set ov t cm cs n s)) MULTUS_ANNOTATION_KEY = Some s" for n s cs
    by (simp add: node_replica_set_def Let_def)
  then show ?thesis using a by (fastforce simp: list_all_iff dest: set_zip_rightD)
qed

theorem switch_annotations_witness:
  "\<exists>rss svcs h' rs s as. buildNodeResources (one_node_env None) one_node ''cm'' [] = (Val (rss, svcs), h') \<and> rs \<in> set rss \<and>
    map_get (wl_annotations rs) MULTUS_ANNOTATION_KEY = Some s \<and> ExtractNetworks s ''default'' = Inr as \<and> map na_name as = [''ov-veth1'']"
proof -
  obtain t where t: "ov_template one_node = Some t" using one_node_simps by blast
  obtain rss svcs h' where r: "buildNodeResources (one_node_env None) one_node ''cm'' [] = (Val (rss, svcs), h')"
    using wpD [OF wp_buildNodeResources [OF t one_node_simps(1)]] by (metis surj_pair)
  have "length rss = 1 \<and> (\<forall>rs\<in>set rss. \<exists>s as. map_get (wl_annotations rs) MULTUS_ANNOTATION_KEY = Some s \<and>
    ExtractNetworks s ''default'' = Inr as \<and> map na_name as = map nad_name (buildNetworkAttachmentDefinitions one_node))"
    using switch_annotations [OF r t one_node_simps(1), of "''default''"]
    by (auto simp: one_node_simps GetIfName_def one_node_env_def quiet_env_def unescaped_def)
  moreover have "map nad_name (buildNetworkAttachmentDefinitions one_node) = [''ov-veth1'']"
    by (simp add: buildNetworkAttachmentDefinitions_def one_node_simps nad_name_overlay) (simp add: dec_def digits.simps digit_char_def)
  ultimately show ?thesis using r by (auto simp: length_Suc_conv)
qed

text \<open>
  C25. The exporter of a monitored overlay scrapes its switches: its Prometheus mounts the
  configuration whose targets are, in order, the services of the nodes at port 8090, and the
  service of a node selects the pods of that node's replica set, in the same namespace.
\<close>

theorem overlay_exporter_scrapes_switches:
  assumes "monitoring_resources E ov tp (map2 (node_replica_set ov t cm (switch_containers t)) (tp_nodes tp) annots) = Val (Inr (rss, exp, cols))"
    and "ov_monitor ov = Some m" "mo_export m = Some ex" "length annots = length (tp_nodes tp)"
  shows "\<exists>d cfg svc. exp = [ODeployment d, OConfigMap cfg, OService svc] \<and> mounts_config d (om_name (cm_meta cfg)) \<and>
    map_get (cm_data cfg) ''prometheus.yml'' =
      Some (prom_config (map (\<lambda>s. om_name (svc_meta s) @ '':8090'') (map (node_service ov) (tp_nodes tp)))) \<and>
    length rss = length (tp_nodes tp) \<and>
    (\<forall>i<length (tp_nodes tp). svc_selector (node_service ov (tp_nodes tp ! i)) = wl_labels (rss ! i) \<and>
       svc_selector (node_service ov (tp_nodes tp ! i)) = wl_selector (rss ! i) \<and>
       om_namespace (svc_meta (node_service ov (tp_nodes tp ! i))) = om_namespace (wl_meta (rss ! i)))"
proof -
  obtain c where rss: "rss = add_collectors c (shared_containers (map2 (node_replica_set ov t cm (switch_containers t)) (tp_nodes tp) annots))
      (map2 (node_replica_set ov t cm (switch_containers t)) (tp_nodes tp) annots)"
    by (rule monitoring_resources_Inr [OF assms(1,2)])
  have targets: "exporter_targets ov tp = map (\<lambda>s. om_name (svc_meta s) @ '':8090'') (map (node_service ov) (tp_nodes tp))"
    by (simp add: exporter_targets_def node_service_def Let_def new_meta_def)
  obtain d cfg svc where b: "BuildResources (NewExporter (ex_method ex) (om_namespace (ov_meta ov)) (ex_config ex))
      (ex_service_account ex) (exporter_targets ov tp) = Inr (d, cfg, svc)"
      "mounts_config d (om_name (cm_meta cfg))" "map_get (cm_data cfg) ''prometheus.yml'' = Some (prom_config (exporter_targets ov tp))"
    using exporter_builds by blast
  then have "exp = [ODeployment d, OConfigMap cfg, OService svc]"
    using assms(1-3) by (auto simp: monitoring_resources_def Let_def split: sum.splits flow.splits)
  then show ?thesis
    using b(2,3) assms(4) unfolding targets
    by (simp add: rss add_collectors_separate node_replica_set_def node_service_def Let_def new_meta_def)
qed

theorem overlay_exporter_scrapes_switches_witness:
  "\<exists>ov rss d cfg svc cols t. ov_monitor ov \<noteq> None \<and> monitoring_resources (one_node_env None) ov \<lparr>tp_nodes = [''a''], tp_links = []\<rparr>
      [node_replica_set ov t ''cm'' (switch_containers t) ''a'' ''[]''] = Val (Inr (rss, [ODeployment d, OConfigMap cfg, OService svc], cols)) \<and>
    map_get (cm_data cfg) ''prometheus.yml'' = Some (prom_config [om_name (svc_meta (node_service ov ''a'')) @ '':8090''])"
proof -
  let ?m = "\<lparr>mo_metrics = [], mo_spread_factor = ''0.2'', mo_export = Some \<lparr>ex_method = ''regular'', ex_service_account = [], ex_config = None\<rparr>,
    mo_network_cidr = None, mo_ip_cidr = None\<rparr>"
  let ?ov = "one_node\<lparr>ov_monitor := Some ?m\<rparr>" and ?tp = "\<lparr>tp_nodes = [''a''], tp_links = []\<rparr>"
  obtain t where t: "ov_template ?ov = Some t" using one_node_simps by auto
  have "AllocateIPv4s ''10.0.0.0/24'' 2 1 = Val (Inr ([''10.0.0.2''], ''/24''))"
    by (simp add: AllocateIPv4s_def parse_cidr_lit mask_size_24 Let_def ipv4ToUint32_def uint32ToIPv4_def go_int_def make_strings_ok_def ip_eval)
  moreover obtain d c s where "BuildResources (NewExporter ''regular'' ''default'' None) [] (exporter_targets ?ov ?tp) = Inr (d, c, s)"
    using exporter_builds by blast
  ultimately have "\<exists>rss exp cols. monitoring_resources (one_node_env None) ?ov ?tp
      (map2 (node_replica_set ?ov t ''cm'' (switch_containers t)) (tp_nodes ?tp) [''[]'']) = Val (Inr (rss, exp, cols))"
    by (simp add: monitoring_resources_def one_node_def BuildMonitoringCollectorResources_def no_options_def or_nonempty_def
        or_default_def defaultNetworkCIDR_def one_node_env_def quiet_env_def Let_def new_meta_def)
  then obtain rss exp cols where r: "monitoring_resources (one_node_env None) ?ov ?tp
      (map2 (node_replica_set ?ov t ''cm'' (switch_containers t)) (tp_nodes ?tp) [''[]'']) = Val (Inr (rss, exp, cols))" by blast
  define ov where "ov = ?ov"
  have m: "ov_monitor ov = Some ?m" by (simp add: ov_def)
  obtain d cfg svc where "exp = [ODeployment d, OConfigMap cfg, OService svc]"
    "map_get (cm_data cfg) ''prometheus.yml'' = Some (prom_config [om_name (svc_meta (node_service ov ''a'')) @ '':8090''])"
    using overlay_exporter_scrapes_switches [OF r [folded ov_def] m] by auto
  then show ?thesis
    using r [folded ov_def] m by (intro exI [of _ ov] exI [of _ rss] exI [of _ d] exI [of _ cfg] exI [of _ svc] exI [of _ cols] exI [of _ t]) simp
qed

end
