(* ===== verification/Ned.thy ===== *)
theory Ned
  imports SwitchPods
begin

text \<open>
  \<^verbatim>\<open>internal/controller/networkedgedevice_controller.go\<close>: the reconciler of network edge
  devices. Every reconciliation first fills in the defaults (the switch template and the
  control plane's node) and stores the device; it then creates the switch with its
  configuration, or patches the configuration of an existing one.
\<close>

section \<open>Code\<close>

record ned_reconciler =
  nd_factory :: "client_factory option"

primrec first_internal_ip :: "(string \<times> string) list \<Rightarrow> string option" where
  "first_internal_ip [] = None"
| "first_internal_ip (a # as) = (if fst a = ''InternalIP'' \<and> snd a \<noteq> [] then Some (snd a) else first_internal_ip as)"

definition getNodeInternalIP :: "k8s_node \<Rightarrow> err + string" where
  "getNodeInternalIP node = (case first_internal_ip (node_addresses node) of
     Some ip \<Rightarrow> Inr ip
   | None \<Rightarrow> Inl (errorf ''node %s does not have an internal IP address'' [om_name (node_meta node)]))"

definition is_control_plane :: "k8s_node \<Rightarrow> bool" where
  "is_control_plane node \<longleftrightarrow>
     map_get (om_labels (node_meta node)) ''node-role.kubernetes.io/control-plane'' \<noteq> None \<or>
     map_get (om_labels (node_meta node)) ''node-role.kubernetes.io/master'' \<noteq> None"

text \<open>Only the first such node is looked at.\<close>

primrec control_plane_node :: "k8s_node list \<Rightarrow> err + string \<times> string" where
  "control_plane_node [] = Inl (errorf ''no control-plane node found'' [])"
| "control_plane_node (node # nodes) =
     (if is_control_plane node then map_sum id (Pair (om_name (node_meta node))) (getNodeInternalIP node)
      else control_plane_node nodes)"

definition getControlPlaneNodeConfig :: "environment \<Rightarrow> (history, err + string \<times> string) go" where
  "getControlPlaneNodeConfig E =
     gbind (list_nodes E) (\<lambda>r. ret (case r of
       Inl e \<Rightarrow> Inl (Errorf ''failed to list nodes: %w'' [] (Some e))
     | Inr items \<Rightarrow> control_plane_node items))"

definition default_template :: "network_edge_device \<Rightarrow> err + network_edge_device" where
  "default_template ned = (case ned_template ned of
     Some t \<Rightarrow> Inr ned
   | None \<Rightarrow> map_sum id (\<lambda>template. ned\<lparr>ned_template := Some template\<rparr>) (DefaultSwitchTemplate SwitchTemplateModeNED))"

definition applyNetworkEdgeDeviceDefaults ::
  "environment \<Rightarrow> network_edge_device option \<Rightarrow> (history, err + network_edge_device) go" where
  "applyNetworkEdgeDeviceDefaults E nedp =
     (case nedp of
        None \<Rightarrow> ret (Inl (errorf ''ned is nil'' []))
      | Some ned \<Rightarrow> (case default_template ned of
          Inl e \<Rightarrow> ret (Inl e)
        | Inr ned \<Rightarrow> (case ned_node_config ned of
            Some nc \<Rightarrow> ret (Inr ned)
          | None \<Rightarrow> gbind (getControlPlaneNodeConfig E) (\<lambda>r. ret (map_sum id
              (\<lambda>(name, ip). ned\<lparr>ned_node_config := Some \<lparr>nc_node = name, nc_address = ip\<rparr>\<rparr>) r)))))"

text \<open>The missing node configuration is reported, the missing provider is dereferenced.\<close>

definition constructConfigMapForNED :: "environment \<Rightarrow> network_edge_device \<Rightarrow> (err + config_map) flow" where
  "constructConfigMapForNED E ned =
     (case ned_node_config ned of
        None \<Rightarrow> Val (Inl (errorf ''node config is nil'' []))
      | Some nc \<Rightarrow> (case ned_provider ned of
          None \<Rightarrow> Panic
        | Some provider \<Rightarrow>
            (let settings = \<lparr>ss_controller_ip = pv_domain provider, ss_controller_port = pv_of_port provider,
                   ss_interfaces = 0, ss_provider = [], ss_node = nc_node nc, ss_switch = e_switch_name E (nc_node nc) (pv_name provider)\<rparr>;
                 node = \<lparr>sn_name = nc_node nc, sn_ip = nc_address nc, sn_neighbours = map nb_domain (ned_neighbors ned)\<rparr>
             in Val (case e_settings_json E settings of
                  Inl e \<Rightarrow> Inl e
                | Inr nedConfig \<Rightarrow> (case e_switch_node_json E node of
                    Inl e \<Rightarrow> Inl e
                  | Inr nedNeighbors \<Rightarrow> Inr
                      \<lparr>cm_meta = new_meta (om_name (ned_meta ned) @ ''-config'') (om_namespace (ned_meta ned)),
                       cm_data = Some [''neighbors.json'' \<mapsto> nedNeighbors, ''config.json'' \<mapsto> nedConfig]\<rparr>)))))"

definition constructReplicaSetforNED :: "network_edge_device \<Rightarrow> string \<Rightarrow> workload flow" where
  "constructReplicaSetforNED ned configmapName =
     (case (ned_node_config ned, ned_template ned) of
        (Some nc, Some template) \<Rightarrow> Val
          \<lparr>wl_meta = (new_meta (GenerateReplicaSetName (GenerateSwitchPodName (om_name (ned_meta ned)) (nc_node nc) NetworkEdgeDevice))
               (om_namespace (ned_meta ned)))
             \<lparr>om_labels := copy_map (om_labels (sw_meta template)), om_annotations := copy_map (om_annotations (sw_meta template))\<rparr>,
           wl_replicas = Some 1,
           wl_selector = Some [''app'' \<mapsto> ''l2sm''],
           wl_labels = Some [''app'' \<mapsto> ''l2sm''],
           wl_annotations = None,
           wl_pod = new_pod_spec
             \<lparr>ps_init_containers := sp_init_containers (sw_spec template),
              ps_containers := mount_config ''configurations'' (sp_containers (sw_spec template)),
              ps_volumes := [\<lparr>vol_name = ''configurations'', vol_source = ConfigMapSource configmapName
                [(''neighbors.json'', ''neighbors.json''), (''config.json'', ''config.json'')]\<rparr>],
              ps_host_network := sp_host_network (sw_spec template),
              ps_node_selector := Some [''kubernetes.io/hostname'' \<mapsto> nc_node nc],
              ps_tolerate_all := True\<rparr>\<rparr>
      | _ \<Rightarrow> Panic)"

definition createMonitoringNetwork :: "environment \<Rightarrow> ned_reconciler \<Rightarrow> network_edge_device \<Rightarrow> (history, err option) go" where
  "createMonitoringNetwork E r ned =
     gbind (cf_for_provider (monitoringClientFactory E (nd_factory r)) (ned_provider ned)) (\<lambda>x. case x of
       Inl e \<Rightarrow> ret (Some e)
     | Inr client \<Rightarrow> (case (ned_provider ned, ned_node_config ned) of
         (Some provider, Some nc) \<Rightarrow> Ensure E \<lparr>mg_client = Some client\<rparr> (om_name (ned_meta ned)) (pv_name provider) [nc_node nc]
       | _ \<Rightarrow> gpanic))"

definition deleteMonitoringNetwork :: "environment \<Rightarrow> ned_reconciler \<Rightarrow> network_edge_device \<Rightarrow> (history, err option) go" where
  "deleteMonitoringNetwork E r ned =
     gbind (cf_for_provider (monitoringClientFactory E (nd_factory r)) (ned_provider ned)) (\<lambda>x. case x of
       Inl e \<Rightarrow> ret (Some e)
     | Inr client \<Rightarrow> DeleteMonitoring \<lparr>mg_client = Some client\<rparr> (om_name (ned_meta ned)))"

text \<open>The switch pod with the collector, appended before the pod is patched.\<close>

definition add_ned_collector :: "container \<Rightarrow> workload \<Rightarrow> workload" where
  "add_ned_collector monCont rs = rs\<lparr>wl_pod := attach_collector (AddLPMConfigMapToSps
     ((wl_pod rs)\<lparr>ps_containers := ps_containers (wl_pod rs) @ [monCont]\<rparr>)) (om_name (wl_meta rs))\<rparr>"

text \<open>The \<^verbatim>\<open>if netEdgeDevice.Spec.Monitor != nil\<close> block; \<open>Inl e\<close> is a \<^verbatim>\<open>return\<close>.\<close>

definition monitor_ned ::
  "environment \<Rightarrow> ned_reconciler \<Rightarrow> network_edge_device \<Rightarrow> workload \<Rightarrow> (history, err + workload \<times> (string \<times> obj) list) go" where
  "monitor_ned E r ned rs =
     (case ned_monitor ned of
        None \<Rightarrow> ret (Inr (rs, []))
      | Some monitor \<Rightarrow>
          gbind (glift (BuildNEDMonitoringResources E (Some ned)
              (no_options\<lparr>co_ip_cidr := mo_ip_cidr monitor, co_spread_factor := Some (mo_spread_factor monitor)\<rparr>))) (\<lambda>x. case x of
            Inl e \<Rightarrow> ret (Inl (Errorf ''could not build monitoring resources. error: %w'' [] (Some e)))
          | Inr (monCont, monCMs) \<Rightarrow>
              gbind (glift (nth_go monCMs 0)) (\<lambda>cm.
              gbind (createMonitoringNetwork E r ned) (\<lambda>err. ret (case err of
                Some e \<Rightarrow> Inl (Errorf ''could not create monitoring network for network edge device: %w'' [] (Some e))
              | None \<Rightarrow> Inr (add_ned_collector monCont rs, [([], OConfigMap cm)]))))))"

definition createExternalResources :: "environment \<Rightarrow> ned_reconciler \<Rightarrow> network_edge_device \<Rightarrow> (history, err option) go" where
  "createExternalResources E r ned =
     gbind (glift (constructConfigMapForNED E ned)) (\<lambda>x. case x of
       Inl e \<Rightarrow> ret (Some (Errorf ''could not construct the config map for the network edge device: %v'' [] (Some e)))
     | Inr configMap \<Rightarrow>
         gbind (glift (constructReplicaSetforNED ned (om_name (cm_meta configMap)))) (\<lambda>rs.
         gbind (monitor_ned E r ned rs) (\<lambda>y. case y of
           Inl e \<Rightarrow> ret (Some e)
         | Inr (rs, monitoring) \<Rightarrow>
             create_all E ''NetworkEdgeDevice'' (ned_meta ned)
               ([(''ConfigMap'', OConfigMap configMap), ([], OReplicaSet rs)] @ monitoring))))"

definition reconcileNed :: "environment \<Rightarrow> network_edge_device \<Rightarrow> (history, err option) go" where
  "reconcileNed E ned =
     (let failed = (\<lambda>e. Some (Errorf ''could not construct the config map for the network edge device: %v'' [] (Some e)));
          unpatched = (\<lambda>e. Some (Errorf ''failed to apply config map: %w'' [] (Some e)))
      in gbind (glift (constructConfigMapForNED E ned)) (\<lambda>x. case x of
           Inl e \<Rightarrow> ret (failed e)
         | Inr cm \<Rightarrow>
             gbind (patch_config_map E cm) (\<lambda>err. case err of
               Some e \<Rightarrow> ret (unpatched e)
             | None \<Rightarrow> (case ned_monitor ned of
                 None \<Rightarrow> ret None
               | Some monitor \<Rightarrow>
                   gbind (glift (BuildNEDMonitoringResources E (Some ned) (no_options\<lparr>co_ip_cidr := mo_ip_cidr monitor\<rparr>))) (\<lambda>y. case y of
                     Inl e \<Rightarrow> ret (failed e)
                   | Inr (_, monCm) \<Rightarrow>
                       gbind (glift (nth_go monCm 0)) (\<lambda>cm.
                       gbind (patch_config_map E cm) (\<lambda>err. ret (case err of Some e \<Rightarrow> unpatched e | None \<Rightarrow> None))))))))"

definition set_ned_finalizers :: "string list \<Rightarrow> network_edge_device \<Rightarrow> network_edge_device" where
  "set_ned_finalizers fs ned = ned\<lparr>ned_meta := (ned_meta ned)\<lparr>om_finalizers := fs\<rparr>\<rparr>"

definition delete_ned :: "environment \<Rightarrow> ned_reconciler \<Rightarrow> network_edge_device \<Rightarrow> (history, reconcile_result) go" where
  "delete_ned E r ned =
     (if l2smFinalizer \<notin> set (om_finalizers (ned_meta ned)) then ret (0, None)
      else gbind (if ned_monitor ned = None then ret None else deleteMonitoringNetwork E r ned) (\<lambda>err. case err of
          Some e \<Rightarrow> ret (0, Some e)
        | None \<Rightarrow>
            gbind (update_ned E (set_ned_finalizers (filter (\<lambda>f. f \<noteq> l2smFinalizer) (om_finalizers (ned_meta ned))) ned)) (\<lambda>x.
              ret (0, case x of Inl e \<Rightarrow> Some e | Inr _ \<Rightarrow> None))))"

definition register_ned :: "environment \<Rightarrow> network_edge_device \<Rightarrow> (history, reconcile_result + network_edge_device) go" where
  "register_ned E ned =
     (if l2smFinalizer \<in> set (om_finalizers (ned_meta ned)) then ret (Inr ned)
      else gbind (update_ned E (set_ned_finalizers (om_finalizers (ned_meta ned) @ [l2smFinalizer]) ned)) (\<lambda>x. ret (case x of
          Inl e \<Rightarrow> Inl (0, Some e)
        | Inr stored \<Rightarrow> Inr stored)))"

definition Reconcile :: "environment \<Rightarrow> ned_reconciler \<Rightarrow> key \<Rightarrow> (history, reconcile_result) go" where
  "Reconcile E r req =
     gbind (get_ned E req) (\<lambda>got. case got of
       Inl e \<Rightarrow> ret (0, ignore_not_found e)
     | Inr ned \<Rightarrow>
         gbind (applyNetworkEdgeDeviceDefaults E (Some ned)) (\<lambda>x. case x of
           Inl e \<Rightarrow> ret (0, Some (Errorf ''failed to apply network edge device defaults: %w'' [] (Some e)))
         | Inr ned \<Rightarrow>
             gbind (update_ned E ned) (\<lambda>x. case x of
               Inl e \<Rightarrow> ret (0, Some e)
             | Inr ned \<Rightarrow>
                 if om_deleted (ned_meta ned) then delete_ned E r ned
                 else gbind (register_ned E ned) (\<lambda>x. case x of
                     Inl v \<Rightarrow> ret v
                   | Inr ned \<Rightarrow>
                       gbind (list_replica_sets E ''.metadata.controller'' (fst req) (snd req)) (\<lambda>y. case y of
                         Inl e \<Rightarrow> ret (0, Some e)
                       | Inr items \<Rightarrow>
                           if items = [] then gbind (createExternalResources E r ned) (\<lambda>err. ret (case err of
                             Some e \<Rightarrow> (0, Some e) | None \<Rightarrow> (20, None)))
                           else gbind (reconcileNed E ned) (\<lambda>err. ret (0, err)))))))"

section \<open>Termination without a panic\<close>

text \<open>A program that returns.\<close>

abbreviation returns :: "(history, 'a) go \<Rightarrow> history \<Rightarrow> bool" where
  "returns m h \<equiv> wp m (\<lambda>r h'. \<exists>v. r = Val v) h"

lemma returns_gbind:
  "wp m (\<lambda>r h'. case r of Val v \<Rightarrow> returns (f v) h' | Panic \<Rightarrow> False | Hang \<Rightarrow> False) h \<Longrightarrow> returns (gbind m f) h"
  unfolding wp_gbind by (erule wp_mono) (simp split: flow.splits)

lemma wp_ForProvider:
  "wp (DefaultFactory_ForProvider E p) (\<lambda>r h'. \<exists>x. r = Val x \<and> (\<forall>c. x = Inr c \<longrightarrow> (\<exists>s. c = InternalClient E s))) h"
proof -
  have "wp (NewClient E InternalType cfg) (\<lambda>r h'. \<exists>x. r = Val x \<and> (\<forall>c. x = Inr c \<longrightarrow> (\<exists>s. c = InternalClient E s))) h" for cfg
    unfolding NewClient_def Let_def internal_beginSessionController_def
    by (auto simp: wp_simps Get_def newRequest_def Let_def split: option.split)
  then show ?thesis by (auto simp: DefaultFactory_ForProvider_def wp_ret split: option.split)
qed

lemma returns_manager:
  "returns (Ensure E \<lparr>mg_client = Some (InternalClient E s)\<rparr> name pv nodes) h"
  "returns (DeleteMonitoring \<lparr>mg_client = Some (InternalClient E s)\<rparr> name) h"
  unfolding Ensure_def DeleteMonitoring_def Let_def manager.simps option.case wp_gbind
  by (rule internal.create.wp_op; simp add: wp_ret; rule impI; unfold wp_gbind; rule internal.attach.wp_op; simp add: wp_ret)
    (rule internal.delete.wp_op; simp add: wp_ret)

abbreviation ned_reconciler :: ned_reconciler where
  "ned_reconciler \<equiv> \<lparr>nd_factory = None\<rparr>"

lemma monitoring_factory: "cf_for_provider (monitoringClientFactory E (nd_factory ned_reconciler)) = DefaultFactory_ForProvider E"
  by (simp add: monitoringClientFactory_def DefaultClientFactory_def)

lemma returns_monitoring:
  "ned_provider ned \<noteq> None \<Longrightarrow> ned_node_config ned \<noteq> None \<Longrightarrow> returns (createMonitoringNetwork E ned_reconciler ned) h"
  "returns (deleteMonitoringNetwork E ned_reconciler ned) h"
proof -
  have client: "returns (gbind (DefaultFactory_ForProvider E p) (\<lambda>x. case x of Inl e \<Rightarrow> ret (Some e) | Inr c \<Rightarrow> f c)) h"
    if "\<And>s h. returns (f (InternalClient E s)) h" for p and f :: "sdn_client \<Rightarrow> (history, err option) go"
    by (rule returns_gbind, rule wp_mono [OF wp_ForProvider]) (auto simp: wp_ret that split: sum.split)
  show "returns (deleteMonitoringNetwork E ned_reconciler ned) h"
    unfolding deleteMonitoringNetwork_def monitoring_factory by (rule client) (rule returns_manager)
  assume "ned_provider ned \<noteq> None" "ned_node_config ned \<noteq> None"
  then show "returns (createMonitoringNetwork E ned_reconciler ned) h"
    unfolding createMonitoringNetwork_def monitoring_factory by (intro client) (auto simp: returns_manager)
qed

text \<open>What a device needs: its provider and, when it is monitored, an address for every neighbour.\<close>

definition complete :: "network_edge_device \<Rightarrow> bool" where
  "complete ned \<longleftrightarrow> ned_provider ned \<noteq> None \<and> (ned_monitor ned \<noteq> None \<longrightarrow> (\<forall>nb\<in>set (ned_neighbors ned). nb_lpm_ip nb \<noteq> None))"

lemma ned_neighbours_Val: "\<forall>nb\<in>set nbs. nb_lpm_ip nb \<noteq> None \<Longrightarrow> \<exists>ms. ned_neighbours opts nbs = Val ms"
  by (induction nbs) auto

lemma BuildNED_Val:
  assumes "complete ned" "ned_monitor ned \<noteq> None" "ned_node_config ned \<noteq> None"
  shows "(\<exists>e. BuildNEDMonitoringResources E (Some ned) opts = Val (Inl e)) \<or>
    (\<exists>c cm. BuildNEDMonitoringResources E (Some ned) opts = Val (Inr (c, [cm])))"
  using assms ned_neighbours_Val [of "ned_neighbors ned" opts]
  by (auto simp: complete_def BuildNEDMonitoringResources_def Let_def split: option.split sum.split)

lemma constructConfigMap_Val: "ned_provider ned \<noteq> None \<Longrightarrow> \<exists>x. constructConfigMapForNED E ned = Val x"
  by (auto simp: constructConfigMapForNED_def Let_def split: option.split)

lemma constructReplicaSet_Val:
  "ned_template ned \<noteq> None \<Longrightarrow> ned_node_config ned \<noteq> None \<Longrightarrow> \<exists>x. constructReplicaSetforNED ned c = Val x"
  by (auto simp: constructReplicaSetforNED_def)

lemma returns_create_all: "returns (create_all E k ow objs) h"
  by (rule wp_mono [OF wp_create_all]) auto

lemma returns_monitor_ned:
  assumes "complete ned" "ned_node_config ned \<noteq> None"
  shows "returns (monitor_ned E ned_reconciler ned rs) h"
proof (cases "ned_monitor ned")
  case (Some m)
  have "returns (createMonitoringNetwork E ned_reconciler ned) h"
    using assms by (intro returns_monitoring) (simp_all add: complete_def)
  then show ?thesis
    using BuildNED_Val [OF assms(1) _ assms(2), of E "no_options\<lparr>co_ip_cidr := mo_ip_cidr m, co_spread_factor := Some (mo_spread_factor m)\<rparr>"] Some
    by (auto simp: monitor_ned_def wp_gbind wp_glift wp_ret intro!: wp_mono [OF \<open>returns _ h\<close>])
qed (simp add: monitor_ned_def wp_ret)

lemma returns_createExternalResources:
  assumes "complete ned" "ned_node_config ned \<noteq> None" "ned_template ned \<noteq> None"
  shows "returns (createExternalResources E ned_reconciler ned) h"
proof -
  have "ned_provider ned \<noteq> None" using assms(1) by (simp add: complete_def)
  from constructConfigMap_Val [OF this] obtain x where x: "constructConfigMapForNED E ned = Val x" by blast
  obtain rs where rs: "\<And>c. constructReplicaSetforNED ned c = Val (rs c)" using constructReplicaSet_Val [OF assms(3,2)] by metis
  show ?thesis
    unfolding createExternalResources_def x
    by (cases x) (auto simp: wp_gbind wp_glift wp_ret rs returns_create_all intro!: wp_mono [OF returns_monitor_ned [OF assms(1,2)]] split: sum.split)
qed

lemma returns_reconcileNed:
  assumes "complete ned" "ned_node_config ned \<noteq> None"
  shows "returns (reconcileNed E ned) h"
proof -
  have "ned_provider ned \<noteq> None" using assms(1) by (simp add: complete_def)
  from constructConfigMap_Val [OF this] obtain x where x: "constructConfigMapForNED E ned = Val x" by blast
  have "returns (gbind (glift (BuildNEDMonitoringResources E (Some ned) opts)) (\<lambda>y. case y of
      Inl e \<Rightarrow> ret (f e) | Inr (_, monCm) \<Rightarrow> gbind (glift (nth_go monCm 0)) (\<lambda>cm. gbind (patch_config_map E cm) (\<lambda>err. ret (g err))))) h"
    if "ned_monitor ned \<noteq> None" for opts h and f g :: "_ \<Rightarrow> err option"
    using BuildNED_Val [OF assms(1) that assms(2), of E opts] by (auto simp: wp_simps)
  then show ?thesis
    unfolding reconcileNed_def Let_def x
    by (cases x) (auto simp: wp_gbind wp_glift wp_ret wp_patch_config_map split: option.split)
qed

lemma returns_map: "returns m h \<Longrightarrow> returns (gbind m (\<lambda>x. ret (f x))) h"
  by (rule returns_gbind, erule wp_mono) (auto simp: wp_ret)

text \<open>A device with its defaults.\<close>

definition ready :: "network_edge_device \<Rightarrow> bool" where
  "ready ned \<longleftrightarrow> complete ned \<and> ned_node_config ned \<noteq> None \<and> ned_template ned \<noteq> None"

lemma ready_meta: "n'\<lparr>ned_meta := m\<rparr> = n \<Longrightarrow> ready n' = ready n"
  by (auto simp: ready_def complete_def)

lemma ready_finalizers [simp]: "ready (set_ned_finalizers fs n) = ready n"
  by (simp add: ready_def complete_def set_ned_finalizers_def)

lemma default_template_Inr:
  "\<exists>n'. default_template n = Inr n' \<and> ned_template n' \<noteq> None \<and> ned_node_config n' = ned_node_config n \<and> complete n' = complete n"
  by (auto simp: default_template_def DefaultSwitchTemplate_def Let_def complete_def SwitchTemplateModeNED_def split: option.split)

lemma wp_applyDefaults:
  assumes "complete n"
  shows "wp (applyNetworkEdgeDeviceDefaults E (Some n)) (\<lambda>r h'. \<exists>x. r = Val x \<and> (\<forall>n'. x = Inr n' \<longrightarrow> ready n')) h"
proof -
  obtain n1 where n1: "default_template n = Inr n1" "ned_template n1 \<noteq> None" "complete n1"
    using default_template_Inr assms by blast
  then show ?thesis
    by (auto simp: applyNetworkEdgeDeviceDefaults_def getControlPlaneNodeConfig_def wp_simps ready_def complete_def map_sum_def
        split: option.split sum.split)
qed

lemma returns_delete_ned: "returns (delete_ned E ned_reconciler n) h"
proof (cases "l2smFinalizer \<in> set (om_finalizers (ned_meta n)) \<and> ned_monitor n \<noteq> None")
  case True
  then have "delete_ned E ned_reconciler n = gbind (deleteMonitoringNetwork E ned_reconciler n) (\<lambda>err. case err of
      Some e \<Rightarrow> ret (0, Some e)
    | None \<Rightarrow> gbind (update_ned E (set_ned_finalizers (filter (\<lambda>f. f \<noteq> l2smFinalizer) (om_finalizers (ned_meta n))) n)) (\<lambda>x.
        ret (0, case x of Inl e \<Rightarrow> Some e | Inr _ \<Rightarrow> None)))"
    by (simp add: delete_ned_def del: not_None_eq)
  then show ?thesis
    by (auto simp: wp_simps simp del: split_paired_Ex intro!: returns_gbind wp_mono [OF returns_monitoring(2)] split: option.split)
qed (auto simp: delete_ned_def wp_simps)

text \<open>
  C22. The reconciler of edge devices always returns, whatever its environment answers, when the
  device has what the code dereferences without a check: a provider and, if it is monitored,
  an address for each neighbour. The defaults supply the rest (the node and the template),
  provided that the API server stores the specification it is given.
\<close>

theorem ned_returns:
  assumes "e_get_ned E h req = Inr ned" "ned_provider ned \<noteq> None"
    and "ned_monitor ned \<noteq> None \<longrightarrow> (\<forall>nb\<in>set (ned_neighbors ned). nb_lpm_ip nb \<noteq> None)"
    and "\<forall>h n n'. e_update_ned E h n = Inr n' \<longrightarrow> n'\<lparr>ned_meta := ned_meta n\<rparr> = n"
  shows "\<exists>res h'. Reconcile E \<lparr>nd_factory = None\<rparr> req h = (Val res, h')"
proof -
  have keep: "ready n'" if "ready n" "e_update_ned E h n = Inr n'" for n n' h
    using that assms(4) ready_meta by blast
  have finish: "returns (gbind (register_ned E n) (\<lambda>x. case x of
        Inl v \<Rightarrow> ret v
      | Inr ned \<Rightarrow> gbind (list_replica_sets E ix ns name) (\<lambda>y. case y of
          Inl e \<Rightarrow> ret (0, Some e)
        | Inr items \<Rightarrow>
            if items = [] then gbind (createExternalResources E ned_reconciler ned) (\<lambda>err. ret (case err of
              Some e \<Rightarrow> (0, Some e) | None \<Rightarrow> (20, None)))
            else gbind (reconcileNed E ned) (\<lambda>err. ret (0, err))))) h" if "ready n" for n h ix ns name
  proof -
    have launched: "returns (gbind (createExternalResources E ned_reconciler n) (\<lambda>err. ret (case err of
        Some e \<Rightarrow> (0 :: nat, Some e) | None \<Rightarrow> (20, None)))) h" "returns (gbind (reconcileNed E n) (\<lambda>err. ret (0 :: nat, err))) h"
      if "ready n" for n h
      using that unfolding ready_def by (auto intro!: returns_map returns_createExternalResources returns_reconcileNed simp del: split_paired_Ex)
    show ?thesis
      using that launched keep [of "set_ned_finalizers _ n"]
      by (auto simp: register_ned_def wp_gbind [of "if _ then _ else _"] wp_gbind [of "list_replica_sets _ _ _ _"] wp_ret wp_update_ned
          wp_list_replica_sets wp_gbind [of "update_ned _ _"] simp del: split_paired_Ex split: sum.split)
  qed
  have stored: "returns (gbind (update_ned E n) (\<lambda>x. case x of
        Inl e \<Rightarrow> ret (0, Some e)
      | Inr ned \<Rightarrow> if om_deleted (ned_meta ned) then delete_ned E ned_reconciler ned else f ned)) h"
    if n: "ready n" and f: "\<And>n h. ready n \<Longrightarrow> returns (f n) h" for n f h
  proof (cases "e_update_ned E h n")
    case (Inr n')
    with n have "ready n'" by (rule keep)
    with Inr f returns_delete_ned show ?thesis by (simp add: wp_gbind [of "update_ned _ _"] wp_update_ned del: split_paired_Ex)
  qed (simp add: wp_gbind wp_update_ned wp_ret)
  have "complete ned" using assms(2,3) by (simp add: complete_def)
  from wp_applyDefaults [OF this] have "returns (Reconcile E ned_reconciler req) h"
    unfolding Reconcile_def wp_gbind [of "get_ned _ _"] wp_get_ned flow.case assms(1) sum.case wp_gbind [of "applyNetworkEdgeDeviceDefaults _ _"]
    by (rule wp_mono) (auto simp: wp_ret simp del: split_paired_Ex intro!: stored finish split: sum.split)
  moreover obtain r h' where run: "Reconcile E ned_reconciler req h = (r, h')" by fastforce
  ultimately obtain v where "r = Val v" by (blast dest: wpD)
  with run show ?thesis by blast
qed

text \<open>
  C40. The spread factor of a device's monitor is lost when the device is reconciled again: the
  patched collector configuration does not depend on it, and carries the default one.
\<close>

theorem ned_spread_factor_lost:
  assumes "ned_monitor ned = Some m" "reconcileNed E ned h = (Val None, h')"
  shows "reconcileNed E (ned\<lparr>ned_monitor := Some (m\<lparr>mo_spread_factor := x\<rparr>)\<rparr>) h = (Val None, h') \<and>
    (\<exists>cm json cfg h1. h' = PatchedConfigMap cm None # h1 \<and> map_get (cm_data cm) ''config.json'' = Some json \<and>
       e_node_config_json E cfg = Inr json \<and> e_parse_float E ''0.2'' = Some (lc_spread cfg))"
proof -
  let ?build = "\<lambda>n. BuildNEDMonitoringResources E (Some n) (no_options\<lparr>co_ip_cidr := mo_ip_cidr m\<rparr>)"
  have "constructConfigMapForNED E (ned\<lparr>ned_monitor := k\<rparr>) = constructConfigMapForNED E ned"
    "?build (ned\<lparr>ned_monitor := k\<rparr>) = ?build ned" for k
    by (simp_all add: constructConfigMapForNED_def BuildNEDMonitoringResources_def cong: option.case_cong flow.case_cong sum.case_cong if_cong)
  then have same: "reconcileNed E (ned\<lparr>ned_monitor := Some (m\<lparr>mo_spread_factor := x\<rparr>)\<rparr>) = reconcileNed E ned"
    using assms(1) by (simp add: reconcileNed_def)
  obtain c cm h1 where b: "?build ned = Val (Inr (c, [cm]))" and h': "h' = PatchedConfigMap cm None # h1"
    using assms
    by (auto simp: reconcileNed_def Let_def run_simps BuildNEDMonitoringResources_def
        split: flow.splits sum.splits option.splits prod.splits if_splits)
  have "\<exists>json cfg. map_get (cm_data cm) ''config.json'' = Some json \<and> e_node_config_json E cfg = Inr json \<and> e_parse_float E ''0.2'' = Some (lc_spread cfg)"
    using b by (auto simp: BuildNEDMonitoringResources_def Let_def or_nonempty_def no_options_def defaultSpreadfactor_def collectorConfigKey_def
        split: flow.splits sum.splits option.splits if_splits) (rule exI, rule conjI, assumption, simp)
  with same h' assms(2) show ?thesis by simp
qed

section \<open>A monitored device\<close>

definition edge_monitor :: monitor_spec where
  "edge_monitor = \<lparr>mo_metrics = [], mo_spread_factor = ''0.7'', mo_export = None, mo_network_cidr = None, mo_ip_cidr = Some ''10.0.0.9/24''\<rparr>"

definition edge :: network_edge_device where
  "edge = \<lparr>ned_meta = new_meta ''edge'' ''default'',
     ned_provider = Some \<lparr>pv_name = ''sdn'', pv_domain = [''sdn''], pv_sdn_port = [], pv_dns_port = [], pv_dns_grpc_port = [], pv_of_port = []\<rparr>,
     ned_node_config = Some \<lparr>nc_node = ''n1'', nc_address = ''10.1.0.1''\<rparr>,
     ned_neighbors = [\<lparr>nb_node = ''far'', nb_domain = ''far.example'', nb_lpm_ip = Some ''10.0.0.8''\<rparr>],
     ned_template = None, ned_monitor = Some edge_monitor\<rparr>"

theorem ned_returns_witness:
  "\<exists>res h'. Reconcile (quiet_env\<lparr>e_get_ned := \<lambda>_ _. Inr edge\<rparr>) \<lparr>nd_factory = None\<rparr> (''default'', ''edge'') [] = (Val res, h')"
  by (rule ned_returns [where ned = edge]) (simp_all add: edge_def quiet_env_def)

theorem ned_spread_factor_lost_witness:
  "\<exists>h'. reconcileNed quiet_env (edge\<lparr>ned_monitor := Some (edge_monitor\<lparr>mo_spread_factor := ''0.9''\<rparr>)\<rparr>) [] = (Val None, h')"
proof -
  have "\<exists>h'. reconcileNed quiet_env edge [] = (Val None, h')"
    by (simp add: reconcileNed_def constructConfigMapForNED_def BuildNEDMonitoringResources_def edge_def edge_monitor_def run_simps
        or_nonempty_def or_default_def no_options_def Let_def quiet_env_def)
  then obtain h' where "reconcileNed quiet_env edge [] = (Val None, h')" by blast
  from ned_spread_factor_lost [OF _ this, of edge_monitor] show ?thesis by (auto simp: edge_def)
qed

text \<open>A monitored neighbour without an address is dereferenced.\<close>

lemma ned_neighbour_panics:
  "\<exists>h'. Reconcile (quiet_env\<lparr>e_get_ned := \<lambda>_ _. Inr (edge\<lparr>ned_neighbors := [\<lparr>nb_node = ''far'', nb_domain = ''far.example'', nb_lpm_ip = None\<rparr>]\<rparr>)\<rparr>)
     \<lparr>nd_factory = None\<rparr> (''default'', ''edge'') [] = (Panic, h')"
  by (simp add: Reconcile_def applyNetworkEdgeDeviceDefaults_def default_template_def DefaultSwitchTemplate_def SwitchTemplateModeNED_def
        createExternalResources_def constructConfigMapForNED_def constructReplicaSetforNED_def monitor_ned_def register_ned_def
        edge_def edge_monitor_def set_ned_finalizers_def new_meta_def run_simps BuildNEDMonitoringResources_def or_nonempty_def no_options_def
        Let_def quiet_env_def)

end
