(* ===== verification/Manager.thy ===== *)
theory Manager
  imports Overlay Ned Quarantine PodWebhook PodController NetworkController
begin

text \<open>
  The start of the operator: \<^verbatim>\<open>cmd/main.go\<close> and the \<^verbatim>\<open>SetupWithManager\<close> functions of
  \<^verbatim>\<open>internal/controller\<close>. The manager of controller-runtime is a parameter (\<open>runtime\<close>): its
  state here is what was registered with it, and the calls the set-up makes to the SDN
  controller are in the history, as for the reconcilers.
\<close>

section \<open>Code\<close>

text \<open>\<^verbatim>\<open>metav1.GetControllerOf\<close> is \<open>om_owner\<close>.\<close>

definition apiGVStr :: string where "apiGVStr = ''l2sm.l2sm.k8s.local/v1''"

definition replicaSetOwnerKey :: string where "replicaSetOwnerKey = ''.metadata.controller''"

definition setOwnerKeyOverlay :: string where "setOwnerKeyOverlay = ''.metadata.controller.overlay''"

definition owner_index :: "string \<Rightarrow> obj_meta \<Rightarrow> string list" where
  "owner_index kind m = (case om_owner m of
       None \<Rightarrow> []
     | Some (apiVersion, k, name) \<Rightarrow> if apiVersion \<noteq> apiGVStr \<or> k \<noteq> kind then [] else [name])"

text \<open>What was registered: a controller with the kinds it watches, for itself and as owner.\<close>

datatype registered =
    NetworkCtl network_reconciler
  | PodCtl pod_reconciler
  | NedCtl ned_reconciler
  | OverlayCtl overlay_reconciler
  | QuarantineCtl quarantine_reconciler

record manager_options =
  op_metrics_addr :: string
  op_secure :: bool
  op_filter :: bool
  op_metrics_protos :: "string list option"
  op_webhook_protos :: "string list option"
  op_probe_addr :: string
  op_leader_election :: bool
  op_leader_id :: string

record manager_state =
  mgr_history :: history
  mgr_options :: "manager_options option"
  mgr_indexes :: "(string \<times> string \<times> (obj_meta \<Rightarrow> string list)) list"
  mgr_controllers :: "(registered \<times> string list) list"
  mgr_webhooks :: "(string \<times> pod_annotator) list"
  mgr_checks :: "string list"
  mgr_started :: bool

text \<open>The replies of controller-runtime, which may depend on everything registered so far.\<close>

record runtime =
  rt_config :: "err option"
  rt_new :: "manager_options \<Rightarrow> err option"
  rt_index :: "manager_state \<Rightarrow> string \<Rightarrow> string \<Rightarrow> err option"
  rt_complete :: "manager_state \<Rightarrow> registered \<Rightarrow> string list \<Rightarrow> err option"
  rt_check :: "manager_state \<Rightarrow> string \<Rightarrow> err option"
  rt_start :: "manager_state \<Rightarrow> err option"

definition on_history :: "(history, 'a) go \<Rightarrow> (manager_state, 'a) go" where
  "on_history f = (\<lambda>m. case f (mgr_history m) of (x, h) \<Rightarrow> (x, m\<lparr>mgr_history := h\<rparr>))"

text \<open>A refused registration leaves the manager as it was.\<close>

definition registering :: "(manager_state \<Rightarrow> err option) \<Rightarrow> (manager_state \<Rightarrow> manager_state) \<Rightarrow> (manager_state, err option) go" where
  "registering reply f = (\<lambda>m. case reply m of Some e \<Rightarrow> (Val (Some e), m) | None \<Rightarrow> (Val None, f m))"

definition IndexField :: "runtime \<Rightarrow> string \<Rightarrow> string \<Rightarrow> (obj_meta \<Rightarrow> string list) \<Rightarrow> (manager_state, err option) go" where
  "IndexField R kind field f =
     registering (\<lambda>m. rt_index R m kind field) (\<lambda>m. m\<lparr>mgr_indexes := mgr_indexes m @ [(kind, field, f)]\<rparr>)"

definition Complete :: "runtime \<Rightarrow> registered \<Rightarrow> string list \<Rightarrow> (manager_state, err option) go" where
  "Complete R c kinds =
     registering (\<lambda>m. rt_complete R m c kinds) (\<lambda>m. m\<lparr>mgr_controllers := mgr_controllers m @ [(c, kinds)]\<rparr>)"

text \<open>\<^verbatim>\<open>if err := m; err != nil { return err }\<close>.\<close>

definition and_then :: "(manager_state, err option) go \<Rightarrow> (manager_state, err option) go \<Rightarrow> (manager_state, err option) go" where
  "and_then f g = gbind f (\<lambda>err. case err of Some e \<Rightarrow> ret (Some e) | None \<Rightarrow> g)"

definition sdn_session :: "environment \<Rightarrow> (manager_state, err + sdn_client) go" where
  "sdn_session E = on_history (NewClient E InternalType (karaf_config (internal_url E)))"

definition setup_networks :: "environment \<Rightarrow> runtime \<Rightarrow> string \<Rightarrow> (manager_state, err option) go" where
  "setup_networks E R namespace = gbind (sdn_session E) (\<lambda>x. case x of
       Inl e \<Rightarrow> ret (Some e)
     | Inr c \<Rightarrow> Complete R (NetworkCtl \<lparr>nr_client = c, nr_namespace = namespace\<rparr>) [''L2Network''])"

definition setup_pods :: "environment \<Rightarrow> runtime \<Rightarrow> string \<Rightarrow> (manager_state, err option) go" where
  "setup_pods E R namespace = gbind (sdn_session E) (\<lambda>x. case x of
       Inl e \<Rightarrow> ret (Some e)
     | Inr c \<Rightarrow> Complete R (PodCtl \<lparr>pr_client = c, pr_namespace = namespace\<rparr>) [''Pod''])"

definition setup_neds :: "runtime \<Rightarrow> ned_reconciler \<Rightarrow> (manager_state, err option) go" where
  "setup_neds R r =
     and_then (IndexField R ''ReplicaSet'' replicaSetOwnerKey (owner_index ''NetworkEdgeDevice''))
    (and_then (IndexField R ''ConfigMap'' replicaSetOwnerKey (owner_index ''NetworkEdgeDevice''))
       (Complete R (NedCtl r) [''NetworkEdgeDevice'', ''ReplicaSet'', ''ConfigMap'']))"

definition setup_overlays :: "runtime \<Rightarrow> overlay_reconciler \<Rightarrow> (manager_state, err option) go" where
  "setup_overlays R r =
     and_then (IndexField R ''ReplicaSet'' setOwnerKeyOverlay (owner_index ''Overlay''))
    (and_then (IndexField R ''ConfigMap'' setOwnerKeyOverlay (owner_index ''Overlay''))
    (and_then (IndexField R ''Service'' setOwnerKeyOverlay (owner_index ''Overlay''))
    (and_then (IndexField R ''NetworkAttachmentDefinition'' setOwnerKeyOverlay (owner_index ''Overlay''))
       (Complete R (OverlayCtl r) [''Overlay'', ''ReplicaSet'', ''ConfigMap'', ''Service'', ''NetworkAttachmentDefinition'']))))"

definition setup_quarantine :: "environment \<Rightarrow> runtime \<Rightarrow> quarantine_reconciler \<Rightarrow> (manager_state, err option) go" where
  "setup_quarantine E R r =
     (case qc_client r of
        Some c \<Rightarrow> Complete R (QuarantineCtl r) [''QuarantinePodRequest'']
      | None \<Rightarrow> gbind (sdn_session E) (\<lambda>x. case x of
            Inl e \<Rightarrow> ret (Some e)
          | Inr c \<Rightarrow> Complete R (QuarantineCtl \<lparr>qc_client = Some c\<rparr>) [''QuarantinePodRequest'']))"

section \<open>main\<close>

record flags =
  fl_metrics_addr :: string
  fl_probe_addr :: string
  fl_leader_elect :: bool
  fl_secure :: bool
  fl_http2 :: bool

definition default_flags :: flags where
  "default_flags = \<lparr>fl_metrics_addr = '':8080'', fl_probe_addr = '':8081'', fl_leader_elect = False,
     fl_secure = False, fl_http2 = False\<rparr>"

text \<open>\<^verbatim>\<open>NextProtos\<close> of a TLS configuration, \<open>None\<close> for the default of the library.\<close>

definition disableHTTP2 :: "string list option \<Rightarrow> string list option" where
  "disableHTTP2 c = Some [''http/1.1'']"

definition tlsOpts :: "flags \<Rightarrow> (string list option \<Rightarrow> string list option) list" where
  "tlsOpts fl = (if \<not> fl_http2 fl then [disableHTTP2] else [])"

definition manager_options_of :: "flags \<Rightarrow> manager_options" where
  "manager_options_of fl =
     \<lparr>op_metrics_addr = fl_metrics_addr fl, op_secure = fl_secure fl, op_filter = fl_secure fl,
      op_metrics_protos = fold (\<lambda>f. f) (tlsOpts fl) None, op_webhook_protos = fold (\<lambda>f. f) (tlsOpts fl) None,
      op_probe_addr = fl_probe_addr fl, op_leader_election = fl_leader_elect fl,
      op_leader_id = ''ec71f4b7.l2sm.k8s.local''\<rparr>"

definition new_manager :: "runtime \<Rightarrow> manager_options \<Rightarrow> (manager_state, err option) go" where
  "new_manager R opts = registering (\<lambda>m. rt_new R opts) (\<lambda>m. m\<lparr>mgr_options := Some opts\<rparr>)"

definition register_webhook :: "string \<Rightarrow> pod_annotator \<Rightarrow> (manager_state, unit) go" where
  "register_webhook path a = (\<lambda>m. (Val (), m\<lparr>mgr_webhooks := mgr_webhooks m @ [(path, a)]\<rparr>))"

definition add_check :: "runtime \<Rightarrow> string \<Rightarrow> (manager_state, err option) go" where
  "add_check R name = registering (\<lambda>m. rt_check R m name) (\<lambda>m. m\<lparr>mgr_checks := mgr_checks m @ [name]\<rparr>)"

definition start_manager :: "runtime \<Rightarrow> (manager_state, err option) go" where
  "start_manager R = (\<lambda>m. (Val (rt_start R m), m\<lparr>mgr_started := True\<rparr>))"

text \<open>The value is the exit code; \<^verbatim>\<open>os.Exit(1)\<close> on every error.\<close>

definition or_exit :: "(manager_state, err option) go \<Rightarrow> (manager_state, nat) go \<Rightarrow> (manager_state, nat) go" where
  "or_exit f g = gbind f (\<lambda>err. case err of Some e \<Rightarrow> ret 1 | None \<Rightarrow> g)"

definition setup_webhook :: "environment \<Rightarrow> (manager_state, unit) go" where
  "setup_webhook E =
     (if e_os E ''ENABLE_WEBHOOKS'' \<noteq> Some ''false''
      then register_webhook ''/mutate-v1-pod'' \<lparr>pa_namespace = GetSwitchesNamespace (e_os E)\<rparr>
      else ret ())"

definition main_program :: "environment \<Rightarrow> runtime \<Rightarrow> flags \<Rightarrow> (manager_state, nat) go" where
  "main_program E R fl =
     (case rt_config R of
        Some e \<Rightarrow> ret 1
      | None \<Rightarrow>
          or_exit (new_manager R (manager_options_of fl))
         (or_exit (setup_networks E R (GetSwitchesNamespace (e_os E)))
         (or_exit (setup_pods E R (GetSwitchesNamespace (e_os E)))
         (or_exit (setup_neds R \<lparr>nd_factory = Some (DefaultClientFactory E)\<rparr>)
         (or_exit (setup_overlays R \<lparr>or_factory = Some (DefaultClientFactory E)\<rparr>)
         (gbind (setup_webhook E) (\<lambda>_.
            or_exit (setup_quarantine E R \<lparr>qc_client = None\<rparr>)
           (or_exit (add_check R ''healthz'')
           (or_exit (add_check R ''readyz'')
           (or_exit (start_manager R) (ret 0)))))))))))"

section \<open>Lemmas\<close>

lemma wp_registering [wp_simps]: "wp (registering reply f) Q m =
    (case reply m of Some e \<Rightarrow> Q (Val (Some e)) m | None \<Rightarrow> Q (Val None) (f m))"
  by (simp add: wp_def registering_def split: option.split)

lemma wp_or_exit: "wp (or_exit f g) Q m =
    wp f (\<lambda>r m'. case r of Val (Some e) \<Rightarrow> Q (Val 1) m' | Val None \<Rightarrow> wp g Q m' | Panic \<Rightarrow> Q Panic m' | Hang \<Rightarrow> Q Hang m') m"
  unfolding or_exit_def wp_gbind
  by (rule arg_cong [where f = "\<lambda>P. wp f P m"]) (auto simp: fun_eq_iff wp_ret split: flow.split option.split)

lemma wp_and_then: "wp (and_then f g) Q m =
    wp f (\<lambda>r m'. case r of Val (Some e) \<Rightarrow> Q (Val (Some e)) m' | Val None \<Rightarrow> wp g Q m' | Panic \<Rightarrow> Q Panic m' | Hang \<Rightarrow> Q Hang m') m"
  unfolding and_then_def wp_gbind
  by (rule arg_cong [where f = "\<lambda>P. wp f P m"]) (auto simp: fun_eq_iff wp_ret split: flow.split option.split)

abbreviation controller_session :: "environment \<Rightarrow> session_client" where
  "controller_session E \<equiv> NewSessionClient (internal_url E) ''karaf'' ''karaf''"

abbreviation accepted_session :: "environment \<Rightarrow> event" where
  "accepted_session E \<equiv> sent (controller_session E) ''GET'' ''/vnets/api/status'' [] (Inr 200)"

lemma wp_on_history: "wp (on_history f) Q m = wp f (\<lambda>r h. Q r (m\<lparr>mgr_history := h\<rparr>)) (mgr_history m)"
  by (simp add: wp_def on_history_def split: prod.split)

lemma wp_sdn_session:
  assumes "\<And>e h. Q (Val (Inl e)) (m\<lparr>mgr_history := h\<rparr>)"
    and "Q (Val (Inr (InternalClient E (controller_session E)))) (m\<lparr>mgr_history := accepted_session E # mgr_history m\<rparr>)"
  shows "wp (sdn_session E) Q m"
  unfolding sdn_session_def wp_on_history
proof (rule wp_mono [OF wp_NewClient_session], goal_cases)
  case (1 r h)
  then obtain x where "r = Val x" by blast
  then show ?case using 1 assms by (cases x) (auto simp: karaf_config_def InternalType_def)
qed

text \<open>A set-up step: when it succeeds it has changed the manager by \<open>F\<close>, and it starts nothing.\<close>

definition adds :: "(manager_state, err option) go \<Rightarrow> (manager_state \<Rightarrow> manager_state) \<Rightarrow> bool" where
  "adds f F \<longleftrightarrow> (\<forall>m. mgr_started (F m) = mgr_started m \<and>
     wp f (\<lambda>r m'. r = Val None \<and> m' = F m \<or> (\<exists>e. r = Val (Some e) \<and> mgr_started m' = mgr_started m)) m)"

lemma adds_registering: "(\<And>m. mgr_started (F m) = mgr_started m) \<Longrightarrow> adds (registering reply F) F"
  by (auto simp: adds_def wp_registering split: option.split)

lemma adds_and_then: "adds f F \<Longrightarrow> adds g G \<Longrightarrow> adds (and_then f g) (G \<circ> F)"
  unfolding adds_def [of "and_then f g"] wp_and_then
proof (intro allI conjI, goal_cases)
  case (2 m)
  have f: "wp f (\<lambda>r m'. r = Val None \<and> m' = F m \<or> (\<exists>e. r = Val (Some e) \<and> mgr_started m' = mgr_started m)) m"
    and started: "mgr_started (F m) = mgr_started m" using 2(1) by (simp_all add: adds_def)
  have g: "wp g (\<lambda>r m'. r = Val None \<and> m' = G (F m) \<or> (\<exists>e. r = Val (Some e) \<and> mgr_started m' = mgr_started m)) (F m)"
    using 2(2) by (simp add: adds_def flip: started)
  show ?case by (rule wp_mono [OF f]) (use g in auto)
qed (simp add: adds_def)

definition with_session :: "environment \<Rightarrow> manager_state \<Rightarrow> manager_state" where
  "with_session E m = m\<lparr>mgr_history := accepted_session E # mgr_history m\<rparr>"

definition with_controller :: "registered \<Rightarrow> string list \<Rightarrow> manager_state \<Rightarrow> manager_state" where
  "with_controller c kinds m = m\<lparr>mgr_controllers := mgr_controllers m @ [(c, kinds)]\<rparr>"

definition with_check :: "string \<Rightarrow> manager_state \<Rightarrow> manager_state" where
  "with_check x m = m\<lparr>mgr_checks := mgr_checks m @ [x]\<rparr>"

definition with_webhooks :: "(string \<times> pod_annotator) list \<Rightarrow> manager_state \<Rightarrow> manager_state" where
  "with_webhooks ws m = m\<lparr>mgr_webhooks := mgr_webhooks m @ ws\<rparr>"

definition with_indexes :: "(string \<times> string \<times> (obj_meta \<Rightarrow> string list)) list \<Rightarrow> manager_state \<Rightarrow> manager_state" where
  "with_indexes xs m = m\<lparr>mgr_indexes := mgr_indexes m @ xs\<rparr>"

lemma adds_Complete: "adds (Complete R c kinds) (with_controller c kinds)"
  unfolding Complete_def with_controller_def by (rule adds_registering) simp

lemma adds_IndexField: "adds (IndexField R kind field f) (with_indexes [(kind, field, f)])"
  unfolding IndexField_def with_indexes_def by (rule adds_registering) simp

lemma adds_session:
  assumes "adds (g (InternalClient E (controller_session E))) G"
  shows "adds (gbind (sdn_session E) (\<lambda>x. case x of Inl e \<Rightarrow> ret (Some e) | Inr c \<Rightarrow> g c)) (G \<circ> with_session E)"
  unfolding adds_def wp_gbind
proof (intro allI conjI, goal_cases)
  case (2 m)
  show ?case
    by (rule wp_sdn_session)
      (use assms [unfolded adds_def, rule_format, of "with_session E m"] in \<open>simp_all add: wp_ret with_session_def\<close>)
qed (use assms in \<open>simp add: adds_def with_session_def\<close>)

lemmas adds_intros = adds_registering adds_and_then adds_Complete adds_IndexField adds_session

lemma adds_new_manager: "adds (new_manager R opts) (\<lambda>m. m\<lparr>mgr_options := Some opts\<rparr>)"
  unfolding new_manager_def by (rule adds_registering) simp

lemma adds_add_check: "adds (add_check R name) (with_check name)"
  unfolding add_check_def with_check_def by (rule adds_registering) simp

lemma adds_setup_networks: "adds (setup_networks E R ns)
    (with_controller (NetworkCtl \<lparr>nr_client = InternalClient E (controller_session E), nr_namespace = ns\<rparr>) [''L2Network''] \<circ> with_session E)"
  unfolding setup_networks_def by (rule adds_session) (rule adds_Complete)

lemma adds_setup_pods: "adds (setup_pods E R ns)
    (with_controller (PodCtl \<lparr>pr_client = InternalClient E (controller_session E), pr_namespace = ns\<rparr>) [''Pod''] \<circ> with_session E)"
  unfolding setup_pods_def by (rule adds_session) (rule adds_Complete)

lemma adds_setup_quarantine: "adds (setup_quarantine E R \<lparr>qc_client = None\<rparr>)
    (with_controller (QuarantineCtl \<lparr>qc_client = Some (InternalClient E (controller_session E))\<rparr>) [''QuarantinePodRequest''] \<circ> with_session E)"
  unfolding setup_quarantine_def quarantine_reconciler.simps option.case by (rule adds_session) (rule adds_Complete)

lemma adds_setup_neds: "adds (setup_neds R r)
    ((with_controller (NedCtl r) [''NetworkEdgeDevice'', ''ReplicaSet'', ''ConfigMap'']
      \<circ> with_indexes [(''ConfigMap'', replicaSetOwnerKey, owner_index ''NetworkEdgeDevice'')])
      \<circ> with_indexes [(''ReplicaSet'', replicaSetOwnerKey, owner_index ''NetworkEdgeDevice'')])"
  unfolding setup_neds_def by (intro adds_and_then adds_IndexField adds_Complete)

lemma adds_setup_overlays: "adds (setup_overlays R r)
    ((((with_controller (OverlayCtl r) [''Overlay'', ''ReplicaSet'', ''ConfigMap'', ''Service'', ''NetworkAttachmentDefinition'']
      \<circ> with_indexes [(''NetworkAttachmentDefinition'', setOwnerKeyOverlay, owner_index ''Overlay'')])
      \<circ> with_indexes [(''Service'', setOwnerKeyOverlay, owner_index ''Overlay'')])
      \<circ> with_indexes [(''ConfigMap'', setOwnerKeyOverlay, owner_index ''Overlay'')])
      \<circ> with_indexes [(''ReplicaSet'', setOwnerKeyOverlay, owner_index ''Overlay'')])"
  unfolding setup_overlays_def by (intro adds_and_then adds_IndexField adds_Complete)

lemma wp_setup_webhook: "wp (setup_webhook E) Q m = Q (Val ()) (with_webhooks
    (if e_os E ''ENABLE_WEBHOOKS'' = Some ''false'' then [] else [(''/mutate-v1-pod'', \<lparr>pa_namespace = GetSwitchesNamespace (e_os E)\<rparr>)]) m)"
  by (simp add: with_webhooks_def setup_webhook_def register_webhook_def wp_def ret_def)

lemma wp_start_manager: "wp (start_manager R) Q m = Q (Val (rt_start R m)) (m\<lparr>mgr_started := True\<rparr>)"
  by (simp add: wp_def start_manager_def)

lemma manager_adds:
  "mgr_history (with_session E m) = accepted_session E # mgr_history m" "mgr_controllers (with_session E m) = mgr_controllers m"
  "mgr_indexes (with_session E m) = mgr_indexes m" "mgr_webhooks (with_session E m) = mgr_webhooks m" "mgr_started (with_session E m) = mgr_started m"
  "mgr_history (with_controller c k m) = mgr_history m" "mgr_controllers (with_controller c k m) = mgr_controllers m @ [(c, k)]"
  "mgr_indexes (with_controller c k m) = mgr_indexes m" "mgr_webhooks (with_controller c k m) = mgr_webhooks m"
  "mgr_started (with_controller c k m) = mgr_started m"
  "mgr_history (with_indexes xs m) = mgr_history m" "mgr_controllers (with_indexes xs m) = mgr_controllers m"
  "mgr_indexes (with_indexes xs m) = mgr_indexes m @ xs" "mgr_webhooks (with_indexes xs m) = mgr_webhooks m"
  "mgr_started (with_indexes xs m) = mgr_started m"
  "mgr_history (with_check x m) = mgr_history m" "mgr_controllers (with_check x m) = mgr_controllers m"
  "mgr_indexes (with_check x m) = mgr_indexes m" "mgr_webhooks (with_check x m) = mgr_webhooks m" "mgr_started (with_check x m) = mgr_started m"
  "mgr_history (with_webhooks ws m) = mgr_history m" "mgr_controllers (with_webhooks ws m) = mgr_controllers m"
  "mgr_indexes (with_webhooks ws m) = mgr_indexes m" "mgr_webhooks (with_webhooks ws m) = mgr_webhooks m @ ws"
  "mgr_started (with_webhooks ws m) = mgr_started m"
  by (simp_all add: with_session_def with_controller_def with_indexes_def with_check_def with_webhooks_def)

lemma or_exit_adds:
  assumes "adds f F" "\<not> mgr_started m" "\<And>m'. \<not> mgr_started m' \<Longrightarrow> Q (Val 1) m'" "\<not> mgr_started (F m) \<Longrightarrow> wp g Q (F m)"
  shows "wp (or_exit f g) Q m"
  unfolding wp_or_exit
  by (rule wp_mono [OF assms(1) [unfolded adds_def, rule_format, THEN conjunct2]])
    (use assms in \<open>auto simp: adds_def split: flow.splits\<close>)

section \<open>The running operator\<close>

definition empty_manager :: manager_state where
  "empty_manager = \<lparr>mgr_history = [], mgr_options = None, mgr_indexes = [], mgr_controllers = [], mgr_webhooks = [],
     mgr_checks = [], mgr_started = False\<rparr>"

text \<open>
  C11. The operator runs only as a whole. Whatever controller-runtime and the SDN controller
  answer, \<open>main\<close> ends with exit code 0 or 1, and if it got to start the manager then the SDN
  controller accepted three sessions (with no other request), the five controllers were registered with
  clients of the configured controller, the webhook too unless it was disabled, with the
  namespace of the pod and network controllers, and no field was indexed twice for one kind.
\<close>

theorem operator_starts:
  "\<exists>code m. main_program E R fl empty_manager = (Val code, m) \<and> code \<le> 1 \<and> (code = 0 \<longrightarrow> mgr_started m) \<and>
    (mgr_started m \<longrightarrow>
      mgr_history m = replicate 3 (sent (NewSessionClient (internal_url E) ''karaf'' ''karaf'') ''GET'' ''/vnets/api/status'' [] (Inr 200)) \<and>
      (let c = InternalClient E (NewSessionClient (internal_url E) ''karaf'' ''karaf''); ns = GetSwitchesNamespace (e_os E);
           factory = Some (DefaultClientFactory E)
       in map fst (mgr_controllers m) =
           [NetworkCtl \<lparr>nr_client = c, nr_namespace = ns\<rparr>, PodCtl \<lparr>pr_client = c, pr_namespace = ns\<rparr>,
            NedCtl \<lparr>nd_factory = factory\<rparr>, OverlayCtl \<lparr>or_factory = factory\<rparr>, QuarantineCtl \<lparr>qc_client = Some c\<rparr>] \<and>
         mgr_webhooks m = (if e_os E ''ENABLE_WEBHOOKS'' = Some ''false'' then [] else [(''/mutate-v1-pod'', \<lparr>pa_namespace = ns\<rparr>)])) \<and>
      distinct (map (\<lambda>(kind, field, f). (kind, field)) (mgr_indexes m)))"
proof -
  let ?Q = "\<lambda>r m. (\<exists>code. r = Val (code :: nat) \<and> code \<le> 1 \<and> (code = 0 \<longrightarrow> mgr_started m)) \<and> (mgr_started m \<longrightarrow>
      mgr_history m = replicate 3 (accepted_session E) \<and>
      (let c = InternalClient E (controller_session E); ns = GetSwitchesNamespace (e_os E); factory = Some (DefaultClientFactory E)
       in map fst (mgr_controllers m) =
           [NetworkCtl \<lparr>nr_client = c, nr_namespace = ns\<rparr>, PodCtl \<lparr>pr_client = c, pr_namespace = ns\<rparr>,
            NedCtl \<lparr>nd_factory = factory\<rparr>, OverlayCtl \<lparr>or_factory = factory\<rparr>, QuarantineCtl \<lparr>qc_client = Some c\<rparr>] \<and>
         mgr_webhooks m = (if e_os E ''ENABLE_WEBHOOKS'' = Some ''false'' then [] else [(''/mutate-v1-pod'', \<lparr>pa_namespace = ns\<rparr>)])) \<and>
      distinct (map (\<lambda>(kind, field, f). (kind, field)) (mgr_indexes m)))"
  have stop: "?Q (Val 1) m" if "\<not> mgr_started m" for m using that by simp
  note step = or_exit_adds [where Q = ?Q, OF _ _ stop]
  have "wp (main_program E R fl) ?Q empty_manager"
  proof (cases "rt_config R")
    case None
    show ?thesis unfolding main_program_def None option.case
      apply (rule step [OF adds_new_manager], simp add: empty_manager_def, assumption)
      apply (rule step [OF adds_setup_networks], assumption, assumption)
      apply (rule step [OF adds_setup_pods], assumption, assumption)
      apply (rule step [OF adds_setup_neds], assumption, assumption)
      apply (rule step [OF adds_setup_overlays], assumption, assumption)
      apply (simp only: wp_gbind wp_setup_webhook flow.case)
      apply (rule step [OF adds_setup_quarantine], simp add: manager_adds, assumption)
      apply (rule step [OF adds_add_check], assumption, assumption)
      apply (rule step [OF adds_add_check], assumption, assumption)
      apply (simp add: wp_or_exit wp_start_manager wp_ret manager_adds empty_manager_def numeral_eq_Suc Let_def
          replicaSetOwnerKey_def setOwnerKeyOverlay_def split: option.split)
      done
  qed (simp add: main_program_def wp_ret empty_manager_def)
  note run = wpD [OF this]
  obtain r m where e: "main_program E R fl empty_manager = (r, m)" by (metis surj_pair)
  from run [OF e] obtain code where "r = Val code" by blast
  then show ?thesis using run [OF e] e by blast
qed

text \<open>A controller-runtime that accepts everything.\<close>

definition quiet_runtime :: runtime where
  "quiet_runtime = \<lparr>rt_config = None, rt_new = \<lambda>_. None, rt_index = \<lambda>_ _ _. None, rt_complete = \<lambda>_ _ _. None,
     rt_check = \<lambda>_ _. None, rt_start = \<lambda>_. None\<rparr>"

theorem operator_starts_witness:
  "\<exists>m. main_program (quiet_env\<lparr>e_http := \<lambda>_ _ _ _ _. Inr 200\<rparr>) quiet_runtime default_flags empty_manager = (Val 0, m) \<and>
    mgr_started m \<and> length (mgr_controllers m) = 5"
proof -
  let ?E = "quiet_env\<lparr>e_http := \<lambda>_ _ _ _ _. Inr 200\<rparr>"
  have session: "NewClient ?E InternalType (karaf_config url) h =
      (Val (Inr (InternalClient ?E (NewSessionClient url ''karaf'' ''karaf''))), sent (NewSessionClient url ''karaf'' ''karaf'') ''GET'' ''/vnets/api/status'' [] (Inr 200) # h)" for url h
    by (simp add: NewClient_def InternalType_def internal_beginSessionController_def Get_def newRequest_def Do_def call_def
        gbind_def ret_def sent_def karaf_config_def quiet_env_def NewSessionClient_def)
  have session': "sdn_session ?E m = (Val (Inr (InternalClient ?E (controller_session ?E))), with_session ?E m)" for m
    by (simp add: sdn_session_def on_history_def session with_session_def)
  have "\<exists>m. main_program ?E quiet_runtime default_flags empty_manager = (Val 0, m)"
    by (simp add: main_program_def or_exit_def run_simps quiet_runtime_def new_manager_def setup_networks_def setup_pods_def setup_neds_def
        setup_overlays_def setup_quarantine_def session' Complete_def IndexField_def registering_def and_then_def setup_webhook_def
        register_webhook_def add_check_def start_manager_def)
  then obtain m where m: "main_program ?E quiet_runtime default_flags empty_manager = (Val 0, m)" by blast
  with operator_starts [of ?E quiet_runtime default_flags] have "mgr_started m" "length (map fst (mgr_controllers m)) = 5"
    by (auto simp: Let_def simp del: length_map)
  then show ?thesis using m by simp
qed

section \<open>The default client factory\<close>

text \<open>The factory \<open>main\<close> passes is the one a reconciler without a factory uses.\<close>

lemma default_factory_parts:
  "Overlay.createMonitoringNetwork E \<lparr>or_factory = Some (DefaultClientFactory E)\<rparr> = Overlay.createMonitoringNetwork E \<lparr>or_factory = None\<rparr>"
  "Overlay.deleteMonitoringNetwork E \<lparr>or_factory = Some (DefaultClientFactory E)\<rparr> = Overlay.deleteMonitoringNetwork E \<lparr>or_factory = None\<rparr>"
  "Ned.createMonitoringNetwork E \<lparr>nd_factory = Some (DefaultClientFactory E)\<rparr> = Ned.createMonitoringNetwork E \<lparr>nd_factory = None\<rparr>"
  "Ned.deleteMonitoringNetwork E \<lparr>nd_factory = Some (DefaultClientFactory E)\<rparr> = Ned.deleteMonitoringNetwork E \<lparr>nd_factory = None\<rparr>"
  by (rule ext, simp add: Overlay.createMonitoringNetwork_def Overlay.deleteMonitoringNetwork_def Ned.createMonitoringNetwork_def
      Ned.deleteMonitoringNetwork_def monitoringClientFactory_def)+

lemma default_factory:
  "Overlay.Reconcile E \<lparr>or_factory = Some (DefaultClientFactory E)\<rparr> = Overlay.Reconcile E \<lparr>or_factory = None\<rparr>"
  "Ned.Reconcile E \<lparr>nd_factory = Some (DefaultClientFactory E)\<rparr> = Ned.Reconcile E \<lparr>nd_factory = None\<rparr>"
  unfolding Overlay.Reconcile_def delete_overlay_def launch_overlay_def default_factory_parts
    Ned.Reconcile_def delete_ned_def Ned.createExternalResources_def monitor_ned_def
  by (rule refl)+

end
