(* ===== verification/Interfaces.thy ===== *)
theory Interfaces
  imports PodWebhook PodController
begin

text \<open>
  The free interfaces of a node, shared by the webhook and the pod controller through the
  labels of the attachment definitions: the webhook takes those whose label \<^verbatim>\<open>used-<node>\<close> is
  not true and sets it, the controller sets it to false when the pod is deleted. Both are run here
  against an API server that keeps what it is sent, to show that no two pods of a node are
  ever given the same interface.
\<close>

section \<open>The attachment definitions the API server has\<close>

definition nad_key :: "nad \<Rightarrow> key" where
  "nad_key n = (om_namespace (nad_meta n), nad_name n)"

definition nad_effect :: "event \<Rightarrow> (key \<rightharpoonup> nad) \<Rightarrow> (key \<rightharpoonup> nad)" where
  "nad_effect e S = (case e of
       UpdatedNad n (Inr n') \<Rightarrow> S(nad_key n \<mapsto> n')
     | DeletedNad n None \<Rightarrow> S(nad_key n := None)
     | Created (ONad n) None \<Rightarrow> S(nad_key n \<mapsto> n)
     | DeletedAllNads ns name None \<Rightarrow> (\<lambda>k. case S k of
           Some n \<Rightarrow> if fst k = ns \<and> map_get (om_labels (nad_meta n)) ''overlay'' = Some name then None else Some n
         | None \<Rightarrow> None)
     | _ \<Rightarrow> S)"

primrec stored_nads :: "(key \<rightharpoonup> nad) \<Rightarrow> history \<Rightarrow> (key \<rightharpoonup> nad)" where
  "stored_nads S [] = S"
| "stored_nads S (e # h) = nad_effect e (stored_nads S h)"

definition marked :: "(key \<rightharpoonup> nad) \<Rightarrow> history \<Rightarrow> string \<Rightarrow> string \<Rightarrow> string \<Rightarrow> bool" where
  "marked S h ns node x \<longleftrightarrow>
     (\<exists>n. stored_nads S h (ns, x) = Some n \<and> map_get (om_labels (nad_meta n)) (nad_label node) = Some ''true'')"

text \<open>
  An API server that answers from what it has: a listing gives definitions of the namespace whose
  label is not true, a read the stored definition, and an update stores the labels it is given.
\<close>

definition serves_nads :: "environment \<Rightarrow> (key \<rightharpoonup> nad) \<Rightarrow> bool" where
  "serves_nads E S \<longleftrightarrow>
     (\<forall>h ns label nads. e_list_nads E h ns label = Inr nads \<longrightarrow> distinct (map nad_name nads) \<and>
        (\<forall>n\<in>set nads. list_all unescaped (nad_name n) \<and> nad_key n = (ns, nad_name n) \<and>
           stored_nads S h (ns, nad_name n) = Some n \<and> map_get (om_labels (nad_meta n)) label \<noteq> Some ''true'')) \<and>
     (\<forall>h k n. e_get_nad E h k = Inr n \<longrightarrow> nad_key n = k \<and> stored_nads S h k = Some n) \<and>
     (\<forall>h n. \<exists>n'. e_update_nad E h n = Inr n' \<and> om_labels (nad_meta n') = om_labels (nad_meta n))"

lemma serves_list:
  assumes "serves_nads E S" "e_list_nads E h ns label = Inr nads"
  shows "distinct (map nad_name nads)" "\<forall>n\<in>set nads. nad_key n = (ns, nad_name n)" "\<forall>n\<in>set nads. list_all unescaped (nad_name n)"
    "\<forall>n\<in>set nads. stored_nads S h (ns, nad_name n) = Some n" "\<forall>n\<in>set nads. map_get (om_labels (nad_meta n)) label \<noteq> Some ''true''"
  using assms unfolding serves_nads_def by blast+

lemma serves_get: "serves_nads E S \<Longrightarrow> e_get_nad E h k = Inr n \<Longrightarrow> nad_key n = k \<and> stored_nads S h k = Some n"
  unfolding serves_nads_def by blast

lemma serves_update: "serves_nads E S \<Longrightarrow> \<exists>n'. e_update_nad E h n = Inr n' \<and> om_labels (nad_meta n') = om_labels (nad_meta n)"
  unfolding serves_nads_def by blast

section \<open>Runs\<close>

definition pod_interfaces :: "string \<Rightarrow> pod \<Rightarrow> string list" where
  "pod_interfaces ns p = (case pod_annotation p MULTUS_ANNOTATION_KEY of
       None \<Rightarrow> []
     | Some v \<Rightarrow> (case ExtractNetworks v ns of Inl e \<Rightarrow> [] | Inr as \<Rightarrow> map na_name as))"

text \<open>
  The pods admitted and not deleted, newest first. A deleted pod is one of them, read with
  the node and the annotation it was admitted with; its other annotations may be changed, and others may
  do anything that leaves the definitions of these pods marked.
\<close>

inductive interface_run :: "environment \<Rightarrow> session_client \<Rightarrow> string \<Rightarrow> (key \<rightharpoonup> nad) \<Rightarrow> pod list \<Rightarrow> history \<Rightarrow> bool" for E s ns S where
  start: "interface_run E s ns S [] []"
| admit: "interface_run E s ns S ps h \<Longrightarrow> Handle E \<lparr>pa_namespace = ns\<rparr> req h = (r, h') \<Longrightarrow>
    interface_run E s ns S (case r of Val (Patched p) \<Rightarrow> p # ps | _ \<Rightarrow> ps) h'"
| reconcile: "interface_run E s ns S ps h \<Longrightarrow> (\<And>q. e_get_pod E h k = Inr q \<Longrightarrow> \<not> om_deleted (pod_meta q)) \<Longrightarrow>
    PodController.Reconcile E (reconciler E s ns) k h = (x, h') \<Longrightarrow> interface_run E s ns S ps h'"
| delete: "interface_run E s ns S ps h \<Longrightarrow> e_get_pod E h k = Inr q \<Longrightarrow> p \<in> set ps \<Longrightarrow> pod_node q = pod_node p \<Longrightarrow>
    pod_annotation q MULTUS_ANNOTATION_KEY = pod_annotation p MULTUS_ANNOTATION_KEY \<Longrightarrow>
    PodController.Reconcile E (reconciler E s ns) k h = (x, h') \<Longrightarrow> interface_run E s ns S (remove1 p ps) h'"
| annotate: "interface_run E s ns S ps h \<Longrightarrow> pod_node p' = pod_node p \<Longrightarrow>
    pod_annotation p' MULTUS_ANNOTATION_KEY = pod_annotation p MULTUS_ANNOTATION_KEY \<Longrightarrow>
    interface_run E s ns S (map (\<lambda>a. if a = p then p' else a) ps) h"
| other: "interface_run E s ns S ps h \<Longrightarrow>
    (\<And>p x. p \<in> set ps \<Longrightarrow> x \<in> set (pod_interfaces ns p) \<Longrightarrow> marked S h ns (pod_node p) x \<Longrightarrow> marked S (e # h) ns (pod_node p) x) \<Longrightarrow>
    interface_run E s ns S ps (e # h)"

section \<open>What the programs do to the marks\<close>

definition touches_nads :: "event \<Rightarrow> bool" where
  "touches_nads e \<longleftrightarrow> (case e of UpdatedNad n r \<Rightarrow> True | DeletedNad n r \<Rightarrow> True | DeletedAllNads a b r \<Rightarrow> True
     | Created (ONad n) r \<Rightarrow> True | _ \<Rightarrow> False)"

lemma touches_nads_simps [simp]:
  "\<not> touches_nads (Rand64 r)" "\<not> touches_nads (UpdatedNetStatus n y)" "\<not> touches_nads (ListedNads a b z)" "\<not> touches_nads (GotNad k w')" "\<not> touches_nads (GotPod k w3)"
  "\<not> touches_nads (Http a b c d w2)" "\<not> touches_nads (UpdatedPod p w4)" "\<not> touches_nads (ListedNets q w)"
  by (simp_all add: touches_nads_def)

lemma rand_untouched: "\<forall>e\<in>set es. \<exists>r. e = Rand64 r \<Longrightarrow> \<forall>e\<in>set es. \<not> touches_nads e"
  by auto

lemma untouched: "\<not> touches_nads e \<Longrightarrow> nad_effect e S = S"
  by (simp add: touches_nads_def nad_effect_def split: event.splits obj.splits option.splits sum.splits)

lemma stored_untouched: "\<forall>e\<in>set es. \<not> touches_nads e \<Longrightarrow> stored_nads S (es @ h) = stored_nads S h"
  by (induction es) (simp_all add: untouched)

lemma marked_same: "stored_nads S h' = stored_nads S h \<Longrightarrow> marked S h' ns node x = marked S h ns node x"
  by (simp add: marked_def)

lemma wp_untouched:
  assumes "emits (\<lambda>e. \<not> touches_nads e) f" shows "wp f (\<lambda>r h'. stored_nads S h' = stored_nads S h) h"
  by (rule wpI) (use assms in \<open>auto dest: emitsD simp: stored_untouched\<close>)

lemma updated_mark:
  assumes "nad_key n = (ns, nm)" "stored_nads S h (ns, nm) = Some n"
    and "om_labels (nad_meta n2) = Some f" "\<forall>l. l \<noteq> nad_label node \<longrightarrow> f l = map_get (om_labels (nad_meta n)) l" "nad_key n' = (ns, nm)"
  shows "marked S (UpdatedNad n' (Inr n2) # h) ns' node' x \<longleftrightarrow>
    (if ns' = ns \<and> x = nm \<and> node' = node then f (nad_label node) = Some ''true'' else marked S h ns' node' x)"
  using assms by (auto simp: marked_def nad_effect_def map_get_def nad_label_def)

text \<open>One interface of the loop of the webhook.\<close>

definition taking :: "(key \<rightharpoonup> nad) \<Rightarrow> history \<Rightarrow> string \<Rightarrow> string \<Rightarrow> nad list \<Rightarrow> nat \<Rightarrow> network_annotation list \<Rightarrow> history \<Rightarrow> bool" where
  "taking S h0 ns node nads k ms h \<longleftrightarrow> map na_name ms = map nad_name (take k nads) \<and>
     (\<forall>n\<in>set (take k nads). marked S h ns node (nad_name n)) \<and>
     (\<forall>n\<in>set (drop k nads). stored_nads S h (ns, nad_name n) = Some n) \<and>
     (\<forall>node x. marked S h0 ns node x \<longrightarrow> marked S h ns node x)"

lemma taking_untouched: "taking S h0 ns node nads k ms h \<Longrightarrow> \<forall>e\<in>set es. \<not> touches_nads e \<Longrightarrow> taking S h0 ns node nads k ms (es @ h)"
  by (simp add: taking_def marked_def stored_untouched)

lemma taking_step:
  assumes t: "taking S h0 ns node nads k ms h" and k: "k < length nads" "distinct (map nad_name nads)" "\<forall>n\<in>set nads. nad_key n = (ns, nad_name n)"
    and n': "set_nad_label (nad_label node) ''true'' (nads ! k) = Val n'" "om_labels (nad_meta n2) = om_labels (nad_meta n')" "na_name m = nad_name (nads ! k)"
  shows "taking S h0 ns node nads (Suc k) (ms @ [m]) (UpdatedNad n' (Inr n2) # h)"
proof -
  let ?n = "nads ! k"
  obtain f where "om_labels (nad_meta ?n) = Some f" "n' = ?n\<lparr>nad_meta := (nad_meta ?n)\<lparr>om_labels := Some (f(nad_label node \<mapsto> ''true''))\<rparr>\<rparr>"
    using n'(1) by (cases "om_labels (nad_meta ?n)") (simp_all add: set_nad_label_def)
  then have f: "om_labels (nad_meta ?n) = Some f" "om_labels (nad_meta n') = Some (f(nad_label node \<mapsto> ''true''))" "nad_key n' = nad_key ?n"
    by (simp_all add: nad_key_def)
  have key: "nad_key ?n = (ns, nad_name ?n)" using k by simp
  have d: "drop k nads = ?n # drop (Suc k) nads" using k(1) by (rule Cons_nth_drop_Suc [symmetric])
  have st: "stored_nads S h (ns, nad_name ?n) = Some ?n" using t d by (simp add: taking_def)
  have mark: "marked S (UpdatedNad n' (Inr n2) # h) ns' node' x \<longleftrightarrow> ns' = ns \<and> x = nad_name ?n \<and> node' = node \<or> marked S h ns' node' x" for ns' node' x
    using updated_mark [OF key st, of n2 "f(nad_label node \<mapsto> ''true'')" node n'] f n'(2) key by (auto simp: map_get_def)
  have "nad_name n \<noteq> nad_name ?n" if "n \<in> set (drop (Suc k) nads)" for n
  proof -
    have "nad_name ?n \<notin> nad_name ` set (drop (Suc k) nads)"
      using k(2) by (subst (asm) id_take_nth_drop [OF k(1)]) simp
    then show ?thesis using that by (metis imageI)
  qed
  then have rest: "stored_nads S (UpdatedNad n' (Inr n2) # h) (ns, nad_name n) = Some n" if "n \<in> set (drop (Suc k) nads)" for n
    using that t d f(3) key by (auto simp: taking_def nad_effect_def)
  show ?thesis unfolding taking_def take_Suc_conv_app_nth [OF k(1)]
    using t n'(3) rest by (auto simp: taking_def mark)
qed

lemma listing_loop:
  assumes E: "serves_nads E S" and l: "e_list_nads E h ns (nad_label node) = Inr nads" "length annots \<le> length nads"
    and g: "stored_nads S g = stored_nads S h"
  shows "wp (gloop (annotate_network E ns (nad_label node) pn nads) (enumerate 0 annots) (nets, []))
    (\<lambda>r h'. (\<forall>node x. marked S h ns node x \<longrightarrow> marked S h' ns node x) \<and>
      (\<forall>v. r = Val v \<longrightarrow> (\<exists>nets' ms. v = Inr (nets', ms) \<and> taking S h ns node nads (length annots) ms h'))) g"
proof (rule wp_gloop [where I = "\<lambda>ds st h'. taking S h ns node nads (length ds) (snd st) h'"], goal_cases)
  case (1 ds x st w)
  then obtain es where es: "enumerate 0 annots = ds @ x # es" by blast
  have k: "length ds < length annots" using arg_cong [OF es, of length] by simp
  have "x = enumerate 0 annots ! length ds" by (simp add: es)
  also have "\<dots> = (length ds, annots ! length ds)" using k by (simp add: nth_enumerate_eq)
  finally have x: "x = (length ds, annots ! length ds)" .
  obtain nets ms where st: "st = (nets, ms)" by (cases st)
  have lt: "length ds < length nads" using k l(2) by simp
  have t: "taking S h ns node nads (length ds) ms w" using 1 st by simp
  then have keep: "\<forall>node x. marked S h ns node x \<longrightarrow> marked S (es @ w) ns node x" if "\<forall>e\<in>set es. \<exists>r. e = Rand64 r" for es
    using taking_untouched [OF t rand_untouched [OF that]] by (simp add: taking_def)
  note nads = serves_list(1,2) [OF E l(1)]
  have step: "taking S h ns node nads (Suc (length ds)) (ms @ [m]) (UpdatedNetStatus net r' # UpdatedNad n' (e_update_nad E (es @ w) n') # es @ w)"
    if "na_name m = nad_name (nads ! length ds)" "set_nad_label (nad_label node) ''true'' (nads ! length ds) = Val n'"
      "\<forall>e\<in>set es. \<exists>r. e = Rand64 r" for m n' net r' es
  proof -
    obtain n2 where n2: "e_update_nad E (es @ w) n' = Inr n2" "om_labels (nad_meta n2) = om_labels (nad_meta n')"
      using serves_update [OF E] by blast
    have "taking S h ns node nads (length ds) ms (es @ w)" by (rule taking_untouched [OF t rand_untouched [OF that(3)]])
    from taking_step [OF this lt nads that(2) n2(2) that(1)] show ?thesis
      using taking_untouched [where es = "[UpdatedNetStatus net r']"] n2(1) by simp
  qed
  show ?case unfolding x st
    by (rule wp_annotate_network [OF lt]) (use step keep keep [of "[]"] in auto)
next
  case (2 st w)
  then show ?case by (cases st) (auto simp: taking_def)
next
  case 3
  show ?case using serves_list(4) [OF E l(1)] g by (simp add: taking_def marked_def)
qed

text \<open>What the webhook does: it takes nothing from anybody, and what it gives out was free.\<close>

definition offered :: "environment \<Rightarrow> string \<Rightarrow> string \<Rightarrow> bool" where
  "offered E ns x \<longleftrightarrow> (\<exists>h l nads. e_list_nads E h ns l = Inr nads \<and> x \<in> nad_name ` set nads)"

definition gained :: "environment \<Rightarrow> (key \<rightharpoonup> nad) \<Rightarrow> string \<Rightarrow> history \<Rightarrow> response flow \<Rightarrow> history \<Rightarrow> bool" where
  "gained E S ns h r h' \<longleftrightarrow> (\<forall>node x. marked S h ns node x \<longrightarrow> marked S h' ns node x) \<and>
     (\<forall>p. r = Val (Patched p) \<longrightarrow> distinct (pod_interfaces ns p) \<and>
        (\<forall>x\<in>set (pod_interfaces ns p). offered E ns x \<and> \<not> marked S h ns (pod_node p) x \<and> marked S h' ns (pod_node p) x))"

lemma gained_nothing:
  assumes "stored_nads S h' = stored_nads S h" "\<And>p. r = Val (Patched p) \<Longrightarrow> pod_interfaces ns p = []"
  shows "gained E S ns h r h'"
  using assms by (simp add: gained_def marked_def)

lemma gained_nothing_simps:
  assumes "stored_nads S h' = stored_nads S h"
  shows "gained E S ns h Panic h'" "gained E S ns h Hang h'" "gained E S ns h (Val (Allowed m)) h'" "gained E S ns h (Val (Errored c e)) h'"
  by (rule gained_nothing [OF assms]; simp)+

lemma pod_interfaces_set:
  assumes "set_annotation MULTUS_ANNOTATION_KEY (MultusAnnotationToString ms) p = Val p'" "\<forall>m\<in>set ms. list_all unescaped (na_name m)"
  shows "pod_interfaces ns p' = map na_name ms" "pod_node p' = pod_node p"
  using assms by (simp_all add: pod_interfaces_def annotation_set [OF assms(1)] ExtractNetworks_def decode_multus Let_def comp_def
      clean_annotation_def sanitize_unescaped set_annotation_node)

lemma attach_networks_gained:
  assumes E: "serves_nads E S" and g: "stored_nads S g = stored_nads S h" and p: "pod_annotation p MULTUS_ANNOTATION_KEY = None"
  shows "wp (attach_networks E \<lparr>pa_namespace = ns\<rparr> p annot) (gained E S ns h) g"
proof -
  let ?l = "nad_label (pod_node p)"
  obtain annots where x: "ExtractNetworks annot ns = Inr annots"
    using ExtractNetworks_total by blast
  have err: "wp (glift (patchErrorPod p msg)) (gained E S ns h) h1" if "stored_nads S h1 = stored_nads S h" for msg h1
  proof -
    have "pod_interfaces ns p' = []" if "patchErrorPod p msg = Val (Patched p')" for p'
      using that p keys_differ by (auto simp: patchErrorPod_def pod_interfaces_def split: flow.splits
          dest: annotation_set [where k' = MULTUS_ANNOTATION_KEY])
    then show ?thesis using that by (auto simp: wp_glift intro!: gained_nothing)
  qed
  have loop: "wp (gbind (gloop (annotate_network E ns ?l (om_name (pod_meta p)) nads) (enumerate 0 annots) (nets, []))
      (\<lambda>r. case r of Inl resp \<Rightarrow> ret resp
         | Inr (_, ms) \<Rightarrow> gbind (glift (set_annotation MULTUS_ANNOTATION_KEY (MultusAnnotationToString ms) p))
             (\<lambda>p'. ret (Patched p')))) (gained E S ns h) (ListedNads ns ?l (Inr nads) # h1)"
    if l: "e_list_nads E h1 ns ?l = Inr nads" "length annots \<le> length nads" and h1: "stored_nads S h1 = stored_nads S h" for nads nets h1
    unfolding wp_gbind
  proof (rule wp_mono [OF listing_loop [OF E l]], goal_cases)
    case 1
    show ?case by (simp add: untouched)
  next
    case (2 r h2)
    have same: "marked S h1 = marked S h" by (simp add: marked_def h1 fun_eq_iff)
    have keep: "\<forall>node x. marked S h ns node x \<longrightarrow> marked S h2 ns node x" using 2 same by simp
    have fin: "gained E S ns h (Val (Patched p')) h2"
      if t: "taking S h1 ns (pod_node p) nads (length annots) ms h2"
        and p': "set_annotation MULTUS_ANNOTATION_KEY (MultusAnnotationToString ms) p = Val p'" for ms p'
    proof -
      have names: "map na_name ms = map nad_name (take (length annots) nads)" using t by (simp add: taking_def)
      have "\<forall>x\<in>set (map nad_name (take (length annots) nads)). list_all unescaped x"
        using serves_list(3) [OF E l(1)] by (auto dest: in_set_takeD)
      then have "\<forall>m\<in>set ms. list_all unescaped (na_name m)" unfolding names [symmetric] by simp
      note pi = pod_interfaces_set [OF p' this]
      have "\<not> marked S h1 ns (pod_node p) (nad_name n)" if "n \<in> set nads" for n
        using serves_list(4,5) [OF E l(1)] that by (auto simp: marked_def)
      moreover have "offered E ns (nad_name n)" if "n \<in> set nads" for n
        using l(1) that unfolding offered_def by blast
      moreover have "distinct (map nad_name (take (length annots) nads))"
        using serves_list(1) [OF E l(1)] by (metis distinct_take take_map)
      moreover have "\<forall>n\<in>set (take (length annots) nads). marked S h2 ns (pod_node p) (nad_name n)" using t by (simp add: taking_def)
      ultimately show ?thesis
        using keep by (auto simp: gained_def pi names same [symmetric] dest: in_set_takeD)
    qed
    show ?case
    proof (cases r)
      case (Val v)
      with 2 obtain nets' ms where v: "v = Inr (nets', ms)" and t: "taking S h1 ns (pod_node p) nads (length annots) ms h2" by blast
      show ?thesis unfolding Val v flow.case sum.case prod.case
        using keep fin [OF t] by (auto simp: wp_simps gained_def [of _ _ _ _ Panic] gained_def [of _ _ _ _ Hang] split: flow.split)
    qed (use keep in \<open>simp_all add: gained_def\<close>)
  qed
  have list: "wp (gbind (GetFreeNetAttachDefs E ns ?l) (\<lambda>nads. if length nads < length annots
        then glift (patchErrorPod p (''No interfaces available for node '' @ pod_node p))
        else gbind (gloop (annotate_network E ns ?l (om_name (pod_meta p)) nads) (enumerate 0 annots) (nets, []))
          (\<lambda>r. case r of Inl resp \<Rightarrow> ret resp
             | Inr (_, ms) \<Rightarrow> gbind (glift (set_annotation MULTUS_ANNOTATION_KEY (MultusAnnotationToString ms) p))
                 (\<lambda>p'. ret (Patched p'))))) (gained E S ns h) h1"
    if h1: "stored_nads S h1 = stored_nads S h" for nets h1
  proof (cases "e_valid_label_key E ?l")
    case True
    have e: "stored_nads S (ListedNads ns ?l r # h1) = stored_nads S h" for r using h1 by (simp add: untouched)
    show ?thesis
    proof (cases "e_list_nads E h1 ns ?l")
      case (Inl err1)
      have no_names: "pod_interfaces ns p' = []" if "set_annotation MULTUS_ANNOTATION_KEY (MultusAnnotationToString []) p = Val p'" for p'
        using pod_interfaces_set(1) [OF that] by simp
      have "wp (gbind (glift (set_annotation MULTUS_ANNOTATION_KEY (MultusAnnotationToString []) p)) (\<lambda>p'. ret (Patched p')))
          (gained E S ns h) (ListedNads ns ?l (Inl err1) # h1)"
      proof (cases "set_annotation MULTUS_ANNOTATION_KEY (MultusAnnotationToString []) p")
        case (Val p')
        have "gained E S ns h (Val (Patched p')) (ListedNads ns ?l (Inl err1) # h1)"
          by (rule gained_nothing [OF e]) (use no_names [OF Val] in simp)
        then show ?thesis using Val by (simp add: wp_simps)
      qed (use gained_nothing_simps [OF e] in \<open>simp_all add: wp_simps\<close>)
      then show ?thesis unfolding wp_gbind [of "GetFreeNetAttachDefs _ _ _"] wp_GetFreeNetAttachDefs
        using True Inl err [OF e] by (auto simp: wp_gbind [of "gloop _ _ _"] wp_ret)
    next
      case (Inr nads)
      show ?thesis unfolding wp_gbind [of "GetFreeNetAttachDefs _ _ _"] wp_GetFreeNetAttachDefs
        using True Inr err [OF e] loop [OF Inr _ h1] by (simp split del: sum.split)
    qed
  qed (use h1 in \<open>simp add: wp_gbind [of "GetFreeNetAttachDefs _ _ _"] wp_GetFreeNetAttachDefs gained_nothing_simps\<close>)
  show ?thesis unfolding attach_networks_def Let_def x sum.case pod_annotator.simps wp_gbind [of "GetL2NetworksMap _ _"] wp_GetL2NetworksMap flow.case
    using list g by (auto simp: untouched split: prod.split)
qed

lemma emits_select_node: "emits (\<lambda>e. \<not> touches_nads e) (select_node E p)"
  unfolding select_node_def by (intro emits_intros) (simp_all add: touches_nads_def)

lemma Handle_gained:
  assumes E: "serves_nads E S"
  shows "wp (Handle E \<lparr>pa_namespace = ns\<rparr> req) (gained E S ns h) h"
proof (cases req)
  case (Inr p)
  have att: "wp (attach_networks E \<lparr>pa_namespace = ns\<rparr> p annot) (gained E S ns h) g"
    if "stored_nads S g = stored_nads S h" "pod_annotation p MULTUS_ANNOTATION_KEY = None" for p annot g
    by (rule attach_networks_gained [OF E that])
  note none = gained_nothing_simps [where ns = ns]
  have "wp (if om_deleted (pod_meta p) then ret (Allowed m) else gbind (select_node E p) (\<lambda>r. case r of
            Inl resp \<Rightarrow> ret resp
          | Inr p \<Rightarrow>
              if pod_annotation p ERROR_ANNOTATION \<noteq> None then ret (Allowed m1)
              else (case pod_annotation p L2SM_NETWORK_ANNOTATION of
                None \<Rightarrow> ret (Allowed m2)
              | Some annot \<Rightarrow>
                  if pod_annotation p MULTUS_ANNOTATION_KEY \<noteq> None then ret (Allowed m3)
                  else attach_networks E \<lparr>pa_namespace = ns\<rparr> p annot))) (gained E S ns h) h" for m m1 m2 m3
  proof (cases "om_deleted (pod_meta p)")
    case False
    have "wp (select_node E p) (\<lambda>r w'. case r of
        Val a \<Rightarrow> wp (case a of Inl x \<Rightarrow> ret x | Inr p \<Rightarrow>
            if pod_annotation p ERROR_ANNOTATION \<noteq> None then ret (Allowed m1)
            else (case pod_annotation p L2SM_NETWORK_ANNOTATION of
              None \<Rightarrow> ret (Allowed m2)
            | Some annot \<Rightarrow>
                if pod_annotation p MULTUS_ANNOTATION_KEY \<noteq> None then ret (Allowed m3)
                else attach_networks E \<lparr>pa_namespace = ns\<rparr> p annot)) (gained E S ns h) w'
      | Panic \<Rightarrow> gained E S ns h Panic w' | Hang \<Rightarrow> gained E S ns h Hang w') h"
    proof (rule wp_mono [OF wp_conj [OF select_node_pod [where p = p] wp_untouched [OF emits_select_node, where S = S]]], goal_cases)
      case (1 r g)
      then have g: "stored_nads S g = stored_nads S h" by simp
      show ?case
      proof (cases r)
        case (Val v)
        then show ?thesis
        proof (cases v)
          case (Inl resp)
          then show ?thesis using 1 Val none [OF g] by (auto simp: wp_ret)
        next
          case (Inr p1)
          then show ?thesis using Val none [OF g] att [OF g] by (auto simp: wp_ret split: option.split)
        qed
      qed (use none [OF g] in simp_all)
    qed
    then show ?thesis unfolding wp_if wp_gbind [of "select_node _ _"] using False by simp
  qed (simp add: wp_ret none)
  then show ?thesis by (simp add: Handle_def Inr)
qed (simp add: Handle_def wp_ret gained_nothing_simps)

text \<open>What the pod controller does: only the marks of the deleted pod's interfaces can go.\<close>

definition kept :: "(key \<rightharpoonup> nad) \<Rightarrow> string \<Rightarrow> string \<Rightarrow> string set \<Rightarrow> history \<Rightarrow> history \<Rightarrow> bool" where
  "kept S ns node names h h' \<longleftrightarrow> (\<forall>node' x. marked S h ns node' x \<longrightarrow> node' = node \<and> x \<in> names \<or> marked S h' ns node' x)"

lemma kept_same: "stored_nads S h' = stored_nads S h \<Longrightarrow> kept S ns node names h h'"
  by (simp add: kept_def marked_def)

lemma kept_mono: "kept S ns node names h h' \<Longrightarrow> names \<subseteq> names' \<Longrightarrow> kept S ns node names' h h'"
  unfolding kept_def by blast

lemma kept_trans: "kept S ns node names h h1 \<Longrightarrow> kept S ns node names h1 h2 \<Longrightarrow> kept S ns node names h h2"
  unfolding kept_def by blast

lemma release_kept:
  assumes E: "serves_nads E S"
  shows "wp (release_interface E (reconciler E s ns) node multus (i, n) u) (\<lambda>r h'. kept S ns node {na_name (multus ! i)} h h') h"
proof (cases "i < length multus")
  case True
  let ?m = "na_name (multus ! i)"
  show ?thesis
  proof (cases "GetPortNumberFromNetAttachDef ?m")
    case (Inl e)
    then show ?thesis using True by (simp add: release_interface_def nth_go_def wp_simps kept_same)
  next
    case (Inr k)
    have store: "kept S ns node {?m} h (UpdatedNad (set_nad_label_alloc (nad_label node) ''false'' d) y # GotNad (ns, ?m) (Inr d) # h1)"
      if h1: "stored_nads S h1 = stored_nads S h" and d: "e_get_nad E h1 (ns, ?m) = Inr d"
        and y: "e_update_nad E (GotNad (ns, ?m) (Inr d) # h1) (set_nad_label_alloc (nad_label node) ''false'' d) = y" for h1 d y
    proof -
      let ?d = "set_nad_label_alloc (nad_label node) ''false'' d" and ?h = "GotNad (ns, ?m) (Inr d) # h1"
      obtain n2 where n2: "y = Inr n2" "om_labels (nad_meta n2) = om_labels (nad_meta ?d)"
        using serves_update [OF E, of ?h ?d] y by auto
      obtain f where f: "om_labels (nad_meta ?d) = Some f" "\<forall>l. l \<noteq> nad_label node \<longrightarrow> f l = map_get (om_labels (nad_meta d)) l"
        by (cases "om_labels (nad_meta d)") (auto simp: set_nad_label_alloc_def map_put_alloc_def map_get_def)
      have key: "nad_key d = (ns, ?m)" "stored_nads S ?h (ns, ?m) = Some d" "nad_key ?d = (ns, ?m)"
        using serves_get [OF E d] by (simp_all add: untouched nad_key_def set_nad_label_alloc_def)
      show ?thesis using updated_mark [OF key(1,2), of n2 f node ?d] n2 f key(3) h1
        by (auto simp: kept_def marked_same [of S ?h h] untouched)
    qed
    have tail: "wp (gbind (get_nad E (ns, ?m)) (\<lambda>got. case got of
               Inl e \<Rightarrow> if is_not_found e then ret (Inr ()) else ret (Inl None)
             | Inr netAttachDef \<Rightarrow>
                 gbind (update_nad E (set_nad_label_alloc (nad_label node) ''false'' netAttachDef)) (\<lambda>x. case x of
                   Inl e \<Rightarrow> ret (Inl None)
                 | Inr _ \<Rightarrow> ret (Inr ())))) (\<lambda>r h'. kept S ns node {?m} h h') h1"
      if "stored_nads S h1 = stored_nads S h" for h1
      using that by (auto simp: wp_simps kept_same untouched split: sum.split intro!: store [OF that])
    have quiet: "emits (\<lambda>e. \<not> touches_nads e) (cl_detach (InternalClient E s) t q)" for t q
      by (rule internal.detach.op_emits) (simp add: sent_def)
    show ?thesis using True Inr
      by (auto simp: release_interface_def nth_go_def wp_gbind [of "glift _"] wp_glift wp_gbind [of "cl_detach _ _ _"]
          intro!: wp_mono [OF wp_untouched [OF quiet, where S = S]] kept_same tail split: flow.split)
  qed
qed (simp add: release_interface_def nth_go_def wp_simps kept_same)

lemma delete_pod_kept:
  assumes E: "serves_nads E S"
  shows "wp (delete_pod E (reconciler E s ns) q) (\<lambda>r h'. kept S ns (pod_node q) (set (pod_interfaces ns q)) h h') h"
proof (cases "l2smFinalizer \<in> set (om_finalizers (pod_meta q)) \<and> has_annotation q MULTUS_ANNOTATION_KEY")
  case True
  then obtain v where v: "pod_annotation q MULTUS_ANNOTATION_KEY = Some v" by (auto simp: has_annotation_def pod_annotation_def)
  obtain annots multus where x: "ExtractNetworks (annotation_of q L2SM_NETWORK_ANNOTATION) ns = Inr annots" "ExtractNetworks v ns = Inr multus"
    using ExtractNetworks_total by blast
  have names: "set (pod_interfaces ns q) = na_name ` set multus" using v x(2) by (simp add: pod_interfaces_def)
  have annot: "annotation_of q MULTUS_ANNOTATION_KEY = v" using v by (simp add: annotation_of_def pod_annotation_def)
  let ?K = "\<lambda>h'. kept S ns (pod_node q) (na_name ` set multus) h h'"
  have loop: "wp (gloop (release_interface E (reconciler E s ns) (pod_node q) multus) (enumerate 0 annots) ()) (\<lambda>r h'. ?K h') h"
    if "length multus = length annots"
  proof (rule wp_gloop [where I = "\<lambda>ds st. ?K"], goal_cases)
    case (1 ds x st w)
    then obtain es where es: "enumerate 0 annots = ds @ x # es" by blast
    obtain i n where i: "x = (i, n)" by (cases x)
    have "(i, n) \<in> set (enumerate 0 annots)" unfolding es i by simp
    then have "i < length multus" using that by (auto simp: in_set_enumerate_eq)
    then have "{na_name (multus ! i)} \<subseteq> na_name ` set multus" by simp
    then have step: "?K w'" if "kept S ns (pod_node q) {na_name (multus ! i)} w w'" for w'
      using 1 that by (blast intro: kept_trans kept_mono)
    show ?case unfolding i
      by (rule wp_mono [OF release_kept [OF E]]) (use step in \<open>auto split: flow.split sum.split\<close>)
  qed (simp_all add: kept_same)
  have last: "kept S ns (pod_node q) (na_name ` set multus) h (UpdatedPod p r # w)" if "?K w" for p r w
    by (rule kept_trans [OF that]) (simp add: kept_same untouched)
  show ?thesis unfolding names
    using True x annot
    by (auto simp: delete_pod_def Let_def wp_gbind [of "gloop _ _ _"] wp_simps kept_same
        intro!: wp_mono [OF loop] last split: flow.split sum.split)
qed (auto simp: delete_pod_def Let_def wp_simps kept_same split: sum.split)

lemma emits_attach_pod: "emits (\<lambda>e. \<not> touches_nads e) (attach_pod E (reconciler E s ns) q)"
  unfolding attach_pod_def attach_pod_networks_def attach_network_def CreateDNSEntry_def AddDNSEntry_def dns_add_def Let_def pod_reconciler.simps
    CreateErrorEvent_def GetL2Networks_def
  by (intro emits_intros internal.attach.op_emits emits_call) (simp_all add: touches_nads_def sent_def)

lemma emits_error_event: "emits (\<lambda>e. \<not> touches_nads e) (CreateErrorEvent E p m re)"
  unfolding CreateErrorEvent_def Let_def by (intro emits_intros) (simp_all add: touches_nads_def)

lemma Reconcile_kept:
  assumes E: "serves_nads E S"
  shows "wp (PodController.Reconcile E (reconciler E s ns) k) (\<lambda>r h'. stored_nads S h' = stored_nads S h \<or>
      (\<exists>q. e_get_pod E h k = Inr q \<and> om_deleted (pod_meta q) \<and> kept S ns (pod_node q) (set (pod_interfaces ns q)) h h')) h"
proof (cases "e_get_pod E h k")
  case (Inr q)
  let ?h = "GotPod k (Inr q) # h"
  have g: "stored_nads S ?h = stored_nads S h" by (simp add: untouched)
  have ev: "wp (CreateErrorEvent E p m re) (\<lambda>r h'. stored_nads S h' = stored_nads S h) ?h" for p m re
    by (rule wp_mono [OF wp_untouched [OF emits_error_event, where S = S]]) (simp only: g)
  have att: "wp (attach_pod E (reconciler E s ns) q) (\<lambda>r h'. stored_nads S h' = stored_nads S h) ?h"
    by (rule wp_mono [OF wp_untouched [OF emits_attach_pod, where S = S]]) (simp only: g)
  have del: "wp (delete_pod E (reconciler E s ns) q) (\<lambda>r h'. kept S ns (pod_node q) (set (pod_interfaces ns q)) h h') ?h"
    by (rule wp_mono [OF delete_pod_kept [OF E]]) (rule kept_trans [OF kept_same [OF g]])
  show ?thesis using Inr
    by (auto simp: PodController.Reconcile_def wp_simps wp_gbind [of "CreateErrorEvent _ _ _ _"] untouched
        intro!: wp_mono [OF att] wp_mono [OF del] wp_mono [OF ev] split: flow.split)
qed (simp add: PodController.Reconcile_def wp_simps untouched)

section \<open>No interface is given twice\<close>

definition apart :: "string \<Rightarrow> pod \<Rightarrow> pod \<Rightarrow> bool" where
  "apart ns p q \<longleftrightarrow> pod_node p = pod_node q \<longrightarrow> set (pod_interfaces ns p) \<inter> set (pod_interfaces ns q) = {}"

lemma apart_remove1: "sorted_wrt (apart ns) ps \<Longrightarrow> p \<in> set ps \<Longrightarrow> sorted_wrt (apart ns) (remove1 p ps) \<and> (\<forall>q\<in>set (remove1 p ps). apart ns q p)"
proof (induction ps)
  case (Cons a ps)
  then show ?case using set_remove1_subset [of p ps] by (auto simp: apart_def)
qed simp

definition run_ok :: "string \<Rightarrow> (key \<rightharpoonup> nad) \<Rightarrow> pod list \<Rightarrow> history \<Rightarrow> bool" where
  "run_ok ns S ps h \<longleftrightarrow> sorted_wrt (apart ns) ps \<and>
     (\<forall>p\<in>set ps. distinct (pod_interfaces ns p) \<and> (\<forall>x\<in>set (pod_interfaces ns p). marked S h ns (pod_node p) x))"

lemma interface_run_ok:
  assumes E: "serves_nads E S"
  shows "interface_run E s ns S ps h \<Longrightarrow> run_ok ns S ps h"
proof (induction rule: interface_run.induct)
  case (admit ps h req r h')
  have g: "gained E S ns h r h'" by (rule wpD [OF Handle_gained [OF E] admit.hyps(2)])
  show ?case
  proof (cases "\<exists>p. r = Val (Patched p)")
    case True
    then show ?thesis using g admit.IH by (fastforce simp: run_ok_def gained_def apart_def)
  next
    case False
    then show ?thesis using g admit.IH by (auto simp: run_ok_def gained_def split: flow.splits response.splits)
  qed
next
  case (reconcile ps h k x h')
  then show ?case using wpD [OF Reconcile_kept [OF E] reconcile.hyps(3)] by (auto simp: run_ok_def marked_def)
next
  case (delete ps h k q p x h')
  have same: "pod_interfaces ns q = pod_interfaces ns p" by (simp add: pod_interfaces_def delete.hyps)
  from wpD [OF Reconcile_kept [OF E] delete.hyps(6)] delete.hyps(2) have "kept S ns (pod_node p) (set (pod_interfaces ns p)) h h'"
    by (auto simp: kept_same same delete.hyps)
  moreover have "\<forall>q\<in>set (remove1 p ps). apart ns q p" "sorted_wrt (apart ns) (remove1 p ps)"
    using apart_remove1 delete by (auto simp: run_ok_def)
  ultimately show ?case using delete.IH set_remove1_subset [of p ps]
    by (fastforce simp: run_ok_def kept_def apart_def)
next
  case (annotate ps h p' p)
  have same: "pod_interfaces ns p' = pod_interfaces ns p" "pod_node p' = pod_node p" using annotate.hyps by (simp_all add: pod_interfaces_def)
  then have "apart ns (if a = p then p' else a) (if b = p then p' else b) = apart ns a b" for a b by (simp add: apart_def)
  then show ?case using annotate.IH same by (auto simp: run_ok_def sorted_wrt_map)
next
  case (other ps h e)
  then show ?case by (auto simp: run_ok_def)
qed (simp add: run_ok_def)

text \<open>
  C2. No interface is given twice. Let the API server keep what it is sent and answer from it. In every
  run of the webhook and the pod controller, interleaved in any order, with any requests,
  refusals of the SDN controller and events of others that leave the marks of these pods, in which a deleted pod is
  reconciled once: two pods that
  were admitted and not deleted and are on one node have no interface in common, none has one
  twice, and all of them are still marked.
\<close>

theorem interfaces_exclusive:
  assumes "serves_nads E S" "interface_run E s ns S ps h"
    and "i < j" "j < length ps" "pod_node (ps ! i) = pod_node (ps ! j)"
  shows "set (pod_interfaces ns (ps ! i)) \<inter> set (pod_interfaces ns (ps ! j)) = {} \<and> distinct (pod_interfaces ns (ps ! i)) \<and>
    (\<forall>x\<in>set (pod_interfaces ns (ps ! i)). marked S h ns (pod_node (ps ! i)) x)"
proof -
  have "run_ok ns S ps h" by (rule interface_run_ok [OF assms(1,2)])
  moreover have "ps ! i \<in> set ps" using assms(3,4) by simp
  moreover have "apart ns (ps ! i) (ps ! j)"
    using calculation(1) assms(3,4) by (auto simp: run_ok_def intro: sorted_wrt_nth_less)
  ultimately show ?thesis using assms(5) unfolding run_ok_def apart_def by blast
qed

text \<open>An API server with two definitions.\<close>

definition two_nads :: "key \<rightharpoonup> nad" where
  "two_nads = [(''l2sm'', ''ov-veth1'') \<mapsto> free_nad,
     (''l2sm'', ''ov-veth2'') \<mapsto> free_nad\<lparr>nad_meta := (nad_meta free_nad)\<lparr>om_name := ''ov-veth2''\<rparr>\<rparr>]"

definition listed_two :: "history \<Rightarrow> string \<Rightarrow> string \<Rightarrow> nad list" where
  "listed_two h ns label = List.map_filter (\<lambda>k. case stored_nads two_nads h k of
       Some n \<Rightarrow> if fst k = ns \<and> nad_key n = k \<and> map_get (om_labels (nad_meta n)) label \<noteq> Some ''true'' then Some n else None
     | None \<Rightarrow> None) [(''l2sm'', ''ov-veth1''), (''l2sm'', ''ov-veth2'')]"

definition two_env :: environment where
  "two_env = quiet_env\<lparr>e_list_nads := \<lambda>h ns label. Inr (listed_two h ns label),
     e_get_nad := \<lambda>h k. (case stored_nads two_nads h k of
       Some n \<Rightarrow> if nad_key n = k then Inr n else Inl (ApiError True []) | None \<Rightarrow> Inl (ApiError True []))\<rparr>"

lemma two_env_simps:
  "e_list_nads two_env h ns label = Inr (listed_two h ns label)" "e_update_nad two_env h n = Inr n" "e_list_nets two_env h q = Inr []"
  "e_update_net_status two_env h net = Inr net" "e_rand64 two_env h = 0" "e_valid_label_key two_env key"
  by (simp_all add: two_env_def quiet_env_def)

lemma two_env_serves: "serves_nads two_env two_nads"
  unfolding serves_nads_def two_env_simps
proof (intro conjI allI impI, goal_cases)
  case (1 h ns label nads)
  then have nads: "nads = listed_two h ns label" by simp
  show ?case unfolding nads listed_two_def
    by (auto simp: List.map_filter_def nad_key_def split: option.splits)
next
  case (2 h ns label nads)
  then have nads: "nads = listed_two h ns label" by simp
  show ?case unfolding nads listed_two_def
    by (auto simp: List.map_filter_def nad_key_def unescaped_def split: option.splits)
next
  case (3 h k n)
  then show ?case by (auto simp: two_env_def split: option.splits if_splits)
next
  case (4 h k n)
  then show ?case by (auto simp: two_env_def split: option.splits if_splits)
qed simp

lemma two_env_admits:
  assumes "listed_two (ListedNets None (Inr []) # h) ''l2sm'' ''used-n1'' = n # ns" "list_all unescaped (nad_name n)" "om_labels (nad_meta n) = Some f"
  shows "\<exists>p net. Handle two_env \<lparr>pa_namespace = ''l2sm''\<rparr> (Inr sample_pod) h = (Val (Patched p), [UpdatedNetStatus net (Inr net),
      UpdatedNad (n\<lparr>nad_meta := (nad_meta n)\<lparr>om_labels := Some (f(''used-n1'' \<mapsto> ''true''))\<rparr>\<rparr>)
        (Inr (n\<lparr>nad_meta := (nad_meta n)\<lparr>om_labels := Some (f(''used-n1'' \<mapsto> ''true''))\<rparr>\<rparr>)), Rand64 0,
      ListedNads ''l2sm'' ''used-n1'' (Inr (n # ns)), ListedNets None (Inr [])] @ h) \<and>
    pod_node p = ''n1'' \<and> pod_interfaces ''l2sm'' p = [nad_name n]"
proof -
  have keys: "L2SM_NETWORK_ANNOTATION \<noteq> ERROR_ANNOTATION" "L2SM_NETWORK_ANNOTATION \<noteq> MULTUS_ANNOTATION_KEY"
    by (simp_all add: L2SM_NETWORK_ANNOTATION_def ERROR_ANNOTATION_def MULTUS_ANNOTATION_KEY_def)
  have label: "nad_label ''n1'' = ''used-n1''" by (simp add: nad_label_def NET_ATTACH_LABEL_PREFIX_def)
  let ?m = "GenerateIPv6Address 0 (new_annotation\<lparr>na_name := nad_name n, na_namespace := ''l2sm''\<rparr>)"
  obtain p where p: "set_annotation MULTUS_ANNOTATION_KEY (MultusAnnotationToString [?m]) sample_pod = Val p"
    by (simp add: set_annotation_def sample_pod_def)
  have "na_name ?m = nad_name n" by (simp add: GenerateIPv6Address_def Let_def)
  then have pi: "pod_interfaces ''l2sm'' p = [nad_name n]" "pod_node p = ''n1''"
    using pod_interfaces_set [OF p] assms(2) by (simp_all add: sample_pod_def)
  have "\<exists>net. Handle two_env \<lparr>pa_namespace = ''l2sm''\<rparr> (Inr sample_pod) h = (Val (Patched p), [UpdatedNetStatus net (Inr net),
      UpdatedNad (n\<lparr>nad_meta := (nad_meta n)\<lparr>om_labels := Some (f(''used-n1'' \<mapsto> ''true''))\<rparr>\<rparr>)
        (Inr (n\<lparr>nad_meta := (nad_meta n)\<lparr>om_labels := Some (f(''used-n1'' \<mapsto> ''true''))\<rparr>\<rparr>)), Rand64 0,
      ListedNads ''l2sm'' ''used-n1'' (Inr (n # ns)), ListedNets None (Inr [])] @ h)"
    using keys p assms(1,3)
    by (simp add: Handle_def select_node_def attach_networks_def Let_def sample_pod_def pod_annotation_def new_meta_def extract_net label
        GetL2NetworksMap_def GetFreeNetAttachDefs_def list_nets_def list_nads_def call_def gbind_def ret_def two_env_simps
        existing_networks_def enumerate_eq_zip annotate_network_def nth_go_def assign_address_def zero_network_def
        interface_address_def rand64_def store_assignment_def set_nad_label_def update_nad_def update_net_status_def
        glift_def new_annotation_def)
  then show ?thesis using pi by blast
qed

theorem interfaces_exclusive_witness:
  "\<exists>p1 p2 h. interface_run two_env ping_session ''l2sm'' two_nads [p2, p1] h \<and> pod_node p1 = pod_node p2 \<and>
    pod_interfaces ''l2sm'' p1 = [''ov-veth1''] \<and> pod_interfaces ''l2sm'' p2 = [''ov-veth2''] \<and>
    set (pod_interfaces ''l2sm'' p2) \<inter> set (pod_interfaces ''l2sm'' p1) = {}"
proof -
  let ?n2 = "free_nad\<lparr>nad_meta := (nad_meta free_nad)\<lparr>om_name := ''ov-veth2''\<rparr>\<rparr>"
  have nads: "om_labels (nad_meta free_nad) = Some Map.empty" "nad_key free_nad = (''l2sm'', ''ov-veth1'')"
    "nad_name free_nad = ''ov-veth1''" "om_namespace (nad_meta free_nad) = ''l2sm''"
    by (simp_all add: free_nad_def new_meta_def nad_key_def)
  have l1: "listed_two (ListedNets None (Inr []) # []) ''l2sm'' ''used-n1'' = free_nad # [?n2]"
    using nads by (simp add: listed_two_def List.map_filter_def untouched two_nads_def nad_key_def map_get_def)
  obtain p1 net1 where 1: "Handle two_env \<lparr>pa_namespace = ''l2sm''\<rparr> (Inr sample_pod) [] = (Val (Patched p1), [UpdatedNetStatus net1 (Inr net1),
      UpdatedNad (free_nad\<lparr>nad_meta := (nad_meta free_nad)\<lparr>om_labels := Some [''used-n1'' \<mapsto> ''true'']\<rparr>\<rparr>)
        (Inr (free_nad\<lparr>nad_meta := (nad_meta free_nad)\<lparr>om_labels := Some [''used-n1'' \<mapsto> ''true'']\<rparr>\<rparr>)), Rand64 0,
      ListedNads ''l2sm'' ''used-n1'' (Inr (free_nad # [?n2])), ListedNets None (Inr [])] @ [])"
    and p1: "pod_node p1 = ''n1''" "pod_interfaces ''l2sm'' p1 = [''ov-veth1'']"
    using two_env_admits [OF l1, of Map.empty] nads by (auto simp: unescaped_def)
  obtain h1 where h1: "Handle two_env \<lparr>pa_namespace = ''l2sm''\<rparr> (Inr sample_pod) [] = (Val (Patched p1), h1)"
    and l2: "listed_two (ListedNets None (Inr []) # h1) ''l2sm'' ''used-n1'' = ?n2 # []"
    using 1 nads by (simp add: listed_two_def List.map_filter_def nad_effect_def two_nads_def nad_key_def map_get_def)
  obtain p2 h2 where 2: "Handle two_env \<lparr>pa_namespace = ''l2sm''\<rparr> (Inr sample_pod) h1 = (Val (Patched p2), h2)"
    and p2: "pod_node p2 = ''n1''" "pod_interfaces ''l2sm'' p2 = [''ov-veth2'']"
    using two_env_admits [OF l2, of Map.empty] nads by (auto simp: unescaped_def)
  have "interface_run two_env ping_session ''l2sm'' two_nads [p2, p1] h2"
    using interface_run.admit [OF interface_run.admit [OF interface_run.start h1] 2, of ping_session two_nads] by simp
  moreover have "set (pod_interfaces ''l2sm'' p2) \<inter> set (pod_interfaces ''l2sm'' p1) = {}"
    using interfaces_exclusive [OF two_env_serves calculation, of 0 1] p1 p2 by simp
  ultimately show ?thesis using p1 p2 by (intro exI [of _ p1] exI [of _ p2] exI [of _ h2]) simp
qed

section \<open>A stale listing\<close>

text \<open>
  C17. The marks protect nothing when the listing is old. The webhook ignores the reply to the
  update that marks a definition, and the manager's client reads from a cache: when two
  pods of a node, which ask for at least one network each, were admitted with interfaces on the same listing, both were given the definitions from its
  beginning, as many as networks asked for; so both have the first one of the list. Each time the
  update that marks it was sent, and nothing depends on the replies to these updates, which may all be refusals.
\<close>

theorem webhook_stale_listing:
  assumes admitted: "Handle E \<lparr>pa_namespace = ns\<rparr> (Inr p1) h1 = (Val (Patched q1), g1)" "Handle E \<lparr>pa_namespace = ns\<rparr> (Inr p2) h2 = (Val (Patched q2), g2)"
    and node: "pod_node p1 = node" "pod_node p2 = node" "node \<noteq> []"
    and asked: "pod_annotation p1 L2SM_NETWORK_ANNOTATION = Some v1" "ExtractNetworks v1 ns = Inr annots1" "annots1 \<noteq> []"
      "pod_annotation p2 L2SM_NETWORK_ANNOTATION = Some v2" "ExtractNetworks v2 ns = Inr annots2" "annots2 \<noteq> []"
    and given: "pod_annotation q1 MULTUS_ANNOTATION_KEY \<noteq> None" "pod_annotation q2 MULTUS_ANNOTATION_KEY \<noteq> None"
    and listing: "\<forall>x. ListedNads ns (''used-'' @ node) (Inr x) \<in> set g1 \<union> set g2 \<longrightarrow> x = nads" "\<forall>n\<in>set nads. list_all unescaped (nad_name n)"
  shows "nads \<noteq> [] \<and>
    pod_interfaces ns q1 = map nad_name (take (length annots1) nads) \<and> length (pod_interfaces ns q1) = length annots1 \<and>
    pod_interfaces ns q2 = map nad_name (take (length annots2) nads) \<and> length (pod_interfaces ns q2) = length annots2 \<and>
    nad_name (hd nads) \<in> set (pod_interfaces ns q1) \<inter> set (pod_interfaces ns q2) \<and>
    is_marked (''used-'' @ node) (hd nads) g1 \<and> is_marked (''used-'' @ node) (hd nads) g2"
proof -
  have "nads \<noteq> [] \<and> pod_interfaces ns q = map nad_name (take (length annots) nads) \<and> length annots \<le> length nads \<and> is_marked (''used-'' @ node) (hd nads) g"
    if a: "Handle E \<lparr>pa_namespace = ns\<rparr> (Inr p) h = (Val (Patched q), g)" and n: "pod_node p = node"
      and w: "pod_annotation p L2SM_NETWORK_ANNOTATION = Some v" "ExtractNetworks v ns = Inr annots" "annots \<noteq> []"
      and m: "pod_annotation q MULTUS_ANNOTATION_KEY \<noteq> None"
      and l: "\<forall>x. ListedNads ns (''used-'' @ node) (Inr x) \<in> set g \<longrightarrow> x = nads" for p h q g v annots
  proof -
    from Handle_annotated [OF a m] w(1) obtain node' where "pod_node p \<noteq> [] \<longrightarrow> node' = pod_node p"
      and "attached_pod \<lparr>pa_namespace = ns\<rparr> (p\<lparr>pod_node := node'\<rparr>) v q g" by auto
    then have at: "attached_pod \<lparr>pa_namespace = ns\<rparr> (p\<lparr>pod_node := node\<rparr>) v q g" using n node(3) by simp
    have label: "nad_label node = ''used-'' @ node" by (simp add: nad_label_def NET_ATTACH_LABEL_PREFIX_def)
    from at show ?thesis
    proof (rule attached_podE, goal_cases)
      case (1 as xs ms)
      have as: "as = annots" using 1(1) w(2) by simp
      then have ne: "xs \<noteq> []" using 1(3) w(3) by auto
      then have xs: "xs = nads" using 1(2) l label by metis
      have names: "map na_name ms = map nad_name (take (length annots) nads)" using 1(6) unfolding annotated_def as xs by simp
      have "\<forall>x\<in>set (map nad_name (take (length annots) nads)). list_all unescaped x"
        using listing(2) by (auto dest: in_set_takeD)
      then have "\<forall>m\<in>set ms. list_all unescaped (na_name m)" unfolding names [symmetric] by simp
      then have "pod_interfaces ns q = map na_name ms"
        using 1(4) by (simp add: pod_interfaces_def ExtractNetworks_def decode_multus Let_def comp_def clean_annotation_def sanitize_unescaped)
      moreover have "hd nads \<in> set (take (length annots) nads)" using ne w(3) unfolding xs by (cases nads; cases annots) auto
      then have "is_marked (nad_label node) (hd nads) g" using 1(6) unfolding annotated_def as xs by blast
      ultimately show ?case using names ne 1(3) unfolding as xs label by simp
    qed
  qed
  from this [OF admitted(1) node(1) asked(1-3) given(1)] this [OF admitted(2) node(2) asked(4-6) given(2)] listing(1)
  have r: "nads \<noteq> [] \<and> pod_interfaces ns q1 = map nad_name (take (length annots1) nads) \<and> length annots1 \<le> length nads \<and> is_marked (''used-'' @ node) (hd nads) g1"
    "nads \<noteq> [] \<and> pod_interfaces ns q2 = map nad_name (take (length annots2) nads) \<and> length annots2 \<le> length nads \<and> is_marked (''used-'' @ node) (hd nads) g2"
    by blast+
  moreover have "nad_name (hd nads) \<in> set (map nad_name (take (length annots) nads))" if "annots \<noteq> []" for annots :: "network_annotation list"
    using r(1) that by (cases nads; cases annots) auto
  ultimately show ?thesis using asked(3,6) by (metis IntI length_map length_take min.absorb2)
qed

text \<open>The listing is old and every update of a definition is refused.\<close>

definition stale_env :: environment where
  "stale_env = quiet_env\<lparr>e_list_nads := \<lambda>_ _ _. Inr [free_nad], e_update_nad := \<lambda>_ _. Inl (ApiError False [])\<rparr>"

theorem webhook_stale_listing_witness:
  "\<exists>q1 q2 g1 g2. Handle stale_env \<lparr>pa_namespace = ''l2sm''\<rparr> (Inr sample_pod) [] = (Val (Patched q1), g1) \<and>
    Handle stale_env \<lparr>pa_namespace = ''l2sm''\<rparr> (Inr sample_pod) g1 = (Val (Patched q2), g2) \<and>
    pod_interfaces ''l2sm'' q1 = [''ov-veth1''] \<and> pod_interfaces ''l2sm'' q2 = [''ov-veth1''] \<and> (\<exists>n e. UpdatedNad n (Inl e) \<in> set g2)"
proof -
  have keys: "L2SM_NETWORK_ANNOTATION \<noteq> ERROR_ANNOTATION" "L2SM_NETWORK_ANNOTATION \<noteq> MULTUS_ANNOTATION_KEY"
    by (simp_all add: L2SM_NETWORK_ANNOTATION_def ERROR_ANNOTATION_def MULTUS_ANNOTATION_KEY_def)
  have label: "nad_label ''n1'' = ''used-n1''" by (simp add: nad_label_def NET_ATTACH_LABEL_PREFIX_def)
  have env: "e_list_nads stale_env h x y = Inr [free_nad]" "e_update_nad stale_env h n = Inl (ApiError False [])" "e_list_nets stale_env h z = Inr []"
    "e_update_net_status stale_env h net = Inr net" "e_rand64 stale_env h = 0" "e_valid_label_key stale_env key" for h x y n z net key
    by (simp_all add: stale_env_def quiet_env_def)
  let ?m = "GenerateIPv6Address 0 (new_annotation\<lparr>na_name := ''ov-veth1'', na_namespace := ''l2sm''\<rparr>)"
  obtain q where q: "set_annotation MULTUS_ANNOTATION_KEY (MultusAnnotationToString [?m]) sample_pod = Val q"
    by (simp add: set_annotation_def sample_pod_def)
  have "na_name ?m = ''ov-veth1''" by (simp add: GenerateIPv6Address_def Let_def)
  then have names: "pod_interfaces ''l2sm'' q = [''ov-veth1'']" using pod_interfaces_set [OF q] by (simp add: unescaped_def)
  have run: "\<exists>es. Handle stale_env \<lparr>pa_namespace = ''l2sm''\<rparr> (Inr sample_pod) h = (Val (Patched q), es @ h) \<and>
      (\<forall>x. ListedNads ''l2sm'' ''used-n1'' (Inr x) \<in> set es \<longrightarrow> x = [free_nad]) \<and> (\<forall>n y. UpdatedNad n (Inr y) \<notin> set es)" for h
    using keys q
    by (simp add: Handle_def select_node_def attach_networks_def Let_def sample_pod_def pod_annotation_def new_meta_def extract_net label
        GetL2NetworksMap_def GetFreeNetAttachDefs_def list_nets_def list_nads_def call_def gbind_def ret_def env
        existing_networks_def enumerate_eq_zip annotate_network_def nth_go_def assign_address_def zero_network_def
        interface_address_def rand64_def store_assignment_def set_nad_label_def update_nad_def update_net_status_def free_nad_def
        glift_def new_annotation_def)
  obtain g1 where 1: "Handle stale_env \<lparr>pa_namespace = ''l2sm''\<rparr> (Inr sample_pod) [] = (Val (Patched q), g1)"
    "\<forall>x. ListedNads ''l2sm'' ''used-n1'' (Inr x) \<in> set g1 \<longrightarrow> x = [free_nad]" "\<forall>n y. UpdatedNad n (Inr y) \<notin> set g1" using run [of "[]"] by auto
  obtain g2 where 2: "Handle stale_env \<lparr>pa_namespace = ''l2sm''\<rparr> (Inr sample_pod) g1 = (Val (Patched q), g2)"
    "\<forall>x. ListedNads ''l2sm'' ''used-n1'' (Inr x) \<in> set g2 \<longrightarrow> x = [free_nad]" "\<forall>n y. UpdatedNad n (Inr y) \<notin> set g2" using run [of g1] 1(2,3) by auto
  have sp: "pod_annotation sample_pod L2SM_NETWORK_ANNOTATION = Some ''net''" "pod_node sample_pod = ''n1''"
    by (simp_all add: sample_pod_def pod_annotation_def new_meta_def L2SM_NETWORK_ANNOTATION_def)
  have "pod_annotation q MULTUS_ANNOTATION_KEY \<noteq> None" using annotation_set [OF q] by simp
  from webhook_stale_listing [OF 1(1) 2(1) sp(2) sp(2) _ sp(1) extract_net _ sp(1) extract_net _ this this, of "[free_nad]"] 1(2) 2(2)
  have "is_marked ''used-n1'' free_nad g2" by (auto simp: free_nad_def new_meta_def unescaped_def)
  then have "\<exists>n r. UpdatedNad n r \<in> set g2" unfolding is_marked_def by blast
  then have "\<exists>n e. UpdatedNad n (Inl e) \<in> set g2" using 2(3) by (metis sum.exhaust)
  then show ?thesis using 1(1) 2(1) names by blast
qed

end
