(* ===== verification/Pools.thy ===== *)
theory Pools
  imports PodWebhook Quarantine
begin

text \<open>
  The shape of a network's address pool: its keys and its last address are printed addresses, the
  form in which the search for a free address looks them up. The webhook and the
  quarantine controller both change pools.
\<close>

section \<open>Printed addresses\<close>

definition address_text :: "string \<Rightarrow> bool" where
  "address_text s \<longleftrightarrow> (\<exists>ip. length ip \<in> {4, 16} \<and> s = ip_string ip)"

lemma address_textI: "length ip = 4 \<or> length ip = 16 \<Longrightarrow> address_text (ip_string ip)"
  by (auto simp: address_text_def)

lemma hex_not_angle: "CHR ''<'' \<notin> set (hex n)"
  by (auto dest!: hex_digits) (simp add: is_hex_digit_def hex_val_def)

lemma dec_not_angle: "CHR ''<'' \<notin> set (dec n)"
  by (auto dest!: dec_digits) (simp add: is_dec_digit_def digit_val_def)

lemma nil_no_address: "\<not> address_text ''<nil>''"
proof
  assume "address_text ''<nil>''"
  then obtain ip where ip: "length ip \<in> {4, 16}" "ip_string ip = ''<nil>''" unfolding address_text_def by metis
  have j: "CHR ''<'' \<notin> set (join sep (map f xs))" if "CHR ''<'' \<notin> set sep" "\<And>x. CHR ''<'' \<notin> set (f x)" for sep f and xs :: "'a list"
    using set_join [of sep "map f xs"] that by auto
  have "CHR ''<'' \<notin> set (dotted b)" for b by (simp add: dotted_def j dec_not_angle)
  moreover have "CHR ''<'' \<notin> set (v6_string b)" for b
    by (auto simp: v6_string_def Let_def j hex_not_angle split: prod.split)
  ultimately have "CHR ''<'' \<notin> set (ip_string ip)" using ip(1) by (auto simp: ip_string_def split: option.split)
  then show False using ip(2) by simp
qed

lemma parse_addr_length: "parse_addr s = Some (k, ip) \<Longrightarrow> length ip = 16"
  using parse_addr_cases by (fastforce simp: v4_in_v6_def)

lemma parse_cidr_length: "parse_cidr s = Some (ip, net) \<Longrightarrow> length ip = 16"
  by (auto simp: parse_cidr_def Let_def split: option.splits prod.splits if_splits dest: parse_addr_length)

lemma parse_cidr_net_length: "parse_cidr s = Some (x, net) \<Longrightarrow> length (net_ip net) \<in> {4, 16}"
  by (auto simp: parse_cidr_def Let_def ip_mask_def and_bytes_def v4_in_v6_def split: option.splits prod.splits if_splits dest!: parse_addr_cases)

lemma parse_ip_length: "parse_ip s = Some l \<Longrightarrow> length l = 16"
  by (auto simp: parse_ip_def split: option.splits prod.splits dest: parse_addr_length)

lemma length_inc_last: "ip \<noteq> [] \<Longrightarrow> length (inc_last ip) = length ip"
  by (simp add: inc_last_def)

lemma scan_text:
  assumes "scan a net ip taken = Some (Some r)" "ip \<noteq> []" "a \<Longrightarrow> net_ip net = ip"
  shows "length r = length ip"
  by (rule scan_cases [OF assms(2,3), where taken = taken]) (use assms in \<open>auto split: if_splits\<close>)

lemma next_ip_text:
  assumes "GetNextAvailableIP cidr prev m = Val (Inr (s, sz))" shows "address_text s"
proof -
  obtain x net where p: "parse_cidr cidr = Some (x, net)"
    using assms by (auto simp: GetNextAvailableIP_def split: option.splits)
  note n = parse_cidr_net_ip [OF p] parse_cidr_net_length [OF p]
  show ?thesis
  proof (cases "prev = [] \<or> parse_ip prev = None")
    case True
    show ?thesis using assms n next_ip_no_last [OF p True n(1), of m] scan_text [of True "net\<lparr>net_ip := inc_last (net_ip net)\<rparr>" "inc_last (net_ip net)"]
      by (auto simp: length_inc_last intro!: address_textI split: option.splits)
  next
    case False
    then obtain l where l: "prev \<noteq> []" "parse_ip prev = Some l" by auto
    show ?thesis using assms next_ip_last [OF p l, of m] scan_text [of False net "inc_last l"] parse_ip_length [OF l(2)] parse_ip_nonempty [OF l(2)]
      by (auto simp: length_inc_last intro!: address_textI split: option.splits)
  qed
qed

section \<open>The operations on pools\<close>

definition pool_ok :: "l2network \<Rightarrow> bool" where
  "pool_ok network \<longleftrightarrow>
     (st_last_assigned_ip (net_status network) = [] \<or> address_text (st_last_assigned_ip (net_status network))) \<and>
     (\<forall>k. map_get (st_assigned_ips (net_status network)) k \<noteq> None \<longrightarrow> address_text k)"

lemma assigned_key_text: "address_text (assigned_key addr) \<longleftrightarrow> parse_cidr addr \<noteq> None"
  using nil_no_address by (auto simp: assigned_key_def intro!: address_textI dest: parse_cidr_length split: option.split)

lemma assign_address_ok:
  assumes "pool_ok network" "assign_address annot network = Val (addrs, network1)"
  shows "pool_ok network1 \<and> st_assigned_ips (net_status network1) = st_assigned_ips (net_status network)"
  using assms next_ip_text
  by (auto simp: assign_address_def pool_ok_def Let_def split: if_splits option.splits prod.splits flow.splits sum.splits)

lemma record_address_ok: "pool_ok network \<Longrightarrow> pool_ok (record_address addr podName network) \<longleftrightarrow> parse_cidr addr \<noteq> None"
  using assigned_key_text [of addr] by (auto simp: pool_ok_def record_address_def)

lemma moved_ips_text: "a \<in> set (moved_ips addresses) \<Longrightarrow> address_text a"
  by (auto simp: moved_ips_def List.map_filter_def intro!: address_textI dest: parse_cidr_length)

text \<open>
  C15. The pools stay well formed: every key and the last address of a pool are printed addresses,
  never the text of a nil one. Of the operations that change a pool, moving a pod's addresses
  from one to another keeps both well formed, whatever the addresses are; assigning and recording an
  address keeps the pool well formed exactly when the address recorded can be parsed with its
  mask, which an address the user gave without a mask and a failed allocation cannot.
\<close>

theorem pools_well_formed:
  assumes "pool_ok network" "pool_ok target"
  shows "(\<forall>annot addr addrs network1. assign_address annot network = Val (addr # addrs, network1) \<longrightarrow>
      pool_ok network1 \<and> (pool_ok (record_address addr podName network1) \<longleftrightarrow> parse_cidr addr \<noteq> None)) \<and>
    pool_ok (fst (moved_statuses network target podName addresses)) \<and> pool_ok (snd (moved_statuses network target podName addresses))"
proof (intro conjI allI impI)
  fix annot addr addrs network1
  assume a: "assign_address annot network = Val (addr # addrs, network1)"
  show n: "pool_ok network1" using assign_address_ok [OF assms(1) a] by simp
  show "pool_ok (record_address addr podName network1) \<longleftrightarrow> parse_cidr addr \<noteq> None" by (rule record_address_ok [OF n])
next
  show "pool_ok (fst (moved_statuses network target podName addresses))"
    using assms(1) by (simp add: pool_ok_def moved_statuses_def Let_def move_addresses_get)
  show "pool_ok (snd (moved_statuses network target podName addresses))"
    using assms(2) moved_ips_text by (simp add: pool_ok_def moved_statuses_def Let_def move_addresses_get)
qed

theorem pools_well_formed_witness:
  "\<exists>addr network1. assign_address new_annotation pool_network = Val ([addr], network1) \<and> pool_ok (record_address addr ''ping'' network1)"
proof -
  obtain ip where ip: "ip \<noteq> []" and a: "assign_address new_annotation pool_network = Val ([ip @ ''/'' @ dec 24],
    pool_network\<lparr>net_status := (net_status pool_network)\<lparr>st_last_assigned_ip := ip\<rparr>\<rparr>)" by (rule pool_assign)
  have ok: "pool_ok pool_network" by (simp add: pool_ok_def pool_network_def zero_network_def map_get_def)
  obtain ip' where "assigned_key (ip' @ ''/'' @ dec 24) = ip'" "ip @ ''/'' @ dec 24 = ip' @ ''/'' @ dec 24"
    by (rule assign_address_ip [OF _ _ _ _ _ a, of "[10, 0, 0, 0]" 24])
      (use ip in \<open>simp_all add: pool_network_def zero_network_def new_annotation_def\<close>)
  then have "assigned_key (ip @ ''/'' @ dec 24) = ip" by simp
  moreover have "address_text ip" using assign_address_ok [OF ok a] ip by (simp add: pool_ok_def)
  ultimately have "parse_cidr (ip @ ''/'' @ dec 24) \<noteq> None" using assigned_key_text [of "ip @ ''/'' @ dec 24"] by simp
  then show ?thesis using a pools_well_formed [OF ok ok, of "''ping''" "[]"] by blast
qed

end
