(* ===== verification/Isolation.thy ===== *)
theory Isolation
  imports Interfaces Quarantine
begin

text \<open>
  The isolation of the networks: which switch ports the SDN controller has in which network,
  read off the requests it accepted, in the runs of the webhook, the pod controller and the
  quarantine controller's moves, and the whole quarantine request as a run of such moves.
\<close>

section \<open>The ports of the networks\<close>

text \<open>What the body of a port request names: pairs of a port and the network.\<close>

definition decode_ports :: "string \<Rightarrow> (string \<times> string) list" where
  "decode_ports b = (case json_parse b of
       Some (JObj ms) \<Rightarrow> (case (map_of ms ''networkId'', map_of ms ''networkEndpoints'') of
           (Some (JStr network), Some (JArr ports)) \<Rightarrow>
             List.map_filter (\<lambda>v. case v of JStr p \<Rightarrow> Some (p, network) | _ \<Rightarrow> None) ports
         | _ \<Rightarrow> [])
     | _ \<Rightarrow> [])"

lemma decode_payload: "decode_ports (payload_json (payload network [port])) = [(sanitize port, sanitize network)]"
proof -
  let ?v = "JObj [(''networkId'', JStr network), (''networkEndpoints'', JArr [JStr port])]"
  have "payload_json (payload network [port]) = print_json ?v" by (simp add: payload_json_def payload_def)
  moreover have "json_parse (print_json ?v) = Some (json_clean ?v)"
    by (rule json_parse_print) (simp_all add: max_depth_def)
  moreover have "sanitize ''networkId'' = ''networkId''" "sanitize ''networkEndpoints'' = ''networkEndpoints''"
    by (rule sanitize_unescaped; simp add: unescaped_def)+
  ultimately show ?thesis by (simp add: decode_ports_def List.map_filter_def)
qed

definition fabric_effect :: "session_client \<Rightarrow> event \<Rightarrow> (string \<times> string) set \<Rightarrow> (string \<times> string) set" where
  "fabric_effect s e F = (case e of
       Http m u a b (Inr code) \<Rightarrow>
         if u \<noteq> sc_base_url s @ ''/vnets/api/port'' then F
         else if m = ''POST'' \<and> code = 204 then F \<union> set (decode_ports b)
         else if m = ''DELETE'' \<and> code \<in> {200, 204} then F - set (decode_ports b)
         else F
     | _ \<Rightarrow> F)"

primrec fabric :: "session_client \<Rightarrow> history \<Rightarrow> (string \<times> string) set" where
  "fabric s [] = {}"
| "fabric s (e # h) = fabric_effect s e (fabric s h)"

lemma fabric_step: "fabric_effect s e F \<subseteq> F \<union> (case accepted_attach s e of Some b \<Rightarrow> set (decode_ports b) | None \<Rightarrow> {})"
  by (auto simp: fabric_effect_def split: event.splits sum.splits if_splits)

lemma fabric_bound: "fabric s (es @ h) \<subseteq> fabric s h \<union> (\<Union>b\<in>set (view (accepted_attach s) es). set (decode_ports b))"
proof (induction es)
  case (Cons e es)
  then show ?case using fabric_step [of s e "fabric s (es @ h)"] by (auto split: option.splits)
qed simp

lemma fabric_quiet [simp]:
  "fabric_effect s (GotPod k r1) F = F" "fabric_effect s (GotNad k r2) F = F" "fabric_effect s (UpdatedPod p r3) F = F"
  "fabric_effect s (UpdatedNad n r4) F = F"
  by (simp_all add: fabric_effect_def)

lemma fabric_unattached: "\<forall>e\<in>set es. accepted_attach s e = None \<Longrightarrow> fabric s (es @ h) \<subseteq> fabric s h"
  using fabric_bound [of s es h] by (simp add: view_None)

lemma fabric_no_http: "\<forall>e\<in>set es. \<forall>m u a b r. e \<noteq> Http m u a b r \<Longrightarrow> fabric s (es @ h) = fabric s h"
  by (induction es) (auto simp: fabric_effect_def split: event.splits)

lemma wp_fabric:
  assumes "emits (\<lambda>e. True) m" "wp m (\<lambda>r h'. \<exists>bs. attached s h' = bs @ attached s h \<and> (\<forall>b\<in>set bs. set (decode_ports b) \<subseteq> W)) h"
  shows "wp m (\<lambda>r h'. fabric s h' \<subseteq> fabric s h \<union> W) h"
proof (rule wp_mono [OF wp_conj [OF wp_emits [OF assms(1)] assms(2)]], goal_cases)
  case (1 r h')
  then obtain es bs where "h' = es @ h" "attached s h' = bs @ attached s h" "\<forall>b\<in>set bs. set (decode_ports b) \<subseteq> W" by blast
  moreover from this have "(\<Union>b\<in>set (view (accepted_attach s) es). set (decode_ports b)) \<subseteq> W" by auto
  ultimately show ?case using fabric_bound [of s es h] by blast
qed

section \<open>Ports of interfaces\<close>

text \<open>The port of an interface of a node as the SDN controller reads it, and what a pod asks for.\<close>

definition interface_port :: "environment \<Rightarrow> string \<Rightarrow> string \<Rightarrow> string" where
  "interface_port E node x = sanitize (of_port E node OVERLAY_PROVIDER
     (case GetPortNumberFromNetAttachDef x of Inr i \<Rightarrow> i | Inl e \<Rightarrow> []))"

definition pod_networks :: "string \<Rightarrow> pod \<Rightarrow> string list" where
  "pod_networks ns p = (case ExtractNetworks (annotation_of p L2SM_NETWORK_ANNOTATION) ns of
       Inl e \<Rightarrow> [] | Inr as \<Rightarrow> map (\<lambda>a. sanitize (na_name a)) as)"

definition wanted :: "environment \<Rightarrow> string \<Rightarrow> pod \<Rightarrow> (string \<times> string) list" where
  "wanted E ns p = zip (map (interface_port E (pod_node p)) (pod_interfaces ns p)) (pod_networks ns p)"

lemma decode_attach_body: "decode_ports (attach_body E node network m) = [(interface_port E node (na_name m), sanitize (net_name network))]"
  by (simp add: attach_body_def decode_payload interface_port_def)

text \<open>
  Switches of different nodes have different identifiers, and the interfaces are those of
  one overlay: then ports of different interfaces differ.
\<close>

definition switch_ids :: "environment \<Rightarrow> string set \<Rightarrow> bool" where
  "switch_ids E N \<longleftrightarrow> inj_on (\<lambda>node. e_switch_id E node OVERLAY_PROVIDER) N \<and>
     (\<forall>node\<in>N. list_all (\<lambda>c. unescaped c \<and> c \<noteq> CHR ''/'') (e_switch_id E node OVERLAY_PROVIDER))"

definition overlay_names :: "string \<Rightarrow> string set" where
  "overlay_names ov = range (\<lambda>i. ov @ ''-veth'' @ dec i)"

lemma interface_port_inj:
  assumes "switch_ids E N" "index_of ov ''veth'' = None" "node \<in> N" "node' \<in> N" "x \<in> overlay_names ov" "x' \<in> overlay_names ov"
    and eq: "interface_port E node x = interface_port E node' x'"
  shows "node = node' \<and> x = x'"
proof -
  obtain i j where x: "x = ov @ ''-veth'' @ dec i" "x' = ov @ ''-veth'' @ dec j"
    using assms(5,6) by (auto simp: overlay_names_def)
  have port: "interface_port E n (ov @ ''-veth'' @ dec k) = ''of:'' @ e_switch_id E n OVERLAY_PROVIDER @ ''/'' @ dec k" if "n \<in> N" for n k
  proof -
    have "list_all unescaped (''of:'' @ e_switch_id E n OVERLAY_PROVIDER @ ''/'' @ dec k)"
      using assms(1) that by (auto simp: switch_ids_def list_all_iff unescaped_def [of "CHR ''o''"] unescaped_def [of "CHR ''f''"]
          unescaped_def [of "CHR '':''"] unescaped_def [of "CHR ''/''"] intro: unescaped_dec dec_digits)
    then show ?thesis
      unfolding interface_port_def GetPortNumber_of_veth [OF assms(2)] sum.case of_port_def by (rule sanitize_unescaped)
  qed
  have slash: "takeWhile (\<lambda>c. c \<noteq> CHR ''/'') (e_switch_id E n OVERLAY_PROVIDER @ CHR ''/'' # t) = e_switch_id E n OVERLAY_PROVIDER" if "n \<in> N" for n t
    using assms(1) that by (subst takeWhile_append2) (auto simp: switch_ids_def list_all_iff)
  have e: "e_switch_id E node OVERLAY_PROVIDER @ CHR ''/'' # dec i = e_switch_id E node' OVERLAY_PROVIDER @ CHR ''/'' # dec j"
    using eq unfolding x port [OF assms(3)] port [OF assms(4)] by simp
  then have "e_switch_id E node OVERLAY_PROVIDER = e_switch_id E node' OVERLAY_PROVIDER"
    using slash [OF assms(3)] slash [OF assms(4)] by metis
  moreover from this e have "dec i = dec j" by simp
  ultimately show ?thesis using assms(1,3,4) x by (simp add: switch_ids_def inj_on_def)
qed

section \<open>The environment\<close>

text \<open>The SDN controller does what it is asked when a port is to be taken out of a network.\<close>

definition detaches :: "environment \<Rightarrow> session_client \<Rightarrow> bool" where
  "detaches E s \<longleftrightarrow> e_url_error E (sc_base_url s @ ''/vnets/api/port'') = None \<and>
     (\<forall>h b. \<exists>code\<in>{200, 204}. e_http E h ''DELETE'' (sc_base_url s @ ''/vnets/api/port'') (''Basic '' @ sc_auth_token s) b = Inr code)"

text \<open>Two readings of a pod that agree on what the pod controller uses; a stored pod is one of what was sent.\<close>

definition same_pod :: "pod \<Rightarrow> pod \<Rightarrow> bool" where
  "same_pod q p \<longleftrightarrow> pod_node q = pod_node p \<and> pod_annotation q MULTUS_ANNOTATION_KEY = pod_annotation p MULTUS_ANNOTATION_KEY \<and>
     pod_annotation q L2SM_NETWORK_ANNOTATION = pod_annotation p L2SM_NETWORK_ANNOTATION"

definition stores_pods :: "environment \<Rightarrow> bool" where
  "stores_pods E \<longleftrightarrow> (\<forall>h q q2. e_update_pod E h q = Inr q2 \<longrightarrow> same_pod q2 q)"

lemma annotation_of_pod: "annotation_of p k = (case pod_annotation p k of Some v \<Rightarrow> v | None \<Rightarrow> [])"
  by (simp add: annotation_of_def pod_annotation_def)

lemma has_pod_annotation: "has_annotation p k \<longleftrightarrow> pod_annotation p k \<noteq> None"
  by (simp add: has_annotation_def pod_annotation_def)

lemma same_pod_simps:
  assumes "same_pod q p"
  shows "pod_node q = pod_node p" "pod_interfaces ns q = pod_interfaces ns p" "wanted E ns q = wanted E ns p"
  using assms by (simp_all add: same_pod_def pod_interfaces_def wanted_def pod_networks_def annotation_of_pod)

lemma same_pod_finalizers: "same_pod (set_finalizers fs p) p"
  by (simp add: same_pod_def pod_annotation_def set_finalizers_def)

lemma same_pod_trans: "same_pod a b \<Longrightarrow> same_pod b c \<Longrightarrow> same_pod a c"
  by (simp add: same_pod_def)

section \<open>What the pod controller attaches\<close>

lemma prefix_wanted:
  assumes "attached_prefix E s ns p h h'" "has_annotation p MULTUS_ANNOTATION_KEY"
  shows "\<exists>bs. attached s h' = bs @ attached s h \<and> (\<forall>b\<in>set bs. set (decode_ports b) \<subseteq> set (wanted E ns p))"
proof -
  obtain annots networks multus k where x: "ExtractNetworks (annotation_of p L2SM_NETWORK_ANNOTATION) ns = Inr annots"
    "map net_name networks = map na_name annots" "ExtractNetworks (annotation_of p MULTUS_ANNOTATION_KEY) ns = Inr multus"
    "length multus = length networks"
    and a: "attached s h' = rev (take k (attach_bodies E (pod_node p) networks multus)) @ attached s h"
    using assms(1) unfolding attached_prefix_def by blast
  have "pod_interfaces ns p = map na_name multus"
    using x(3) assms(2) by (auto simp: pod_interfaces_def annotation_of_pod has_pod_annotation)
  moreover have "pod_networks ns p = map (\<lambda>n. sanitize (net_name n)) networks"
    using x(1) arg_cong [OF x(2), of "map sanitize"] by (simp add: pod_networks_def comp_def)
  ultimately have w: "wanted E ns p = map2 (\<lambda>m n. (interface_port E (pod_node p) (na_name m), sanitize (net_name n))) multus networks"
    by (simp add: wanted_def zip_map_map comp_def split_def)
  have "set (decode_ports b) \<subseteq> set (wanted E ns p)" if "b \<in> set (take k (attach_bodies E (pod_node p) networks multus))" for b
  proof -
    have "b \<in> set (attach_bodies E (pod_node p) networks multus)" using that by (rule in_set_takeD)
    then obtain n m where nm: "(n, m) \<in> set (zip networks multus)" "b = attach_body E (pod_node p) n m"
      by (auto simp: attach_bodies_def)
    from nm(1) have "(m, n) \<in> set (zip multus networks)" by (auto simp: set_zip)
    then show ?thesis unfolding w nm(2) decode_attach_body by force
  qed
  then show ?thesis using a by auto
qed

lemma attach_pod_fabric:
  assumes E: "stores_pods E" and q: "has_annotation q MULTUS_ANNOTATION_KEY"
  shows "wp (attach_pod E (reconciler E s ns) q) (\<lambda>r h'. fabric s h' \<subseteq> fabric s h \<union> set (wanted E ns q)) h"
proof (rule wp_fabric)
  show "emits (\<lambda>e. True) (attach_pod E (reconciler E s ns) q)" by (rule emits_weaken [OF emits_attach_pod]) simp
  let ?Q = "\<lambda>r h'. \<exists>bs. attached s h' = bs @ attached s h \<and> (\<forall>b\<in>set bs. set (decode_ports b) \<subseteq> set (wanted E ns q))"
  have same: "?Q r h'" if "attached s h' = attached s h" for r and h' :: history
    using that by (intro exI [of _ "[]"]) simp
  show "wp (attach_pod E (reconciler E s ns) q) ?Q h"
  proof (cases "l2smFinalizer \<in> set (om_finalizers (pod_meta q))")
    case False
    show ?thesis
    proof (cases "e_update_pod E h (with_finalizer q)")
      case (Inr p2)
      let ?u = "UpdatedPod (with_finalizer q) (Inr p2)"
      have p2: "same_pod p2 q" using E Inr same_pod_finalizers same_pod_trans unfolding stores_pods_def by blast
      have h2: "has_annotation p2 MULTUS_ANNOTATION_KEY" using q p2 by (simp add: has_pod_annotation same_pod_def)
      have "wp (attach_pod_networks E (reconciler E s ns) p2) ?Q (?u # h)"
      proof (rule wp_mono [OF wp_attach_pod_networks], goal_cases)
        case (1 r h')
        then show ?case using prefix_wanted [OF _ h2, of E s ns "?u # h" h'] same [of h'] same_pod_simps(3) [OF p2] by auto
      qed
      then show ?thesis using False Inr h2 by (simp add: attach_pod_def wp_simps)
    qed (use False in \<open>simp add: attach_pod_def wp_simps same\<close>)
  qed (simp add: attach_pod_def wp_simps same)
qed

section \<open>What the pod controller detaches\<close>

lemma wp_detach:
  assumes "detaches E s"
  shows "wp (cl_detach (InternalClient E s) t (payload network [port])) (\<lambda>r h'. r = Val None \<and> stored_nads S h' = stored_nads S h \<and>
     fabric s h' = fabric s h - {(sanitize port, sanitize network)} \<and> (\<exists>m u a b r. h' = Http m u a b r # h)) h"
proof -
  obtain code where "e_http E h ''DELETE'' (sc_base_url s @ ''/vnets/api/port'') (''Basic '' @ sc_auth_token s) (payload_json (payload network [port])) = Inr code"
    and "code = 200 \<or> code = 204" using assms unfolding detaches_def by blast
  then show ?thesis using assms
    by (auto simp: detaches_def InternalClient_def internal_DetachPodFromNetwork_def Delete_def newRequest_def wp_simps Let_def
        expect_status_def sent_def fabric_effect_def decode_payload untouched)
qed

lemma release_fabric:
  assumes E: "detaches E s" and i: "i < length multus"
  shows "wp (release_interface E (reconciler E s ns) node multus (i, n) u) (\<lambda>r h'. fabric s h' \<subseteq> fabric s h \<and>
    (stored_nads S h' = stored_nads S h \<or> (interface_port E node (na_name (multus ! i)), sanitize (na_name n)) \<notin> fabric s h')) h"
proof (cases "GetPortNumberFromNetAttachDef (na_name (multus ! i))")
  case (Inl e)
  then show ?thesis using i by (simp add: release_interface_def nth_go_def wp_simps)
next
  case (Inr k)
  have port: "sanitize (of_port E node OVERLAY_PROVIDER k) = interface_port E node (na_name (multus ! i))"
    by (simp add: interface_port_def Inr)
  let ?P = "\<lambda>r h'. fabric s h' \<subseteq> fabric s h \<and>
    (stored_nads S h' = stored_nads S h \<or> (interface_port E node (na_name (multus ! i)), sanitize (na_name n)) \<notin> fabric s h')"
  have tail: "wp (gbind (get_nad E (ns, na_name (multus ! i))) (\<lambda>got. case got of
               Inl e \<Rightarrow> if is_not_found e then ret (Inr ()) else ret (Inl None)
             | Inr netAttachDef \<Rightarrow>
                 gbind (update_nad E (set_nad_label_alloc (nad_label node) ''false'' netAttachDef)) (\<lambda>x. case x of
                   Inl e \<Rightarrow> ret (Inl None)
                 | Inr _ \<Rightarrow> ret (Inr ())))) ?P h1"
    if "fabric s h1 = fabric s h - {(interface_port E node (na_name (multus ! i)), sanitize (na_name n))}" for h1
    by (cases "e_get_nad E h1 (ns, na_name (multus ! i))") (simp_all add: wp_simps that split: sum.split)
  show ?thesis
    unfolding release_interface_def nth_go_def
    using i Inr by (simp add: wp_gbind [of "glift _"] wp_glift wp_gbind [of "cl_detach _ _ _"])
      (rule wp_mono [OF wp_detach [OF E, where S = S]], simp add: port tail)
qed

text \<open>A deleted pod: what is no longer marked is in no network.\<close>

lemma delete_pod_fabric:
  assumes E: "serves_nads E S" "detaches E s"
    and names: "inj_on (interface_port E (pod_node q)) (set (pod_interfaces ns q))" "distinct (pod_interfaces ns q)"
    and F: "\<forall>x\<in>set (pod_interfaces ns q). \<forall>net. (interface_port E (pod_node q) x, net) \<in> fabric s h \<longrightarrow>
       (interface_port E (pod_node q) x, net) \<in> set (wanted E ns q)"
  shows "wp (delete_pod E (reconciler E s ns) q) (\<lambda>r h'. fabric s h' \<subseteq> fabric s h \<and>
     (\<forall>x\<in>set (pod_interfaces ns q). marked S h ns (pod_node q) x \<longrightarrow> marked S h' ns (pod_node q) x \<or>
        (\<forall>net. (interface_port E (pod_node q) x, net) \<notin> fabric s h'))) h"
    (is "wp _ (\<lambda>r. ?I) h")
proof (cases "l2smFinalizer \<in> set (om_finalizers (pod_meta q)) \<and> has_annotation q MULTUS_ANNOTATION_KEY")
  case True
  let ?port = "interface_port E (pod_node q)"
  obtain annots multus where x: "ExtractNetworks (annotation_of q L2SM_NETWORK_ANNOTATION) ns = Inr annots"
    "ExtractNetworks (annotation_of q MULTUS_ANNOTATION_KEY) ns = Inr multus"
    using ExtractNetworks_total by meson
  have pi: "pod_interfaces ns q = map na_name multus"
    using x(2) True by (auto simp: pod_interfaces_def annotation_of_pod has_pod_annotation)
  have wanted: "wanted E ns q = zip (map (\<lambda>m. ?port (na_name m)) multus) (map (\<lambda>a. sanitize (na_name a)) annots)"
    using x(1) by (simp add: wanted_def pi pod_networks_def comp_def)
  have ports: "distinct (map (\<lambda>m. ?port (na_name m)) multus)"
    using names by (auto simp: pi distinct_map comp_def inj_on_def)
  have loop: "wp (gloop (release_interface E (reconciler E s ns) (pod_node q) multus) (enumerate 0 annots) ()) (\<lambda>r h'. ?I h') h"
    if len: "length multus = length annots"
  proof (rule wp_gloop [where I = "\<lambda>ds st. ?I"], goal_cases)
    case (1 ds x st w)
    then obtain es where es: "enumerate 0 annots = ds @ x # es" by blast
    obtain i n where i: "x = (i, n)" by (cases x)
    have "(i, n) \<in> set (enumerate 0 annots)" unfolding es i by simp
    then have n: "i < length annots" "annots ! i = n" by (auto simp: in_set_enumerate_eq)
    let ?x = "na_name (multus ! i)"
    have step: "?I w'"
      if k: "kept S ns (pod_node q) {?x} w w'" and f: "fabric s w' \<subseteq> fabric s w"
        "stored_nads S w' = stored_nads S w \<or> (?port ?x, sanitize (na_name n)) \<notin> fabric s w'" for w'
    proof (intro conjI ballI impI)
      show "fabric s w' \<subseteq> fabric s h" using f(1) 1(2) by blast
    next
      fix x assume xs: "x \<in> set (pod_interfaces ns q)" "marked S h ns (pod_node q) x"
      consider (free) "\<forall>net. (?port x, net) \<notin> fabric s w" | (other) "marked S w ns (pod_node q) x" "x \<noteq> ?x"
        | (own) "marked S w ns (pod_node q) x" "x = ?x" using 1(2) xs by blast
      then show "marked S w' ns (pod_node q) x \<or> (\<forall>net. (?port x, net) \<notin> fabric s w')"
      proof cases
        case own
        have "net = sanitize (na_name n)" if "(?port x, net) \<in> fabric s w'" for net
        proof -
          have "(?port x, net) \<in> fabric s h" using that f(1) 1(2) by blast
          then have "(?port x, net) \<in> set (wanted E ns q)" using F xs(1) by blast
          then obtain j where j: "j < length annots" "?port x = ?port (na_name (multus ! j))" "net = sanitize (na_name (annots ! j))"
            unfolding wanted using len by (auto simp: set_zip)
          have "i = j" using j(2) nth_eq_iff_index_eq [OF ports, of i j] n(1) j(1) len own(2) by simp
          then show ?thesis using j(3) n(2) by simp
        qed
        then show ?thesis using f(2) own by (auto simp: marked_def)
      qed (use f(1) k in \<open>auto simp: kept_def\<close>)
    qed
    have lm: "i < length multus" using n(1) len by simp
    show ?case unfolding i
      by (rule wp_mono [OF wp_conj [OF release_kept [OF E(1)] release_fabric [OF E(2) lm, where S = S]]])
        (use step in \<open>auto split: flow.split sum.split\<close>)
  qed simp_all
  have last: "marked S (UpdatedPod p r # w) = marked S w" for p r w
    by (simp add: marked_def untouched fun_eq_iff)
  show ?thesis
    using True x
    by (auto simp only: delete_pod_def Let_def)
      (auto simp: wp_gbind [of "gloop _ _ _"] wp_simps last intro!: wp_mono [OF loop] split: flow.split sum.split)
qed (auto simp: delete_pod_def Let_def wp_simps split: sum.split)

section \<open>What the quarantine controller moves\<close>

lemma sanitize_seq: "seq_len (d # u @ t) = Suc (length u) \<Longrightarrow> sanitize (d # u @ t) = d # u @ sanitize t"
  by (simp add: Let_def)

lemma sanitize_sanitize [simp]: "sanitize (sanitize x) = sanitize x"
proof (induction x rule: sanitize.induct)
  case (2 c s)
  show ?case
  proof (cases "seq_len (c # s) = 0")
    case True
    have r: "seq_len (replacement @ t) = length replacement" "replacement \<noteq> []" for t
      by (simp_all add: replacement_def encode_rune_def seq_len_def in_range_def second_ok_def)
    obtain d u where d: "replacement = d # u" using r(2) by (cases replacement) auto
    have "sanitize (replacement @ t) = replacement @ sanitize t" for t
      using sanitize_seq [of d u t] r(1) [of t] unfolding d by simp
    then show ?thesis using 2 True by (simp add: Let_def)
  next
    case False
    let ?k = "seq_len (c # s)" and ?r = "sanitize (drop (seq_len (c # s)) (c # s))"
    have k: "seq_len (take ?k (c # s) @ t) = ?k" for t using False by (intro seq_len_take) simp_all
    have l: "length (take ?k (c # s)) = ?k" using seq_len_le [of "c # s"] by simp
    obtain d u where d: "take ?k (c # s) = d # u" using False by (cases ?k) auto
    have "seq_len (d # u @ t) = Suc (length u)" for t using k [of t] l unfolding d by simp
    then have "sanitize (take ?k (c # s) @ t) = take ?k (c # s) @ sanitize t" for t
      using sanitize_seq [of d u t] unfolding d by (simp del: sanitize.simps)
    then show ?thesis using 2(2) [OF refl False] False by (simp add: Let_def)
  qed
qed simp

lemma extracted_names: "ExtractNetworks v ns = Inr as \<Longrightarrow> ExtractNetworks v ns' = Inr as' \<Longrightarrow> map na_name as = map na_name as'"
  by (auto simp: ExtractNetworks_def Let_def comp_def split: prod.splits)

fun stored_pod :: "event \<Rightarrow> pod option" where
  "stored_pod (UpdatedPod p (Inr p')) = Some p'"
| "stored_pod _ = None"

text \<open>The pod after its \<open>i\<close>-th interface was moved, and the ports after it.\<close>

definition port_in :: "environment \<Rightarrow> session_client \<Rightarrow> string \<Rightarrow> pod \<Rightarrow> l2network \<Rightarrow> l2network \<Rightarrow> pod \<Rightarrow> history \<Rightarrow> history \<Rightarrow> bool" where
  "port_in E s ns q source target p' h h' \<longleftrightarrow> (\<exists>i<length (pod_interfaces ns q).
     pod_node p' = pod_node q \<and> pod_annotation p' MULTUS_ANNOTATION_KEY = pod_annotation q MULTUS_ANNOTATION_KEY \<and>
     length (pod_networks ns q) = length (pod_interfaces ns q) \<and> pod_networks ns q ! i = sanitize (net_name source) \<and>
     pod_networks ns p' = (pod_networks ns q)[i := sanitize (net_name target)] \<and>
     fabric s h' = insert (interface_port E (pod_node q) (pod_interfaces ns q ! i), sanitize (net_name target))
       (fabric s h - {(interface_port E (pod_node q) (pod_interfaces ns q ! i), sanitize (net_name source))}))"

lemma movePod_fabric:
  assumes E: "stores_pods E" "detaches E s"
  shows "wp (movePodToTargetNetwork E (InternalClient E s) q source target) (\<lambda>r h'. \<exists>es. h' = es @ h \<and>
    ((\<exists>a e. UpdatedPod a (Inl e) \<in> set es) \<or> view stored_pod es = [] \<and> fabric s h' \<subseteq> fabric s h \<or>
     (\<exists>p'. view stored_pod es = [p'] \<and> port_in E s ns q source target p' h h'))) h"
    (is "wp _ (\<lambda>r h'. \<exists>es. h' = es @ h \<and> ?P es h') h")
proof -
  let ?Q = "\<lambda>r h'. \<exists>es. h' = es @ h \<and> ?P es h'"
  have none: "?Q r h" for r by (intro exI [of _ "[]"]) simp
  note quiet = none
  obtain nets multus where x: "ExtractNetworks (annotation_of q L2SM_NETWORK_ANNOTATION) (om_namespace (pod_meta q)) = Inr nets"
    "ExtractNetworks (annotation_of q MULTUS_ANNOTATION_KEY) (om_namespace (pod_meta q)) = Inr multus"
    using ExtractNetworks_total by meson
  show ?thesis
  proof (cases "has_annotation q L2SM_NETWORK_ANNOTATION \<and> has_annotation q MULTUS_ANNOTATION_KEY \<and> length multus = length nets")
    case False
    then show ?thesis unfolding movePodToTargetNetwork_def Let_def
      by (auto simp: wp_ret x none split: option.split)
  next
    case True
    obtain annots multus' where y: "ExtractNetworks (annotation_of q L2SM_NETWORK_ANNOTATION) ns = Inr annots"
      "ExtractNetworks (annotation_of q MULTUS_ANNOTATION_KEY) ns = Inr multus'" using ExtractNetworks_total by meson
    have pi: "pod_interfaces ns q = map na_name multus"
      using y(2) True extracted_names [OF x(2) y(2)] by (auto simp: pod_interfaces_def annotation_of_pod has_pod_annotation)
    have pn: "pod_networks ns q = map (\<lambda>n. sanitize (na_name n)) nets"
      using y(1) arg_cong [OF extracted_names [OF x(1) y(1)], of "map sanitize"] by (simp add: pod_networks_def comp_def)
    show ?thesis
    proof (cases "networkAnnotationIndex nets (net_name source)")
      case None
      then show ?thesis using True unfolding movePodToTargetNetwork_def Let_def by (simp add: wp_ret x none)
    next
      case (Some i)
      then have i: "i < length nets" "na_name (nets ! i) = net_name source" by (auto dest: networkAnnotationIndex_Some)
      let ?m = "multus ! i"
      show ?thesis
      proof (cases "GetPortNumberFromNetAttachDef (na_name ?m)")
        case (Inl e)
        then show ?thesis using True Some i unfolding movePodToTargetNetwork_def Let_def by (simp add: wp_simps x none nth_go_def)
      next
        case (Inr k)
        let ?of = "of_port E (pod_node q) OVERLAY_PROVIDER k" and ?port = "interface_port E (pod_node q) (na_name ?m)"
        have port: "sanitize ?of = ?port" by (simp add: interface_port_def Inr)
        let ?H = "\<lambda>h'. \<exists>m u a b r. h' = Http m u a b r # h"
        have attach: "wp (gbind (cl_attach (InternalClient E s) t (payload (net_name target) [?of])) (\<lambda>err. case err of
              Some e \<Rightarrow> ret (f e) | None \<Rightarrow> k)) ?Q h1"
          if h1: "?H h1" "fabric s h1 = fabric s h - {(?port, sanitize (net_name source))}"
            and k: "\<And>e h2. h2 = e # h1 \<Longrightarrow> stored_pod e = None \<Longrightarrow> fabric s h2 = insert (?port, sanitize (net_name target)) (fabric s h1) \<Longrightarrow> wp k ?Q h2"
          for t f k h1
        proof -
          obtain m u a b r where hd: "h1 = Http m u a b r # h" using h1(1) by blast
          have sub: "fabric s h1 \<subseteq> fabric s h" using h1(2) by blast
          have stop: "?Q v h1" for v unfolding hd by (rule exI [of _ "[Http m u a b r]"]) (use sub hd in simp)
          have refused: "?Q v (sent s ''POST'' u' b' y # h1)" if "\<nexists>c. y = Inr c \<and> c \<in> set [204]" for v u' b' y
          proof -
            have "fabric s (sent s ''POST'' u' b' y # h1) = fabric s h1"
              using that by (auto simp: sent_def fabric_effect_def split: sum.split)
            then show ?thesis unfolding sent_def hd
              by (intro exI [of _ "[Http ''POST'' (sc_base_url s @ u') (''Basic '' @ sc_auth_token s) b' y, Http m u a b r]"]) (use sub hd in simp)
          qed
          have "fabric s (sent s ''POST'' ''/vnets/api/port'' (payload_json (payload (net_name target) [?of])) (Inr 204) # h1) =
              insert (?port, sanitize (net_name target)) (fabric s h1)"
            by (simp add: sent_def fabric_effect_def decode_payload port)
          then have "wp k ?Q (sent s ''POST'' ''/vnets/api/port'' (payload_json (payload (net_name target) [?of])) (Inr 204) # h1)"
            by (intro k [OF refl]) (simp_all add: sent_def)
          then show ?thesis unfolding wp_gbind
            by (intro internal.attach.wp_op) (use stop refused in \<open>simp_all add: wp_ret\<close>)
        qed
        obtain p' where p': "set_annotation L2SM_NETWORK_ANNOTATION (MultusAnnotationToString (renamed_networks nets i (net_name target))) q = Val p'"
          using True by (cases "om_annotations (pod_meta q)") (auto simp: set_annotation_def has_annotation_def map_get_def)
        have store: "wp (gbind (glift (set_annotation L2SM_NETWORK_ANNOTATION (MultusAnnotationToString (renamed_networks nets i (net_name target))) q)) (\<lambda>p.
            gbind (update_pod E p) (\<lambda>x. case x of
               Inl e \<Rightarrow> ret (f e)
             | Inr stored \<Rightarrow> gbind (updateNetworkStatuses E source target (om_name (pod_meta stored)) (na_ips ?m)) (\<lambda>(nets, err). ret (g nets err))))) ?Q h2"
          if h2: "h2 = e # h1" "?H h1" "stored_pod e = None"
            "fabric s h2 = insert (?port, sanitize (net_name target)) (fabric s h - {(?port, sanitize (net_name source))})" for f g e h1 h2
        proof -
          obtain m u a b r where hd: "h2 = [e, Http m u a b r] @ h" using h2(1,2) by auto
          let ?u = "UpdatedPod p' (e_update_pod E h2 p')"
          show ?thesis
          proof (cases "e_update_pod E h2 p'")
            case (Inl err)
            have "UpdatedPod p' (Inl err) \<in> set [?u, e, Http m u a b r]" using Inl by simp
            moreover have "?u # h2 = [?u, e, Http m u a b r] @ h" by (simp add: hd)
            ultimately have "?Q v (?u # h2)" for v by blast
            then show ?thesis using Inl by (simp add: p' wp_simps)
          next
            case (Inr stored)
            have st: "same_pod stored p'" using E(1) Inr unfolding stores_pods_def by blast
            have k: "L2SM_NETWORK_ANNOTATION \<noteq> MULTUS_ANNOTATION_KEY" by (simp add: L2SM_NETWORK_ANNOTATION_def MULTUS_ANNOTATION_KEY_def)
            have "pod_annotation stored L2SM_NETWORK_ANNOTATION = Some (MultusAnnotationToString (renamed_networks nets i (net_name target)))"
              using st annotation_set [OF p'] by (simp add: same_pod_def)
            then have "pod_networks ns stored = map (\<lambda>n. sanitize (na_name n)) (renamed_networks nets i (net_name target))"
              by (simp add: pod_networks_def annotation_of_pod ExtractNetworks_def decode_multus Let_def comp_def clean_annotation_def del: sanitize.simps)
            then have "pod_networks ns stored = (pod_networks ns q)[i := sanitize (net_name target)]"
              by (simp add: pn renamed_networks_def map_update del: sanitize.simps)
            moreover have "pod_node stored = pod_node q" "pod_annotation stored MULTUS_ANNOTATION_KEY = pod_annotation q MULTUS_ANNOTATION_KEY"
              using st annotation_set [OF p'] k set_annotation_node [OF p'] by (simp_all add: same_pod_def)
            ultimately have port_in: "port_in E s ns q source target stored h h3" if "fabric s h3 = fabric s h2" for h3
              unfolding port_in_def using i True that h2(4) by (intro exI [of _ i]) (simp add: pi pn del: sanitize.simps)
            have "?Q v (es @ ?u # h2)" if "\<forall>e\<in>set es. \<exists>n y. e = UpdatedNetStatus n y" for v es
            proof -
              have "\<forall>e\<in>set (es @ [?u]). \<forall>m u a b r. e \<noteq> Http m u a b r" using that by auto
              then have "fabric s (es @ ?u # h2) = fabric s h2" using fabric_no_http [of "es @ [?u]" s h2] by simp
              moreover have "view stored_pod es = []" using that by (intro view_None) auto
              ultimately have "view stored_pod (es @ [?u, e, Http m u a b r]) = [stored]" "port_in E s ns q source target stored h (es @ ?u # h2)"
                using port_in h2(3) Inr by simp_all
              moreover have "es @ ?u # h2 = (es @ [?u, e, Http m u a b r]) @ h" by (simp add: hd)
              ultimately show ?thesis by blast
            qed
            note Q = this
            have "wp (updateNetworkStatuses E source target (om_name (pod_meta stored)) (na_ips ?m))
                (\<lambda>v h'. (\<exists>z. v = Val z) \<and> (\<exists>es. h' = es @ ?u # h2 \<and> (\<forall>e\<in>set es. \<exists>n y. e = UpdatedNetStatus n y))) (?u # h2)"
            proof -
              have "\<exists>es. UpdatedNetStatus a b # w = es @ w \<and> (\<forall>e\<in>set es. \<exists>n y. e = UpdatedNetStatus n y)"
                "\<exists>es. UpdatedNetStatus a b # UpdatedNetStatus c d # w = es @ w \<and> (\<forall>e\<in>set es. \<exists>n y. e = UpdatedNetStatus n y)" for a b c d w
                by (rule exI [of _ "[UpdatedNetStatus a b]"], simp) (rule exI [of _ "[UpdatedNetStatus a b, UpdatedNetStatus c d]"], simp)
              then show ?thesis by (simp add: wp_updateNetworkStatuses Let_def split: prod.split sum.split)
            qed
            note statuses = this [unfolded Inr]
            note Q' = Q [unfolded Inr]
            show ?thesis using Inr
              by (simp add: p' wp_gbind wp_glift wp_ret wp_update_pod Let_def case_prod_beta del: append.simps)
                (rule wp_mono [OF statuses], use Q' in \<open>force simp: wp_ret case_prod_beta\<close>)
          qed
        qed
        have tail: "wp (gbind (cl_attach (InternalClient E s) t (payload (net_name target) [?of])) (\<lambda>err. case err of
              Some e \<Rightarrow> ret (f e)
            | None \<Rightarrow> gbind (glift (set_annotation L2SM_NETWORK_ANNOTATION (MultusAnnotationToString (renamed_networks nets i (net_name target))) q)) (\<lambda>p.
                gbind (update_pod E p) (\<lambda>x. case x of
                   Inl e \<Rightarrow> ret (f2 e)
                 | Inr stored \<Rightarrow> gbind (updateNetworkStatuses E source target (om_name (pod_meta stored)) (na_ips ?m)) (\<lambda>(nets, err). ret (g nets err)))))) ?Q h1"
          if h1: "?H h1" "fabric s h1 = fabric s h - {(sanitize ?of, sanitize (net_name source))}" for t f f2 g h1
        proof (rule attach [OF h1(1) h1(2) [unfolded port]], goal_cases)
          case (1 e h2)
          then show ?case using store [OF 1(1) h1(1) 1(2)] h1(2) port by simp
        qed
        have m: "nth_go multus i = Val ?m" using i True by (simp add: nth_go_def)
        show ?thesis
          unfolding movePodToTargetNetwork_def Let_def
          using True Some Inr
          by (simp add: x m wp_gbind [of "glift (Val _)"] wp_glift wp_gbind [of "cl_detach _ _ _"] del: sanitize.simps)
            (rule wp_mono [OF wp_detach [OF E(2), where S = Map.empty]], elim conjE, simp add: tail del: sanitize.simps)
      qed
    qed
  qed
qed

section \<open>Runs\<close>

text \<open>
  The runs of the webhook, the pod controller and the moves of the quarantine controller in a cluster
  with the nodes \<open>N\<close>. What the controllers read is an admitted pod, and for the pod controller it has
  not been deleted, or it is deleted in that step, which is its last one even when it stops half-way. The pod that a move stores takes the place
  of the one read; that it can be stored is part of the rule. Others take no mark away and put no
  port into a network: the calls a quarantine request makes between its moves are of this kind, so that a
  whole request is a run (last section).
\<close>

inductive isolated_run :: "environment \<Rightarrow> session_client \<Rightarrow> string \<Rightarrow> (key \<rightharpoonup> nad) \<Rightarrow> string set \<Rightarrow> pod list \<Rightarrow> history \<Rightarrow> bool"
  for E s ns S N where
  start: "isolated_run E s ns S N [] []"
| admit: "isolated_run E s ns S N ps h \<Longrightarrow> Handle E \<lparr>pa_namespace = ns\<rparr> req h = (r, h') \<Longrightarrow>
    (\<And>p. r = Val (Patched p) \<Longrightarrow> pod_node p \<in> N) \<Longrightarrow>
    isolated_run E s ns S N (case r of Val (Patched p) \<Rightarrow> p # ps | _ \<Rightarrow> ps) h'"
| reconcile: "isolated_run E s ns S N ps h \<Longrightarrow>
    (\<And>q. e_get_pod E h k = Inr q \<Longrightarrow> \<not> om_deleted (pod_meta q) \<and> (tracked q \<longrightarrow> (\<exists>p\<in>set ps. same_pod q p))) \<Longrightarrow>
    PodController.Reconcile E (reconciler E s ns) k h = (x, h') \<Longrightarrow> isolated_run E s ns S N ps h'"
| delete: "isolated_run E s ns S N ps h \<Longrightarrow> e_get_pod E h k = Inr q \<Longrightarrow> om_deleted (pod_meta q) \<Longrightarrow> p \<in> set ps \<Longrightarrow> same_pod q p \<Longrightarrow>
    PodController.Reconcile E (reconciler E s ns) k h = (x, h') \<Longrightarrow> isolated_run E s ns S N (remove1 p ps) h'"
| move: "isolated_run E s ns S N ps h \<Longrightarrow> p \<in> set ps \<Longrightarrow> same_pod q p \<Longrightarrow>
    movePodToTargetNetwork E (InternalClient E s) q source target h = (x, es @ h) \<Longrightarrow> (\<And>a e. UpdatedPod a (Inl e) \<notin> set es) \<Longrightarrow>
    isolated_run E s ns S N (case view stored_pod es of [] \<Rightarrow> ps | p' # _ \<Rightarrow> map (\<lambda>a. if a = p then p' else a) ps) (es @ h)"
| other: "isolated_run E s ns S N ps h \<Longrightarrow> (\<And>node x. marked S h ns node x \<Longrightarrow> marked S (e # h) ns node x) \<Longrightarrow>
    fabric s (e # h) \<subseteq> fabric s h \<Longrightarrow> isolated_run E s ns S N ps (e # h)"

lemma interface_run_untouched:
  assumes "interface_run E s ns S ps h" "\<forall>e\<in>set es. \<not> touches_nads e"
  shows "interface_run E s ns S ps (es @ h)"
  using assms(2)
proof (induction es)
  case (Cons e es)
  then have "interface_run E s ns S ps (es @ h)" "nad_effect e = id" by (auto simp: untouched)
  then show ?case by (auto simp: marked_def intro!: interface_run.other)
qed (simp add: assms(1))

lemma emits_movePod: "emits (\<lambda>e. \<not> touches_nads e) (movePodToTargetNetwork E (InternalClient E s) q source target)"
  unfolding movePodToTargetNetwork_def updateNetworkStatuses_def Let_def
  by (intro emits_intros internal.attach.op_emits internal.detach.op_emits) (simp_all add: sent_def)

text \<open>What a move leaves: nothing was stored, or one pod, whose interface is where the annotation now says.\<close>

lemma movePod_cases:
  assumes E: "stores_pods E" "detaches E s" and m: "movePodToTargetNetwork E (InternalClient E s) q source target h = (x, es @ h)"
    and accepted: "\<And>a e. UpdatedPod a (Inl e) \<notin> set es"
  obtains (unstored) "view stored_pod es = []" "fabric s (es @ h) \<subseteq> fabric s h"
    | (stored) p' where "view stored_pod es = [p']" "port_in E s ns q source target p' h (es @ h)"
  using wpD [OF movePod_fabric [OF E, where ns = ns] m] accepted by auto

lemma isolated_run_interfaces:
  assumes E: "stores_pods E" "detaches E s"
  shows "isolated_run E s ns S N ps h \<Longrightarrow> interface_run E s ns S ps h"
proof (induction rule: isolated_run.induct)
  case (reconcile ps h k x h')
  then show ?case by (blast intro: interface_run.reconcile)
next
  case (delete ps h k q p x h')
  then show ?case using interface_run.delete [of E s ns S ps h k q p] by (simp add: same_pod_def)
next
  case (move ps h p q source target x es)
  have "\<forall>e\<in>set es. \<not> touches_nads e" using emitsD [OF emits_movePod move.hyps(4)] by auto
  from interface_run_untouched [OF move.IH this] have run: "interface_run E s ns S ps (es @ h)" .
  from E move.hyps(4,5) show ?case
  proof (cases rule: movePod_cases [where ns = ns])
    case (stored p')
    then have "pod_node p' = pod_node p" "pod_annotation p' MULTUS_ANNOTATION_KEY = pod_annotation p MULTUS_ANNOTATION_KEY"
      using move.hyps(3) by (auto simp: port_in_def same_pod_def)
    then show ?thesis using interface_run.annotate [OF run, of p' p] stored(1) by simp
  qed (simp add: run)
qed (auto intro: interface_run.intros)

section \<open>The invariant\<close>

text \<open>
  Every port in a network is that of a marked interface, that of an admitted pod's interface is
  in no network but the one the pod wants it in, and no port is in two networks.
\<close>

definition isolated :: "environment \<Rightarrow> session_client \<Rightarrow> string \<Rightarrow> (key \<rightharpoonup> nad) \<Rightarrow> string set \<Rightarrow> string set \<Rightarrow> pod list \<Rightarrow> history \<Rightarrow> bool" where
  "isolated E s ns S N X ps h \<longleftrightarrow>
     (\<forall>port net. (port, net) \<in> fabric s h \<longrightarrow> (\<exists>node\<in>N. \<exists>x\<in>X. port = interface_port E node x \<and> marked S h ns node x)) \<and>
     (\<forall>p\<in>set ps. pod_node p \<in> N \<and> set (pod_interfaces ns p) \<subseteq> X \<and>
        (\<forall>x\<in>set (pod_interfaces ns p). \<forall>net. (interface_port E (pod_node p) x, net) \<in> fabric s h \<longrightarrow>
           (interface_port E (pod_node p) x, net) \<in> set (wanted E ns p))) \<and>
     single_valued (fabric s h)"

definition ports_differ :: "environment \<Rightarrow> string set \<Rightarrow> string set \<Rightarrow> bool" where
  "ports_differ E N X \<longleftrightarrow> (\<forall>node\<in>N. \<forall>node'\<in>N. \<forall>x\<in>X. \<forall>x'\<in>X. interface_port E node x = interface_port E node' x' \<longrightarrow> node = node' \<and> x = x')"

lemma ports_differD: "ports_differ E N X \<Longrightarrow> interface_port E node x = interface_port E node' x' \<Longrightarrow> node \<in> N \<Longrightarrow> node' \<in> N \<Longrightarrow> x \<in> X \<Longrightarrow> x' \<in> X \<Longrightarrow>
    node = node' \<and> x = x'"
  unfolding ports_differ_def by blast

lemma isolated_shrink:
  assumes "isolated E s ns S N X ps h" "fabric s h' \<subseteq> fabric s h" "set ps' \<subseteq> set ps"
    and "\<And>node x. marked S h ns node x \<Longrightarrow> marked S h' ns node x \<or> (\<forall>net. (interface_port E node x, net) \<notin> fabric s h')"
  shows "isolated E s ns S N X ps' h'"
  unfolding isolated_def
proof (intro conjI allI impI ballI)
  fix port net assume f: "(port, net) \<in> fabric s h'"
  then have "(port, net) \<in> fabric s h" using assms(2) by blast
  then obtain node x where "node \<in> N" "x \<in> X" "port = interface_port E node x" "marked S h ns node x"
    using assms(1) unfolding isolated_def by blast
  then show "\<exists>node\<in>N. \<exists>x\<in>X. port = interface_port E node x \<and> marked S h' ns node x" using assms(4) f by blast
next
  show "single_valued (fabric s h')" using assms(1,2) unfolding isolated_def by (blast intro: single_valued_subset)
qed (use assms(1-3) in \<open>unfold isolated_def, blast+\<close>)

lemma apart_in: "sorted_wrt (apart ns) ps \<Longrightarrow> p \<in> set ps \<Longrightarrow> q \<in> set ps \<Longrightarrow> p \<noteq> q \<Longrightarrow> apart ns p q"
  by (induction ps) (auto simp: apart_def)

lemma isolated_grow:
  assumes I: "isolated E s ns S N X ps h" and ok: "run_ok ns S ps h" and X: "ports_differ E N X"
    and p: "p \<in> set ps" and f: "fabric s h' \<subseteq> fabric s h \<union> set (wanted E ns p)" and m: "stored_nads S h' = stored_nads S h"
  shows "isolated E s ns S N X ps h'"
proof -
  have own: "\<exists>x\<in>set (pod_interfaces ns p). port = interface_port E (pod_node p) x" if "(port, net) \<in> set (wanted E ns p)" for port net
  proof -
    have "port \<in> set (map (interface_port E (pod_node p)) (pod_interfaces ns p))"
      using that unfolding wanted_def by (rule set_zip_leftD)
    then show ?thesis by auto
  qed
  have N: "pod_node q \<in> N" "set (pod_interfaces ns q) \<subseteq> X" if "q \<in> set ps" for q
    using I that unfolding isolated_def by blast+
  have inj: "inj_on (interface_port E (pod_node p)) (set (pod_interfaces ns p))"
    using ports_differD [OF X _ N(1) [OF p] N(1) [OF p]] N(2) [OF p] by (intro inj_onI) blast
  have "distinct (map (interface_port E (pod_node p)) (pod_interfaces ns p))"
    using ok p inj by (simp add: run_ok_def distinct_map)
  then have "distinct (map fst (wanted E ns p))"
    unfolding wanted_def map_fst_zip_take by (rule distinct_take)
  then have wanted: "net = net'" if "(port, net) \<in> set (wanted E ns p)" "(port, net') \<in> set (wanted E ns p)" for port net net'
    using that by (rule eq_key_imp_eq_value)
  have old: "(port, net) \<in> set (wanted E ns p)" if "(port, net) \<in> fabric s h'" "(port, net') \<in> set (wanted E ns p)" for port net net'
  proof -
    from own [OF that(2)] obtain x where "x \<in> set (pod_interfaces ns p)" "port = interface_port E (pod_node p) x" by blast
    then show ?thesis using that(1) I f p unfolding isolated_def by blast
  qed
  show ?thesis unfolding isolated_def
  proof (intro conjI allI impI ballI)
    fix port net assume "(port, net) \<in> fabric s h'"
    then consider "(port, net) \<in> fabric s h" | "(port, net) \<in> set (wanted E ns p)" using f by blast
    then show "\<exists>node\<in>N. \<exists>x\<in>X. port = interface_port E node x \<and> marked S h' ns node x"
    proof cases
      case 1
      then show ?thesis using I m unfolding isolated_def marked_def by metis
    next
      case 2
      then obtain x where "x \<in> set (pod_interfaces ns p)" "port = interface_port E (pod_node p) x" using own by blast
      moreover from this have "marked S h' ns (pod_node p) x" using ok p marked_same [OF m] by (simp add: run_ok_def)
      ultimately show ?thesis using N [OF p] by blast
    qed
  next
    fix q x net assume q: "q \<in> set ps" "x \<in> set (pod_interfaces ns q)" and e: "(interface_port E (pod_node q) x, net) \<in> fabric s h'"
    show "(interface_port E (pod_node q) x, net) \<in> set (wanted E ns q)"
    proof (cases "(interface_port E (pod_node q) x, net) \<in> fabric s h")
      case False
      then have w: "(interface_port E (pod_node q) x, net) \<in> set (wanted E ns p)" using e f by blast
      then obtain y where y: "y \<in> set (pod_interfaces ns p)" "interface_port E (pod_node q) x = interface_port E (pod_node p) y" using own by blast
      then have "pod_node q = pod_node p" "x = y" using ports_differD [OF X y(2)] N [OF p] N [OF q(1)] q(2) by auto
      moreover have "apart ns p q \<or> p = q"
        using ok p q(1) by (auto simp: run_ok_def dest: apart_in)
      ultimately show ?thesis using w y(1) q(2) by (auto simp: apart_def)
    qed (use I q in \<open>unfold isolated_def, blast\<close>)
  next
    show "single_valued (fabric s h')"
    proof (rule single_valuedI)
      fix port net net' assume "(port, net) \<in> fabric s h'" "(port, net') \<in> fabric s h'"
      then show "net = net'" using f old wanted I unfolding isolated_def single_valued_def by blast
    qed
  qed (use N in blast)+
qed

section \<open>Every step keeps it\<close>

lemma Handle_fabric: "wp (Handle E \<lparr>pa_namespace = ns\<rparr> req) (\<lambda>r h'. fabric s h' = fabric s h) h"
proof -
  have "emits (\<lambda>e. \<forall>m u a b r. e \<noteq> Http m u a b r) (Handle E \<lparr>pa_namespace = ns\<rparr> req)"
    unfolding Handle_def select_node_def attach_networks_def Let_def pod_annotator.simps
    by (intro emits_intros) simp_all
  from wp_emits [OF this] show ?thesis by (rule wp_mono) (auto simp: fabric_no_http)
qed

lemma isolated_admit:
  assumes I: "isolated E s ns S N X ps h" and X: "ports_differ E N X" "\<And>x. offered E ns x \<Longrightarrow> x \<in> X"
    and g: "gained E S ns h r h'" and f: "fabric s h' = fabric s h" and N: "\<And>p. r = Val (Patched p) \<Longrightarrow> pod_node p \<in> N"
  shows "isolated E s ns S N X (case r of Val (Patched p) \<Rightarrow> p # ps | _ \<Rightarrow> ps) h'"
proof -
  have old: "isolated E s ns S N X ps h'"
    by (rule isolated_shrink [OF I]) (use f g in \<open>auto simp: gained_def\<close>)
  have "isolated E s ns S N X (p # ps) h'" if r: "r = Val (Patched p)" for p
  proof -
    have n: "pod_node p \<in> N" using N r by blast
    have x: "x \<in> X" "\<not> marked S h ns (pod_node p) x" if "x \<in> set (pod_interfaces ns p)" for x
      using g r that X(2) by (auto simp: gained_def)
    have "(interface_port E (pod_node p) x, net) \<notin> fabric s h'" if xs: "x \<in> set (pod_interfaces ns p)" for x net
    proof
      assume "(interface_port E (pod_node p) x, net) \<in> fabric s h'"
      then obtain node y where y: "node \<in> N" "y \<in> X" "interface_port E (pod_node p) x = interface_port E node y" "marked S h ns node y"
        using I f unfolding isolated_def by blast
      show False using ports_differD [OF X(1) y(3) n y(1) x(1) [OF xs] y(2)] y(4) x(2) [OF xs] by simp
    qed
    then show ?thesis using old n x(1) unfolding isolated_def by auto
  qed
  then show ?thesis using old by (auto split: flow.split response.split)
qed

lemma untracked_fabric:
  assumes "e_get_pod E h k = Inr q" "\<not> tracked q"
  shows "wp (PodController.Reconcile E (reconciler E s ns) k) (\<lambda>r h'. fabric s h' = fabric s h \<and> stored_nads S h' = stored_nads S h) h"
  using assms by (auto simp: PodController.Reconcile_def tracked_def CreateErrorEvent_def wp_simps Let_def fabric_effect_def nad_effect_def
      split: sum.split)

lemma reconcile_fabric:
  assumes E: "stores_pods E" and q: "\<And>q. e_get_pod E h k = Inr q \<Longrightarrow> \<not> om_deleted (pod_meta q)"
  shows "wp (PodController.Reconcile E (reconciler E s ns) k) (\<lambda>r h'. fabric s h' \<subseteq> fabric s h \<union>
     (case e_get_pod E h k of Inr q \<Rightarrow> if tracked q then set (wanted E ns q) else {} | Inl e \<Rightarrow> {})) h"
proof (cases "e_get_pod E h k")
  case (Inr q)
  show ?thesis
  proof (cases "tracked q")
    case True
    then have "has_annotation q MULTUS_ANNOTATION_KEY" by (simp add: tracked_def)
    from attach_pod_fabric [OF E this, of s ns "GotPod k (Inr q) # h"]
    show ?thesis using q [OF Inr] Inr True by (intro wp_Reconcile_tracked [OF Inr True]) simp
  next
    case False
    show ?thesis by (rule wp_mono [OF untracked_fabric [OF Inr False, where S = Map.empty]]) auto
  qed
qed (simp add: PodController.Reconcile_def wp_simps)

lemma isolated_delete:
  assumes I: "isolated E s ns S N X ps h" and ok: "run_ok ns S ps h" and X: "ports_differ E N X"
    and E: "serves_nads E S" "detaches E s" and q: "e_get_pod E h k = Inr q" "om_deleted (pod_meta q)" "p \<in> set ps" "same_pod q p"
  shows "wp (PodController.Reconcile E (reconciler E s ns) k) (\<lambda>r. isolated E s ns S N X (remove1 p ps)) h"
proof -
  let ?h = "GotPod k (Inr q) # h"
  have pq: "pod_interfaces ns q = pod_interfaces ns p" "pod_node q = pod_node p" "wanted E ns q = wanted E ns p"
    using same_pod_simps [OF q(4)] by auto
  have st: "marked S ?h = marked S h" by (simp add: marked_def untouched fun_eq_iff)
  have N: "pod_node p \<in> N" "set (pod_interfaces ns p) \<subseteq> X" using I q(3) unfolding isolated_def by blast+
  have inj: "inj_on (interface_port E (pod_node q)) (set (pod_interfaces ns q))"
    unfolding pq using ports_differD [OF X _ N(1) N(1)] N(2) by (intro inj_onI) blast
  have dist: "distinct (pod_interfaces ns q)" using ok q(3) by (simp add: pq run_ok_def)
  have F: "\<forall>x\<in>set (pod_interfaces ns q). \<forall>net. (interface_port E (pod_node q) x, net) \<in> fabric s ?h \<longrightarrow>
       (interface_port E (pod_node q) x, net) \<in> set (wanted E ns q)"
    using I q(3) unfolding isolated_def pq by simp
  have shrink: "isolated E s ns S N X (remove1 p ps) h'"
    if "fabric s h' \<subseteq> fabric s h" "\<And>node x. marked S h ns node x \<Longrightarrow> marked S h' ns node x \<or> (\<forall>net. (interface_port E node x, net) \<notin> fabric s h')" for h'
    by (rule isolated_shrink [OF I that(1) set_remove1_subset that(2)])
  show ?thesis
  proof (cases "tracked q")
    case True
    have "wp (delete_pod E (reconciler E s ns) q) (\<lambda>r. isolated E s ns S N X (remove1 p ps)) ?h"
    proof (rule wp_mono [OF wp_conj [OF delete_pod_kept [OF E(1)] delete_pod_fabric [OF E inj dist F]]], goal_cases)
      case (1 r h')
      show ?case
      proof (rule shrink)
        show "fabric s h' \<subseteq> fabric s h" using 1 by simp
        fix node x assume "marked S h ns node x"
        then show "marked S h' ns node x \<or> (\<forall>net. (interface_port E node x, net) \<notin> fabric s h')"
          using 1 unfolding kept_def st by blast
      qed
    qed
    then show ?thesis using q(2) by (intro wp_Reconcile_tracked [OF q(1) True]) simp
  next
    case False
    show ?thesis
      by (rule wp_mono [OF untracked_fabric [OF q(1) False, where S = S]]) (use shrink in \<open>auto simp: marked_def\<close>)
  qed
qed

lemma wanted_nth:
  assumes "length (pod_networks ns p) = length (pod_interfaces ns p)"
  shows "(a, net) \<in> set (wanted E ns p) \<longleftrightarrow>
    (\<exists>j<length (pod_interfaces ns p). a = interface_port E (pod_node p) (pod_interfaces ns p ! j) \<and> net = pod_networks ns p ! j)"
proof -
  have "length (zip (map (interface_port E (pod_node p)) (pod_interfaces ns p)) (pod_networks ns p)) = length (pod_interfaces ns p)"
    using assms by simp
  then show ?thesis using assms unfolding wanted_def in_set_conv_nth by (auto simp del: length_zip)
qed

lemma isolated_move:
  assumes I: "isolated E s ns S N X ps h" and ok: "run_ok ns S ps h" and X: "ports_differ E N X"
    and p: "p \<in> set ps" and m: "stored_nads S h' = stored_nads S h" and f: "port_in E s ns p source target p' h h'"
  shows "isolated E s ns S N X (map (\<lambda>a. if a = p then p' else a) ps) h'"
proof -
  obtain i where i: "i < length (pod_interfaces ns p)" "pod_node p' = pod_node p" "pod_annotation p' MULTUS_ANNOTATION_KEY = pod_annotation p MULTUS_ANNOTATION_KEY"
    "length (pod_networks ns p) = length (pod_interfaces ns p)" "pod_networks ns p ! i = sanitize (net_name source)"
    "pod_networks ns p' = (pod_networks ns p)[i := sanitize (net_name target)]"
    "fabric s h' = insert (interface_port E (pod_node p) (pod_interfaces ns p ! i), sanitize (net_name target))
       (fabric s h - {(interface_port E (pod_node p) (pod_interfaces ns p ! i), sanitize (net_name source))})"
    using f unfolding port_in_def by blast
  let ?port = "interface_port E (pod_node p)" and ?x = "pod_interfaces ns p ! i" and ?t = "sanitize (net_name target)"
  have xs: "?x \<in> set (pod_interfaces ns p)" using i(1) by simp
  have same: "pod_interfaces ns p' = pod_interfaces ns p" using i(3) by (simp add: pod_interfaces_def)
  have N: "pod_node q \<in> N" "set (pod_interfaces ns q) \<subseteq> X" if "q \<in> set ps" for q
    using I that unfolding isolated_def by blast+
  have dist: "distinct (pod_interfaces ns p)" using ok p by (simp add: run_ok_def)
  have wanted: "(?port x, net) \<in> set (wanted E ns p) \<longleftrightarrow> (\<exists>j<length (pod_interfaces ns p). pod_interfaces ns p ! j = x \<and> net = pod_networks ns p ! j)"
    if "x \<in> set (pod_interfaces ns p)" for x net
  proof -
    have "y = x" if "y \<in> set (pod_interfaces ns p)" "?port y = ?port x" for y
      using ports_differD [OF X that(2) N(1) [OF p] N(1) [OF p]] N(2) [OF p] that(1) \<open>x \<in> set _\<close> by blast
    then show ?thesis using wanted_nth [OF i(4)] that by (metis nth_mem)
  qed
  have len: "length (pod_networks ns p') = length (pod_interfaces ns p')" using i(4,6) same by simp
  have F: "net = ?t \<or> (?port ?x, net) \<notin> fabric s h'" for net
  proof (cases "(?port ?x, net) \<in> fabric s h")
    case True
    then have "(?port ?x, net) \<in> set (wanted E ns p)" using I p xs unfolding isolated_def by blast
    then obtain j where j: "j < length (pod_interfaces ns p)" "pod_interfaces ns p ! j = ?x" "net = pod_networks ns p ! j"
      using wanted [OF xs] by blast
    then have "j = i" using dist i(1) by (simp add: nth_eq_iff_index_eq)
    then show ?thesis using j(3) i(5,7) by (simp del: sanitize.simps)
  qed (use i(7) in \<open>simp del: sanitize.simps\<close>)
  have old: "(port, net) \<in> fabric s h" if "(port, net) \<in> fabric s h'" "port \<noteq> ?port ?x" for port net
    using that i(7) by auto
  have t: "(?port ?x, ?t) \<in> set (wanted E ns p')"
    using i(1,2,4,6) by (auto simp: wanted_nth [OF len] same intro!: exI [of _ i] simp del: sanitize.simps)
  have w': "(?port x, net) \<in> set (wanted E ns p')" if x: "x \<in> set (pod_interfaces ns p)" "x \<noteq> ?x" "(?port x, net) \<in> set (wanted E ns p)" for x net
  proof -
    obtain j where j: "j < length (pod_interfaces ns p)" "pod_interfaces ns p ! j = x" "net = pod_networks ns p ! j"
      using wanted [OF x(1)] x(3) by blast
    then have "j \<noteq> i" using x(2) by blast
    then show ?thesis using j i(2,6) by (auto simp: wanted_nth [OF len] same intro!: exI [of _ j] simp del: sanitize.simps)
  qed
  have mine: "(?port x, net) \<in> set (wanted E ns p')" if x: "x \<in> set (pod_interfaces ns p)" "(?port x, net) \<in> fabric s h'" for x net
  proof (cases "x = ?x")
    case True
    then show ?thesis using F [of net] x(2) t by (simp del: sanitize.simps)
  next
    case False
    then have "?port x \<noteq> ?port ?x" using ports_differD [OF X _ N(1) [OF p] N(1) [OF p], of x ?x] N(2) [OF p] x(1) xs by blast
    then have "(?port x, net) \<in> set (wanted E ns p)" using old x I p unfolding isolated_def by blast
    then show ?thesis using w' x(1) False by blast
  qed
  have others: "(interface_port E (pod_node q) x, net) \<in> set (wanted E ns q)"
    if q: "q \<in> set ps" "q \<noteq> p" "x \<in> set (pod_interfaces ns q)" "(interface_port E (pod_node q) x, net) \<in> fabric s h'" for q x net
  proof -
    have "apart ns p q" using ok p q(1,2) by (auto simp: run_ok_def dest: apart_in)
    moreover have "?x \<in> X" "x \<in> X" using N(2) [OF p] xs N(2) [OF q(1)] q(3) by blast+
    ultimately have "interface_port E (pod_node q) x \<noteq> ?port ?x"
      using ports_differD [OF X _ N(1) [OF q(1)] N(1) [OF p], of x ?x] xs q(3) by (auto simp: apart_def)
    then show ?thesis using old q I unfolding isolated_def by blast
  qed
  show ?thesis unfolding isolated_def
  proof (intro conjI allI impI ballI)
    fix port net assume "(port, net) \<in> fabric s h'"
    then consider "port = ?port ?x" | "(port, net) \<in> fabric s h" using old by blast
    then show "\<exists>node\<in>N. \<exists>x\<in>X. port = interface_port E node x \<and> marked S h' ns node x"
    proof cases
      case 1
      moreover have "marked S h' ns (pod_node p) ?x" using ok p xs marked_same [OF m] by (simp add: run_ok_def)
      ultimately show ?thesis using N [OF p] xs by blast
    next
      case 2
      then show ?thesis using I m unfolding isolated_def marked_def by metis
    qed
  next
    show "single_valued (fabric s h')"
    proof (rule single_valuedI)
      fix port net net' assume "(port, net) \<in> fabric s h'" "(port, net') \<in> fabric s h'"
      then show "net = net'" using F old I unfolding isolated_def single_valued_def by metis
    qed
  next
    fix q x net assume "q \<in> set (map (\<lambda>a. if a = p then p' else a) ps)" "x \<in> set (pod_interfaces ns q)" "(interface_port E (pod_node q) x, net) \<in> fabric s h'"
    then show "(interface_port E (pod_node q) x, net) \<in> set (wanted E ns q)"
      using mine others same i(2) by (auto split: if_splits)
  next
    fix q assume "q \<in> set (map (\<lambda>a. if a = p then p' else a) ps)"
    then show "pod_node q \<in> N" using N(1) p i(2) by (auto split: if_splits)
  next
    fix q assume "q \<in> set (map (\<lambda>a. if a = p then p' else a) ps)"
    then obtain a where "a \<in> set ps" "q = (if a = p then p' else a)" by auto
    then show "set (pod_interfaces ns q) \<subseteq> X" using N(2) same by auto
  qed
qed

lemma isolated_run_isolated:
  assumes E: "serves_nads E S" "stores_pods E" "detaches E s" and X: "ports_differ E N X" "\<And>x. offered E ns x \<Longrightarrow> x \<in> X"
  shows "isolated_run E s ns S N ps h \<Longrightarrow> isolated E s ns S N X ps h"
proof (induction rule: isolated_run.induct)
  case (admit ps h req r h')
  show ?case
    by (rule isolated_admit [OF admit.IH X wpD [OF Handle_gained [OF E(1)] admit.hyps(2)] wpD [OF Handle_fabric admit.hyps(2)] admit.hyps(3)])
next
  case (reconcile ps h k x h')
  have ok: "run_ok ns S ps h" by (rule interface_run_ok [OF E(1) isolated_run_interfaces [OF E(2,3) reconcile.hyps(1)]])
  have st: "stored_nads S h' = stored_nads S h"
    using wpD [OF Reconcile_kept [OF E(1)] reconcile.hyps(3)] reconcile.hyps(2) by blast
  have f: "fabric s h' \<subseteq> fabric s h \<union> (case e_get_pod E h k of Inr q \<Rightarrow> if tracked q then set (wanted E ns q) else {} | Inl e \<Rightarrow> {})"
    by (rule wpD [OF reconcile_fabric [OF E(2)] reconcile.hyps(3)]) (use reconcile.hyps(2) in blast)
  show ?case
  proof (cases "\<exists>q. e_get_pod E h k = Inr q \<and> tracked q")
    case True
    then obtain q p where q: "e_get_pod E h k = Inr q" "tracked q" "p \<in> set ps" "same_pod q p" using reconcile.hyps(2) by blast
    then have "fabric s h' \<subseteq> fabric s h \<union> set (wanted E ns p)" using f same_pod_simps(3) [OF q(4)] by simp
    from isolated_grow [OF reconcile.IH ok X(1) q(3) this st] show ?thesis .
  next
    case False
    then have "fabric s h' \<subseteq> fabric s h" using f by (auto split: sum.splits if_splits)
    then show ?thesis by (rule isolated_shrink [OF reconcile.IH]) (simp_all add: marked_same [OF st])
  qed
next
  case (delete ps h k q p x h')
  have ok: "run_ok ns S ps h" by (rule interface_run_ok [OF E(1) isolated_run_interfaces [OF E(2,3) delete.hyps(1)]])
  show ?case by (rule wpD [OF isolated_delete [OF delete.IH ok X(1) E(1,3) delete.hyps(2-5)] delete.hyps(6)])
next
  case (move ps h p q source target x es)
  have ok: "run_ok ns S ps h" by (rule interface_run_ok [OF E(1) isolated_run_interfaces [OF E(2,3) move.hyps(1)]])
  have "\<forall>e\<in>set es. \<not> touches_nads e" using emitsD [OF emits_movePod move.hyps(4)] by auto
  then have st: "stored_nads S (es @ h) = stored_nads S h" by (rule stored_untouched)
  from E(2,3) move.hyps(4,5) show ?case
  proof (cases rule: movePod_cases [where ns = ns])
    case unstored
    then show ?thesis using isolated_shrink [OF move.IH unstored(2) subset_refl] by (simp add: marked_same [OF st])
  next
    case (stored p')
    have "port_in E s ns p source target p' h (es @ h)"
      using stored(2) move.hyps(3) same_pod_simps(1,2) [OF move.hyps(3)]
      by (simp add: port_in_def same_pod_def pod_networks_def annotation_of_pod del: sanitize.simps)
    from isolated_move [OF move.IH ok X(1) move.hyps(2) st this] show ?thesis using stored(1) by simp
  qed
next
  case (other ps h e)
  show ?case by (rule isolated_shrink [OF other.IH other.hyps(3)]) (use other.hyps(2) in auto)
qed (simp add: isolated_def)

text \<open>
  C1. The networks are isolated. Let the API server keep what it is sent, let the SDN controller accept every
  request to take a port out of a network, and let the interfaces be those of one overlay, whose name does not contain
  \<^verbatim>\<open>veth\<close>, on nodes whose
  switches have different identifiers. Then in every run of the webhook, the pod controller and the moves of the quarantine
  controller, in which the pods read are the admitted ones, a deleted pod is reconciled once and a moved pod can be stored,
  no switch port is in two networks, and the port of an admitted pod's interface is in no network but the one
  the pod's annotation names at that place, before and after a move. Attachments may be refused, steps may fail half-way,
  and pods come, move and go in any order. What these conditions leave out breaks it: a refused detachment (\<open>refused_detach_frees\<close>), ports of two overlays
  (\<open>ports_of_two_overlays\<close>), and a second reconciliation of a pod whose deletion stopped half-way, which frees
  interfaces that another pod may have by then.
\<close>

theorem networks_isolated:
  assumes "serves_nads E S" "stores_pods E" "detaches E s" "switch_ids E N"
    and "index_of ov ''veth'' = None" "\<forall>x. offered E ns x \<longrightarrow> x \<in> overlay_names ov"
    and "isolated_run E s ns S N ps h"
  shows "single_valued (fabric s h) \<and>
    (\<forall>p\<in>set ps. \<forall>x\<in>set (pod_interfaces ns p). \<forall>net. (interface_port E (pod_node p) x, net) \<in> fabric s h \<longrightarrow>
       (interface_port E (pod_node p) x, net) \<in> set (wanted E ns p))"
proof -
  have "ports_differ E N (overlay_names ov)"
    using interface_port_inj [OF assms(4,5)] unfolding ports_differ_def by blast
  then have "isolated E s ns S N (overlay_names ov) ps h"
    using isolated_run_isolated [OF assms(1-3) _ _ assms(7)] assms(6) by blast
  then show ?thesis unfolding isolated_def by blast
qed

text \<open>
  The number of a port does not tell overlays apart: interfaces of the same number in two
  overlays are one port of the switch, so the hypothesis on the names is needed.
\<close>

lemma ports_of_two_overlays:
  assumes "index_of ov ''veth'' = None" "index_of ov' ''veth'' = None"
  shows "interface_port E node (ov @ ''-veth'' @ dec i) = interface_port E node (ov' @ ''-veth'' @ dec i)"
  by (simp only: interface_port_def GetPortNumber_of_veth [OF assms(1)] GetPortNumber_of_veth [OF assms(2)] sum.case)

text \<open>An API server with two definitions, one network and a pod that the webhook has admitted.\<close>

definition iso_annotation :: network_annotation where
  "iso_annotation = GenerateIPv6Address 0 (new_annotation\<lparr>na_name := ''ov-veth1'', na_namespace := ''l2sm''\<rparr>)"

definition iso_pod :: pod where
  "iso_pod = sample_pod\<lparr>pod_meta := (pod_meta sample_pod)\<lparr>om_annotations := Some [L2SM_NETWORK_ANNOTATION \<mapsto> ''net'',
     MULTUS_ANNOTATION_KEY \<mapsto> MultusAnnotationToString [iso_annotation]]\<rparr>\<rparr>"

definition iso_env :: environment where
  "iso_env = two_env\<lparr>e_list_nets := \<lambda>_ _. Inr [a_network], e_get_pod := \<lambda>_ _. Inr iso_pod,
     e_http := \<lambda>_ m _ _ _. Inr (if m = ''GET'' then 200 else 204), e_get_quarantine := \<lambda>_ _. Inr quarantine,
     e_get_net := \<lambda>_ _. Inr (plain_network ''safe''), e_list_pods := \<lambda>_ _ _. Inr [iso_pod]\<rparr>"

lemma iso_env_simps:
  "e_list_nads iso_env h ns label = Inr (listed_two h ns label)" "e_update_nad iso_env h n = Inr n" "e_list_nets iso_env h q = Inr [a_network]"
  "e_update_net_status iso_env h net = Inr net" "e_rand64 iso_env h = 0" "e_valid_label_key iso_env key" "e_get_pod iso_env h k = Inr iso_pod"
  "e_update_pod iso_env h p = Inr p" "e_http iso_env h ''POST'' u a b = Inr 204" "e_http iso_env h ''DELETE'' u a b = Inr 204"
  "e_http iso_env h ''GET'' u a b = Inr 200" "e_url_error iso_env u = None" "e_switch_id iso_env nd pr = nd"
  "e_get_nad iso_env = e_get_nad two_env" "e_get_quarantine iso_env h k = Inr quarantine" "e_get_net iso_env h k = Inr (plain_network ''safe'')"
  "e_list_pods iso_env h g sel = Inr [iso_pod]" "e_selector iso_env ls = Inr []" "e_update_quarantine_status iso_env h q' = Inr q'"
  by (simp_all add: iso_env_def two_env_def quiet_env_def)

lemma iso_env_ok:
  "serves_nads iso_env two_nads" "stores_pods iso_env" "detaches iso_env s" "switch_ids iso_env {''n1''}"
  "\<forall>x. offered iso_env ''l2sm'' x \<longrightarrow> x \<in> overlay_names ''ov''" "index_of ''ov'' ''veth'' = None"
proof -
  show "serves_nads iso_env two_nads"
    using two_env_serves unfolding serves_nads_def iso_env_simps two_env_simps .
  show "stores_pods iso_env" by (simp add: stores_pods_def iso_env_simps same_pod_def)
  show "detaches iso_env s" by (simp add: detaches_def iso_env_simps)
  show "switch_ids iso_env {''n1''}" by (simp add: switch_ids_def iso_env_simps unescaped_def)
  have "nad_name n = ''ov-veth1'' \<or> nad_name n = ''ov-veth2''" if "n \<in> set (listed_two h ns label)" for n h ns label
    using that by (auto simp: listed_two_def List.map_filter_def nad_key_def split: option.splits if_splits)
  note names = this
  have two: "x \<in> {''ov-veth1'', ''ov-veth2''}" if o: "offered iso_env ''l2sm'' x" for x
  proof -
    from o obtain h l nads where l: "Inr (listed_two h ''l2sm'' l) = (Inr nads :: err + nad list)" "x \<in> nad_name ` set nads"
      unfolding offered_def iso_env_simps by (elim exE conjE)
    from l(2) obtain n where "x = nad_name n" "n \<in> set nads" by (rule imageE)
    then show ?thesis using names [of n h "''l2sm''" l] l(1) by simp
  qed
  have "dec 1 = ''1''" "dec 2 = ''2''" by code_simp+
  then have "{''ov-veth1'', ''ov-veth2''} = (\<lambda>i. ''ov'' @ ''-veth'' @ dec i) ` {1, 2}" by simp
  then have "{''ov-veth1'', ''ov-veth2''} \<subseteq> overlay_names ''ov''" unfolding overlay_names_def by (simp only: image_mono subset_UNIV)
  then show "\<forall>x. offered iso_env ''l2sm'' x \<longrightarrow> x \<in> overlay_names ''ov''" using two by blast
  show "index_of ''ov'' ''veth'' = None" by code_simp
qed

lemma iso_admitted:
  "\<exists>h. Handle iso_env \<lparr>pa_namespace = ''l2sm''\<rparr> (Inr sample_pod) [] = (Val (Patched iso_pod), h)"
proof -
  have keys: "L2SM_NETWORK_ANNOTATION \<noteq> ERROR_ANNOTATION" "L2SM_NETWORK_ANNOTATION \<noteq> MULTUS_ANNOTATION_KEY"
    by (simp_all add: L2SM_NETWORK_ANNOTATION_def ERROR_ANNOTATION_def MULTUS_ANNOTATION_KEY_def)
  have label: "nad_label ''n1'' = ''used-n1''" by (simp add: nad_label_def NET_ATTACH_LABEL_PREFIX_def)
  let ?n2 = "free_nad\<lparr>nad_meta := (nad_meta free_nad)\<lparr>om_name := ''ov-veth2''\<rparr>\<rparr>"
  have "nad_key free_nad = (''l2sm'', ''ov-veth1'')" "om_labels (nad_meta free_nad) = Some Map.empty" "om_namespace (nad_meta free_nad) = ''l2sm''"
    by (simp_all add: free_nad_def new_meta_def nad_key_def)
  then have l: "listed_two (ListedNets None (Inr [a_network]) # []) ''l2sm'' ''used-n1'' = [free_nad, ?n2]"
    by (simp add: listed_two_def List.map_filter_def untouched two_nads_def nad_key_def map_get_def)
  show ?thesis
    using keys l
    by (simp add: Handle_def select_node_def attach_networks_def Let_def sample_pod_def pod_annotation_def new_meta_def extract_net label
        GetL2NetworksMap_def GetFreeNetAttachDefs_def list_nets_def list_nads_def call_def gbind_def ret_def iso_env_simps
        existing_networks_def enumerate_eq_zip annotate_network_def nth_go_def assign_address_def zero_network_def a_network_def
        interface_address_def rand64_def store_assignment_def set_nad_label_def update_nad_def update_net_status_def free_nad_def
        glift_def new_annotation_def set_annotation_def iso_pod_def iso_annotation_def)
qed

lemma iso_pod_simps:
  "has_annotation iso_pod L2SM_NETWORK_ANNOTATION" "has_annotation iso_pod MULTUS_ANNOTATION_KEY" "pod_node iso_pod = ''n1''"
  "annotation_of iso_pod L2SM_NETWORK_ANNOTATION = ''net''" "annotation_of iso_pod MULTUS_ANNOTATION_KEY = MultusAnnotationToString [iso_annotation]"
  "om_finalizers (pod_meta iso_pod) = []" "\<not> om_deleted (pod_meta iso_pod)"
  by (simp_all add: iso_pod_def sample_pod_def new_meta_def has_annotation_def annotation_of_def L2SM_NETWORK_ANNOTATION_def MULTUS_ANNOTATION_KEY_def)

lemma iso_multus: "\<exists>a. ExtractNetworks (MultusAnnotationToString [iso_annotation]) ns = Inr [a] \<and> na_name a = ''ov-veth1''"
proof -
  have "sanitize ''ov-veth1'' = ''ov-veth1''" by (rule sanitize_unescaped) (simp add: unescaped_def)
  then have "na_name (clean_annotation iso_annotation) = ''ov-veth1''"
    by (simp del: sanitize.simps add: clean_annotation_def iso_annotation_def GenerateIPv6Address_def new_annotation_def Let_def)
  then show ?thesis by (simp add: ExtractNetworks_def decode_multus Let_def)
qed

lemma iso_attached:
  "\<exists>es. PodController.Reconcile iso_env (reconciler iso_env ping_session ''l2sm'') k h = (Val None,
     sent ping_session ''POST'' ''/vnets/api/port'' (payload_json (payload ''net'' [''of:n1/1''])) (Inr 204) # es @ h) \<and>
     (\<forall>e\<in>set es. \<forall>m u a b r. e \<noteq> Http m u a b r)"
proof -
  have "GetPortNumberFromNetAttachDef ''ov-veth1'' = Inr ''1''" by code_simp
  moreover obtain a where "ExtractNetworks (MultusAnnotationToString [iso_annotation]) ''l2sm'' = Inr [a]" "na_name a = ''ov-veth1''"
    using iso_multus by blast
  ultimately show ?thesis
    by (simp add: PodController.Reconcile_def attach_pod_def attach_pod_networks_def iso_pod_simps ping_networks GetL2Networks_def
      existing_networks_def iso_env_simps run_simps a_network_def new_annotation_def enumerate_eq_zip
      attach_network_def InternalClient_def internal_AttachPodToNetwork_def Post_def newRequest_def Do_def
      expect_status_def sent_def of_port_def new_meta_def)
qed

lemma iso_moved:
  assumes "net_name source = ''net''" "net_name target = ''safe''"
  shows "\<exists>s t es p'. movePodToTargetNetwork iso_env (InternalClient iso_env ping_session) iso_pod source target h = (Val ((s, t), Inr True), es @ h) \<and>
     view stored_pod es = [p'] \<and> (\<forall>a e. UpdatedPod a (Inl e) \<notin> set es) \<and> UpdatedPod p' (Inr p') \<in> set es \<and>
     (\<forall>g l y. ListedPods g l y \<notin> set es)"
proof -
  let ?nets = "[new_annotation\<lparr>na_name := ''net'', na_namespace := ''default''\<rparr>]"
  have p: "om_namespace (pod_meta iso_pod) = ''default''" by (simp add: iso_pod_def sample_pod_def new_meta_def)
  obtain p' where p': "set_annotation L2SM_NETWORK_ANNOTATION (MultusAnnotationToString (renamed_networks ?nets 0 ''safe'')) iso_pod = Val p'"
    by (simp add: set_annotation_def iso_pod_def)
  obtain a where a: "ExtractNetworks (MultusAnnotationToString [iso_annotation]) ''default'' = Inr [a]" "na_name a = ''ov-veth1''"
    using iso_multus by blast
  have port: "GetPortNumberFromNetAttachDef ''ov-veth1'' = Inr ''1''" by code_simp
  let ?es = "\<lambda>s t. [UpdatedNetStatus t (Inr t), UpdatedNetStatus s (Inr s), UpdatedPod p' (Inr p'),
      sent ping_session ''POST'' ''/vnets/api/port'' (payload_json (payload ''safe'' [''of:n1/1''])) (Inr 204),
      sent ping_session ''DELETE'' ''/vnets/api/port'' (payload_json (payload ''net'' [''of:n1/1''])) (Inr 204)]"
  have "\<exists>s t. movePodToTargetNetwork iso_env (InternalClient iso_env ping_session) iso_pod source target h = (Val ((s, t), Inr True), ?es s t @ h)"
    by (simp add: movePodToTargetNetwork_def Let_def iso_pod_simps p suspect_networks assms a port p' run_simps nth_go_def InternalClient_def
        internal_DetachPodFromNetwork_def internal_AttachPodToNetwork_def Post_def Delete_def newRequest_def Do_def expect_status_def sent_def
        iso_env_simps of_port_def updateNetworkStatuses_def split: prod.split)
  then obtain s t where m: "movePodToTargetNetwork iso_env (InternalClient iso_env ping_session) iso_pod source target h = (Val ((s, t), Inr True), ?es s t @ h)"
    by blast
  have "view stored_pod (?es s t) = [p']" "\<forall>a e. UpdatedPod a (Inl e) \<notin> set (?es s t)" "UpdatedPod p' (Inr p') \<in> set (?es s t)"
    "\<forall>g l y. ListedPods g l y \<notin> set (?es s t)" by (simp_all add: sent_def)
  with m show ?thesis by blast
qed

lemma iso_run:
  "\<exists>h. isolated_run iso_env ping_session ''l2sm'' two_nads {''n1''} [iso_pod] h \<and> fabric ping_session h = {(''of:n1/1'', ''net'')}"
proof -
  obtain h where h: "Handle iso_env \<lparr>pa_namespace = ''l2sm''\<rparr> (Inr sample_pod) [] = (Val (Patched iso_pod), h)"
    using iso_admitted by blast
  obtain es where es: "PodController.Reconcile iso_env (reconciler iso_env ping_session ''l2sm'') (''default'', ''ping'') h = (Val None,
     sent ping_session ''POST'' ''/vnets/api/port'' (payload_json (payload ''net'' [''of:n1/1''])) (Inr 204) # es @ h)"
    "\<forall>e\<in>set es. \<forall>m u a b r. e \<noteq> Http m u a b r" using iso_attached by blast
  let ?h = "sent ping_session ''POST'' ''/vnets/api/port'' (payload_json (payload ''net'' [''of:n1/1''])) (Inr 204) # es @ h"
  have "isolated_run iso_env ping_session ''l2sm'' two_nads {''n1''} [iso_pod] h"
    using isolated_run.admit [OF isolated_run.start h] by (simp add: iso_pod_simps)
  from isolated_run.reconcile [OF this _ es(1)]
  have "isolated_run iso_env ping_session ''l2sm'' two_nads {''n1''} [iso_pod] ?h"
    by (simp add: iso_env_simps iso_pod_simps same_pod_def)
  moreover have s: "sanitize ''of:n1/1'' = ''of:n1/1''" "sanitize ''net'' = ''net''"
    by (rule sanitize_unescaped; simp add: unescaped_def)+
  have "fabric ping_session h = {}" using wpD [OF Handle_fabric h] by simp
  then have "fabric ping_session (es @ h) = {}" using fabric_no_http [OF es(2)] by simp
  then have "fabric ping_session ?h = {(''of:n1/1'', ''net'')}"
    by (simp del: sanitize.simps add: fabric_effect_def sent_def decode_payload s)
  ultimately show ?thesis by blast
qed

theorem networks_isolated_witness:
  "\<exists>p h. isolated_run iso_env ping_session ''l2sm'' two_nads {''n1''} [p] h \<and> fabric ping_session h = {(''of:n1/1'', ''safe'')} \<and>
     single_valued (fabric ping_session h)"
proof -
  obtain h where h: "isolated_run iso_env ping_session ''l2sm'' two_nads {''n1''} [iso_pod] h"
    "fabric ping_session h = {(''of:n1/1'', ''net'')}" using iso_run by blast
  obtain s t gs p' where m: "movePodToTargetNetwork iso_env (InternalClient iso_env ping_session) iso_pod (plain_network ''net'') (plain_network ''safe'') h =
      (Val ((s, t), Inr True), gs @ h)"
    "view stored_pod gs = [p']" "\<forall>a e. UpdatedPod a (Inl e) \<notin> set gs"
    using iso_moved [OF suspect_simps(8) suspect_simps(8), of h] by blast
  have run: "isolated_run iso_env ping_session ''l2sm'' two_nads {''n1''} [p'] (gs @ h)"
    using isolated_run.move [OF h(1) _ _ m(1)] m(2,3) by (simp add: same_pod_def)
  have s: "sanitize ''of:n1/1'' = ''of:n1/1''" "sanitize ''net'' = ''net''" "sanitize ''safe'' = ''safe''"
    by (rule sanitize_unescaped; simp add: unescaped_def)+
  have "pod_interfaces ''l2sm'' iso_pod = [''ov-veth1'']"
    using iso_multus [of "''l2sm''"] iso_pod_simps(2,5) by (auto simp: pod_interfaces_def annotation_of_pod has_pod_annotation)
  moreover have "GetPortNumberFromNetAttachDef ''ov-veth1'' = Inr ''1''" by code_simp
  then have "interface_port iso_env (pod_node iso_pod) ''ov-veth1'' = ''of:n1/1''"
    by (simp del: sanitize.simps add: interface_port_def of_port_def iso_env_simps iso_pod_simps s)
  moreover have "port_in iso_env ping_session ''l2sm'' iso_pod (plain_network ''net'') (plain_network ''safe'') p' h (gs @ h)"
    by (rule movePod_cases [OF iso_env_ok(2,3) m(1)]) (use m(2,3) in auto)
  ultimately have "fabric ping_session (gs @ h) = {(''of:n1/1'', ''safe'')}"
    using h(2) by (auto simp: port_in_def suspect_simps s simp del: sanitize.simps)
  then show ?thesis using run networks_isolated [OF iso_env_ok(1-4,6,5) run] by blast
qed

section \<open>A refused detachment\<close>

lemma wp_detach_refused:
  assumes "\<forall>h b code. e_http E h ''DELETE'' (sc_base_url s @ ''/vnets/api/port'') (''Basic '' @ sc_auth_token s) b = Inr code \<longrightarrow> code \<notin> {200, 204}"
  shows "wp (cl_detach (InternalClient E s) t p) (\<lambda>r h'. \<exists>e es. r = Val (Some e) \<and> h' = es @ h \<and> stored_nads S h' = stored_nads S h \<and>
     fabric s h' = fabric s h \<and> (\<forall>q y. UpdatedPod q y \<notin> set es)) h"
  using assms
  by (auto simp: InternalClient_def internal_DetachPodFromNetwork_def Delete_def newRequest_def wp_simps Let_def
      expect_status_def sent_def fabric_effect_def untouched split: option.split sum.split)

text \<open>The interface is not marked any more, or its definition was not to be had.\<close>

definition freed :: "(key \<rightharpoonup> nad) \<Rightarrow> string \<Rightarrow> string \<Rightarrow> history \<Rightarrow> history \<Rightarrow> string \<Rightarrow> bool" where
  "freed S ns node es h x \<longleftrightarrow> \<not> marked S (es @ h) ns node x \<or> (\<exists>e. GotNad (ns, x) (Inl e) \<in> set es)"

definition release_refused_post :: "session_client \<Rightarrow> (key \<rightharpoonup> nad) \<Rightarrow> string \<Rightarrow> string \<Rightarrow> history \<Rightarrow> history \<Rightarrow> bool" where
  "release_refused_post s S ns node h es \<longleftrightarrow> fabric s (es @ h) = fabric s h \<and> (\<forall>q y. UpdatedPod q y \<notin> set es) \<and>
     (\<forall>x. marked S (es @ h) ns node x \<longrightarrow> marked S h ns node x)"

lemma release_refused:
  assumes E: "serves_nads E S" and i: "i < length multus"
    and refused: "\<forall>h b code. e_http E h ''DELETE'' (sc_base_url s @ ''/vnets/api/port'') (''Basic '' @ sc_auth_token s) b = Inr code \<longrightarrow> code \<notin> {200, 204}"
  shows "wp (release_interface E (reconciler E s ns) node multus (i, n) u) (\<lambda>r h'. \<exists>es. h' = es @ h \<and> release_refused_post s S ns node h es \<and>
     (r = Val (Inl None) \<or> r = Val (Inr ()) \<and> freed S ns node es h (na_name (multus ! i)))) h"
    (is "wp _ ?Q h")
proof (cases "GetPortNumberFromNetAttachDef (na_name (multus ! i))")
  case (Inl e)
  then show ?thesis using i by (auto simp: release_interface_def nth_go_def wp_simps release_refused_post_def intro!: exI [of _ "[]"])
next
  case (Inr k)
  let ?m = "na_name (multus ! i)"
  have store: "?Q (Val (Inr ())) (UpdatedNad (set_nad_label_alloc (nad_label node) ''false'' d) (Inr n2) # GotNad (ns, ?m) (Inr d) # es @ h)"
    if same: "stored_nads S (es @ h) = stored_nads S h" "fabric s (es @ h) = fabric s h" "\<forall>q y. UpdatedPod q y \<notin> set es"
      and d: "e_get_nad E (es @ h) (ns, ?m) = Inr d" and n2: "om_labels (nad_meta n2) = om_labels (nad_meta (set_nad_label_alloc (nad_label node) ''false'' d))"
    for es d n2
  proof -
    let ?d = "set_nad_label_alloc (nad_label node) ''false'' d" and ?h = "GotNad (ns, ?m) (Inr d) # es @ h"
    obtain f where f: "om_labels (nad_meta ?d) = Some f" "\<forall>l. l \<noteq> nad_label node \<longrightarrow> f l = map_get (om_labels (nad_meta d)) l" "f (nad_label node) = Some ''false''"
      by (cases "om_labels (nad_meta d)") (auto simp: set_nad_label_alloc_def map_put_alloc_def map_get_def)
    have key: "nad_key d = (ns, ?m)" "stored_nads S ?h (ns, ?m) = Some d" "nad_key ?d = (ns, ?m)"
      using serves_get [OF E d] by (simp_all add: untouched nad_key_def set_nad_label_alloc_def)
    have "marked S (UpdatedNad ?d (Inr n2) # ?h) ns node x \<longleftrightarrow> x \<noteq> ?m \<and> marked S h ns node x" for x
      using updated_mark [OF key(1,2), of n2 f node ?d] n2 f key(3) marked_same [of S ?h h] same(1) by (simp add: untouched)
    then show ?thesis using same
      by (intro exI [of _ "[UpdatedNad ?d (Inr n2), GotNad (ns, ?m) (Inr d)] @ es"]) (simp add: release_refused_post_def freed_def)
  qed
  have tail: "wp (gbind (get_nad E (ns, ?m)) (\<lambda>got. case got of
               Inl e \<Rightarrow> if is_not_found e then ret (Inr ()) else ret (Inl None)
             | Inr netAttachDef \<Rightarrow>
                 gbind (update_nad E (set_nad_label_alloc (nad_label node) ''false'' netAttachDef)) (\<lambda>x. case x of
                   Inl e \<Rightarrow> ret (Inl None)
                 | Inr _ \<Rightarrow> ret (Inr ())))) ?Q (es @ h)"
    if same: "stored_nads S (es @ h) = stored_nads S h" "fabric s (es @ h) = fabric s h" "\<forall>q y. UpdatedPod q y \<notin> set es" for es
  proof (cases "e_get_nad E (es @ h) (ns, ?m)")
    case (Inl e)
    have "release_refused_post s S ns node h (GotNad (ns, ?m) (Inl e) # es)" "freed S ns node (GotNad (ns, ?m) (Inl e) # es) h ?m"
      using same marked_same [of S "GotNad (ns, ?m) (Inl e) # es @ h" h ns node]
      by (auto simp: release_refused_post_def freed_def untouched)
    then show ?thesis using Inl by (simp add: wp_simps)
  next
    case (Inr d)
    let ?h = "GotNad (ns, ?m) (Inr d) # es @ h"
    obtain n2 where n2: "e_update_nad E ?h (set_nad_label_alloc (nad_label node) ''false'' d) = Inr n2"
      "om_labels (nad_meta n2) = om_labels (nad_meta (set_nad_label_alloc (nad_label node) ''false'' d))"
      using serves_update [OF E] by blast
    show ?thesis using store [OF same Inr n2(2)] Inr n2(1) by (simp add: wp_simps)
  qed
  show ?thesis
    unfolding release_interface_def nth_go_def
    using i Inr by (simp add: wp_gbind [of "glift _"] wp_glift wp_gbind [of "cl_detach _ _ _"])
      (rule wp_mono [OF wp_detach_refused [OF refused, where S = S]], use tail in auto)
qed

lemma freed_later:
  assumes "freed S ns node es h x" "\<forall>x. marked S (gs @ es @ h) ns node x \<longrightarrow> marked S (es @ h) ns node x"
  shows "freed S ns node (gs @ es) h x"
  using assms by (auto simp: freed_def)

lemma release_refused_loop:
  assumes E: "serves_nads E S" and len: "length multus = length annots"
    and refused: "\<forall>h b code. e_http E h ''DELETE'' (sc_base_url s @ ''/vnets/api/port'') (''Basic '' @ sc_auth_token s) b = Inr code \<longrightarrow> code \<notin> {200, 204}"
  shows "wp (gloop (release_interface E (reconciler E s ns) node multus) (enumerate 0 annots) ()) (\<lambda>r h'. \<exists>es. h' = es @ h \<and>
     release_refused_post s S ns node h es \<and>
     (r = Val (Inl None) \<or> r = Val (Inr ()) \<and> (\<forall>m\<in>set multus. freed S ns node es h (na_name m)))) h"
proof (rule wp_gloop [where I = "\<lambda>ds st h'. \<exists>es. h' = es @ h \<and> release_refused_post s S ns node h es \<and>
    (\<forall>m\<in>set (take (length ds) multus). freed S ns node es h (na_name m))"], goal_cases)
  case (1 ds x st w)
  then obtain fs where fs: "enumerate 0 annots = ds @ x # fs" by blast
  obtain i n where x: "x = (i, n)" by (cases x)
  have l: "length ds < length annots" using arg_cong [OF fs, of length] by simp
  have "x = enumerate 0 annots ! length ds" by (simp add: fs)
  then have i: "i = length ds" "i < length multus" using x l len by (simp_all add: nth_enumerate_eq)
  obtain es where es: "w = es @ h" "release_refused_post s S ns node h es" "\<forall>m\<in>set (take i multus). freed S ns node es h (na_name m)"
    using 1(2) i(1) by blast
  have stop: "release_refused_post s S ns node h (gs @ es)" if "release_refused_post s S ns node w gs" for gs
    using that es(1,2) by (auto simp: release_refused_post_def)
  have more: "\<forall>m\<in>set (take (Suc i) multus). freed S ns node (gs @ es) h (na_name m)"
    if g: "release_refused_post s S ns node w gs" "freed S ns node gs w (na_name (multus ! i))" for gs
  proof -
    have "freed S ns node (gs @ es) h (na_name m)" if "m \<in> set (take i multus)" for m
      using es(1,3) that g(1) by (intro freed_later) (auto simp: release_refused_post_def)
    moreover have "freed S ns node (gs @ es) h (na_name (multus ! i))" using g(2) es(1) by (auto simp: freed_def)
    ultimately show ?thesis using i(2) by (auto simp: take_Suc_conv_app_nth)
  qed
  have app: "gs @ w = (gs @ es) @ h" for gs using es(1) by simp
  show ?case unfolding x
  proof (rule wp_mono [OF release_refused [OF E i(2) refused]], goal_cases)
    case (1 r h')
    then obtain gs where gs: "h' = (gs @ es) @ h" "release_refused_post s S ns node w gs"
      "r = Val (Inl None) \<or> r = Val (Inr ()) \<and> freed S ns node gs w (na_name (multus ! i))" unfolding app by blast
    from gs(3) show ?case
    proof
      assume "r = Val (Inl None)"
      then show ?thesis using stop [OF gs(2)] gs(1) by (simp del: append_assoc)
    next
      assume r: "r = Val (Inr ()) \<and> freed S ns node gs w (na_name (multus ! i))"
      have "\<exists>es. h' = es @ h \<and> release_refused_post s S ns node h es \<and> (\<forall>m\<in>set (take (Suc i) multus). freed S ns node es h (na_name m))"
        using gs(1) stop [OF gs(2)] more [OF gs(2)] r by blast
      then show ?thesis using r i(1) by simp
    qed
  qed
next
  case (2 st w)
  then show ?case using len by auto
next
  case 3
  show ?case by (intro exI [of _ "[]"]) (simp add: release_refused_post_def)
qed

text \<open>
  C16. A refused detachment is forgotten. The reply of the SDN controller is only logged: when it refuses to take the
  ports of a deleted pod out of their networks, the reconciliation leaves them there, and if it
  gets as far as removing the finalizer, every interface of the pod whose definition could be read
  is free for the next pod.
\<close>

theorem refused_detach_frees:
  assumes E: "serves_nads E S" and q: "e_get_pod E h k = Inr q" "om_deleted (pod_meta q)" "tracked q"
    and refused: "\<forall>h b code. e_http E h ''DELETE'' (sc_base_url s @ ''/vnets/api/port'') (''Basic '' @ sc_auth_token s) b = Inr code \<longrightarrow> code \<notin> {200, 204}"
    and run: "PodController.Reconcile E (reconciler E s ns) k h = (x, es @ h)"
  shows "x = Val None \<and> fabric s (es @ h) = fabric s h \<and>
    (\<forall>p y. UpdatedPod p y \<in> set es \<longrightarrow> l2smFinalizer \<notin> set (om_finalizers (pod_meta p)) \<and>
       (\<forall>i\<in>set (pod_interfaces ns q). \<not> marked S (es @ h) ns (pod_node q) i \<or> (\<exists>e. GotNad (ns, i) (Inl e) \<in> set es)))"
proof -
  let ?h = "GotPod k (Inr q) # h"
  let ?Q = "\<lambda>r h'. \<exists>es. r = Val None \<and> h' = es @ ?h \<and> fabric s h' = fabric s h \<and>
    (\<forall>p y. UpdatedPod p y \<in> set es \<longrightarrow> l2smFinalizer \<notin> set (om_finalizers (pod_meta p)) \<and>
       (\<forall>i\<in>set (pod_interfaces ns q). freed S ns (pod_node q) es ?h i))"
  obtain annots multus where x: "ExtractNetworks (annotation_of q L2SM_NETWORK_ANNOTATION) ns = Inr annots"
    "ExtractNetworks (annotation_of q MULTUS_ANNOTATION_KEY) ns = Inr multus"
    using ExtractNetworks_total by meson
  have pi: "pod_interfaces ns q = map na_name multus"
    using x(2) q(3) by (auto simp: pod_interfaces_def annotation_of_pod has_pod_annotation tracked_def)
  let ?p = "set_finalizers (RemoveString (om_finalizers (pod_meta q)) l2smFinalizer) q"
  have loop: "wp (gbind (gloop (release_interface E (reconciler E s ns) (pod_node q) multus) (enumerate 0 annots) ())
      (\<lambda>x. case x of Inl e \<Rightarrow> ret e | Inr _ \<Rightarrow> gbind (update_pod E ?p) (\<lambda>_. ret None))) ?Q ?h"
    if len: "length multus = length annots"
    unfolding wp_gbind
  proof (rule wp_mono [OF release_refused_loop [OF E len refused]], goal_cases)
    case (1 r h')
    then obtain es where es: "h' = es @ ?h" "release_refused_post s S ns (pod_node q) ?h es"
      "r = Val (Inl None) \<or> r = Val (Inr ()) \<and> (\<forall>m\<in>set multus. freed S ns (pod_node q) es ?h (na_name m))" by blast
    from es(3) show ?case
    proof
      assume r: "r = Val (Inr ()) \<and> (\<forall>m\<in>set multus. freed S ns (pod_node q) es ?h (na_name m))"
      let ?u = "UpdatedPod ?p (e_update_pod E h' ?p)"
      have "freed S ns (pod_node q) (?u # es) ?h (na_name m)" if "m \<in> set multus" for m
        using freed_later [of S ns "pod_node q" es ?h "na_name m" "[?u]"] r that marked_same [of S "?u # es @ ?h" "es @ ?h"]
        by (simp add: untouched)
      then have "?Q (Val None) (?u # h')"
        using es(1,2) by (intro exI [of _ "?u # es"]) (auto simp: pi release_refused_post_def RemoveString_filter)
      then show ?thesis using r by (simp add: wp_simps)
    qed (use es in \<open>auto simp: wp_simps release_refused_post_def\<close>)
  qed
  have "wp (delete_pod E (reconciler E s ns) q) ?Q ?h"
    using loop q(3) by (auto simp: delete_pod_def Let_def x wp_ret tracked_def split del: if_split split: if_splits)
  then have "wp (PodController.Reconcile E (reconciler E s ns) k) ?Q h"
    using q(2) by (intro wp_Reconcile_tracked [OF q(1,3)]) simp
  from wpD [OF this run] obtain fs where fs: "x = Val None" "es @ h = fs @ ?h" "fabric s (es @ h) = fabric s h"
    "\<forall>p y. UpdatedPod p y \<in> set fs \<longrightarrow> l2smFinalizer \<notin> set (om_finalizers (pod_meta p)) \<and>
       (\<forall>i\<in>set (pod_interfaces ns q). freed S ns (pod_node q) fs ?h i)" by blast
  have es: "es = fs @ [GotPod k (Inr q)]" using fs(2) by simp
  then have "UpdatedPod p y \<in> set es \<Longrightarrow> UpdatedPod p y \<in> set fs" for p y by simp
  moreover have "\<not> marked S (es @ h) ns (pod_node q) i \<or> (\<exists>e. GotNad (ns, i) (Inl e) \<in> set es)"
    if "freed S ns (pod_node q) fs ?h i" for i
    using that es by (auto simp: freed_def)
  ultimately show ?thesis using fs(1,3,4) by blast
qed

text \<open>The pod is deleted, and the SDN controller answers 500.\<close>

definition refuse_env :: environment where
  "refuse_env = iso_env\<lparr>e_get_pod := \<lambda>_ _. Inr (iso_pod\<lparr>pod_meta := (pod_meta iso_pod)\<lparr>om_deleted := True, om_finalizers := [l2smFinalizer]\<rparr>\<rparr>),
     e_http := \<lambda>_ _ _ _ _. Inr 500\<rparr>"

definition used_nad :: nad where
  "used_nad = free_nad\<lparr>nad_meta := (nad_meta free_nad)\<lparr>om_labels := Some [''used-n1'' \<mapsto> ''true'']\<rparr>\<rparr>"

theorem refused_detach_frees_witness:
  "\<exists>es h p y. PodController.Reconcile refuse_env (reconciler refuse_env ping_session ''l2sm'') (''default'', ''ping'') h = (Val None, es @ h) \<and>
     UpdatedPod p y \<in> set es \<and> (''of:n1/1'', ''net'') \<in> fabric ping_session (es @ h) \<and>
     marked two_nads h ''l2sm'' ''n1'' ''ov-veth1'' \<and> \<not> marked two_nads (es @ h) ''l2sm'' ''n1'' ''ov-veth1''"
proof -
  let ?q = "iso_pod\<lparr>pod_meta := (pod_meta iso_pod)\<lparr>om_deleted := True, om_finalizers := [l2smFinalizer]\<rparr>\<rparr>"
  let ?h = "[sent ping_session ''POST'' ''/vnets/api/port'' (payload_json (payload ''net'' [''of:n1/1''])) (Inr 204), UpdatedNad used_nad (Inr used_nad)]"
  have label: "nad_label ''n1'' = ''used-n1''" by (simp add: nad_label_def NET_ATTACH_LABEL_PREFIX_def)
  have nad: "nad_key used_nad = (''l2sm'', ''ov-veth1'')" "om_labels (nad_meta used_nad) = Some [''used-n1'' \<mapsto> ''true'']"
    by (simp_all add: used_nad_def free_nad_def new_meta_def nad_key_def)
  have env: "e_get_pod refuse_env h k = Inr ?q" "e_http refuse_env h m u a b = Inr 500" "e_url_error refuse_env u = None" "e_update_nad refuse_env h n = Inr n"
    "e_update_pod refuse_env h p = Inr p" "e_switch_id refuse_env nd pr = nd" "e_get_nad refuse_env = e_get_nad two_env"
    "e_list_nads refuse_env h x label = Inr (listed_two h x label)" for h k m u a b n p nd pr x label
    by (simp_all add: refuse_env_def iso_env_def two_env_def quiet_env_def)
  have E: "serves_nads refuse_env two_nads"
    using two_env_serves unfolding serves_nads_def env two_env_simps .
  have q: "has_annotation ?q L2SM_NETWORK_ANNOTATION" "has_annotation ?q MULTUS_ANNOTATION_KEY" "pod_node ?q = ''n1''"
    "annotation_of ?q L2SM_NETWORK_ANNOTATION = ''net''" "annotation_of ?q MULTUS_ANNOTATION_KEY = MultusAnnotationToString [iso_annotation]"
    using iso_pod_simps(1-5) by (simp_all add: has_annotation_def annotation_of_def)
  obtain a where a: "ExtractNetworks (MultusAnnotationToString [iso_annotation]) ''l2sm'' = Inr [a]" "na_name a = ''ov-veth1''"
    using iso_multus by blast
  have port: "GetPortNumberFromNetAttachDef ''ov-veth1'' = Inr ''1''" by code_simp
  have st: "e_get_nad two_env [Http m u b c r, GotPod k z, Http m' u' b' c' r', UpdatedNad used_nad (Inr used_nad)] (''l2sm'', ''ov-veth1'') = Inr used_nad"
    for m u b c r k z m' u' b' c' r'
    using nad by (simp add: two_env_def untouched nad_effect_def)
  obtain es p y where run: "PodController.Reconcile refuse_env (reconciler refuse_env ping_session ''l2sm'') (''default'', ''ping'') ?h = (Val None, es @ ?h)"
    and upd: "UpdatedPod p y \<in> set es" and got: "\<forall>e. GotNad (''l2sm'', ''ov-veth1'') (Inl e) \<notin> set es"
  proof (rule that)
    let ?p = "set_finalizers [] ?q" and ?n = "set_nad_label_alloc ''used-n1'' ''false'' used_nad"
    let ?es = "[UpdatedPod ?p (Inr ?p), UpdatedNad ?n (Inr ?n), GotNad (''l2sm'', ''ov-veth1'') (Inr used_nad),
      sent ping_session ''DELETE'' ''/vnets/api/port'' (payload_json (payload ''net'' [''of:n1/1''])) (Inr 500), GotPod (''default'', ''ping'') (Inr ?q)]"
    show "PodController.Reconcile refuse_env (reconciler refuse_env ping_session ''l2sm'') (''default'', ''ping'') ?h = (Val None, ?es @ ?h)"
      using q(1,2) by (simp add: PodController.Reconcile_def delete_pod_def Let_def env q(3-) ping_networks a port run_simps enumerate_eq_zip label
        release_interface_def InternalClient_def internal_DetachPodFromNetwork_def Delete_def newRequest_def Do_def new_annotation_def
        expect_status_def sent_def of_port_def st RemoveString_filter)
    show "UpdatedPod ?p (Inr ?p) \<in> set ?es" by simp
    show "\<forall>e. GotNad (''l2sm'', ''ov-veth1'') (Inl e) \<notin> set ?es" by (simp add: sent_def)
  qed
  have ifs: "pod_interfaces ''l2sm'' ?q = [''ov-veth1'']"
    using q(2,5) a by (auto simp: pod_interfaces_def annotation_of_pod has_pod_annotation)
  have "sanitize ''of:n1/1'' = ''of:n1/1''" "sanitize ''net'' = ''net''" by (rule sanitize_unescaped; simp add: unescaped_def)+
  then have "(''of:n1/1'', ''net'') \<in> fabric ping_session ?h"
    by (simp del: sanitize.simps add: fabric_effect_def sent_def decode_payload)
  moreover have "marked two_nads ?h ''l2sm'' ''n1'' ''ov-veth1''"
    using nad by (simp add: marked_def untouched sent_def nad_effect_def label map_get_def)
  moreover have "fabric ping_session (es @ ?h) = fabric ping_session ?h \<and> \<not> marked two_nads (es @ ?h) ''l2sm'' ''n1'' ''ov-veth1''"
    using refused_detach_frees [OF E env(1) _ _ _ run] q(1,2,3) upd got ifs by (simp add: tracked_def env) blast
  ultimately show ?thesis using run upd by metis
qed

section \<open>A whole quarantine request\<close>

text \<open>A call that leaves the marks alone and puts no port anywhere.\<close>

definition quiet :: "session_client \<Rightarrow> event \<Rightarrow> bool" where
  "quiet s e \<longleftrightarrow> \<not> touches_nads e \<and> accepted_attach s e = None"

lemma isolated_run_quiet:
  assumes "isolated_run E s ns S N ps h" "\<forall>e\<in>set es. quiet s e"
  shows "isolated_run E s ns S N ps (es @ h)"
  using assms(2)
proof (induction es)
  case (Cons e es)
  then have r: "isolated_run E s ns S N ps (es @ h)" and q: "\<not> touches_nads e" "accepted_attach s e = None" by (auto simp: quiet_def)
  have "fabric s (e # es @ h) \<subseteq> fabric s (es @ h)" using fabric_unattached [of "[e]" s "es @ h"] q(2) by simp
  then have "isolated_run E s ns S N ps (e # es @ h)" using q(1) by (intro isolated_run.other [OF r]) (simp_all add: marked_def untouched)
  then show ?case by simp
qed (simp add: assms(1))

text \<open>
  Since \<open>h\<close> something of \<open>B\<close> has happened, or the run has gone on with the pods \<open>qs\<close> on their ports, those of \<open>ms\<close> still as they were.
\<close>

definition same_ports :: "pod \<Rightarrow> pod \<Rightarrow> bool" where
  "same_ports q p \<longleftrightarrow> pod_node q = pod_node p \<and> pod_annotation q MULTUS_ANNOTATION_KEY = pod_annotation p MULTUS_ANNOTATION_KEY"

definition went_on :: "environment \<Rightarrow> session_client \<Rightarrow> string \<Rightarrow> (key \<rightharpoonup> nad) \<Rightarrow> string set \<Rightarrow> pod list \<Rightarrow> (event \<Rightarrow> bool) \<Rightarrow> history \<Rightarrow>
    pod list \<Rightarrow> history \<Rightarrow> bool" where
  "went_on E s ns S N qs B h ms h' \<longleftrightarrow> (\<exists>es. h' = es @ h \<and> ((\<exists>e\<in>set es. B e) \<or>
     (\<exists>ps. isolated_run E s ns S N ps h' \<and> list_all2 same_ports ps qs \<and> set ms \<subseteq> set ps)))"

lemma went_on_fewer: "went_on E s ns S N qs B h ms h' \<Longrightarrow> set ms' \<subseteq> set ms \<Longrightarrow> went_on E s ns S N qs B h ms' h'"
  unfolding went_on_def by blast

lemma wp_went_on:
  assumes m: "emits (quiet s) m" and w: "went_on E s ns S N qs B h ms w"
  shows "wp m (\<lambda>r. went_on E s ns S N qs B h ms) w"
proof (rule wp_mono [OF wp_emits [OF m]])
  fix r w' assume "\<exists>gs. w' = gs @ w \<and> (\<forall>e\<in>set gs. quiet s e)"
  then obtain gs where gs: "w' = gs @ w" "\<forall>e\<in>set gs. quiet s e" by blast
  from w obtain es where es: "w = es @ h" "(\<exists>e\<in>set es. B e) \<or>
     (\<exists>ps. isolated_run E s ns S N ps w \<and> list_all2 same_ports ps qs \<and> set ms \<subseteq> set ps)" unfolding went_on_def by blast
  have "w' = (gs @ es) @ h" using gs(1) es(1) by simp
  moreover have "(\<exists>e\<in>set (gs @ es). B e) \<or> (\<exists>ps. isolated_run E s ns S N ps w' \<and> list_all2 same_ports ps qs \<and> set ms \<subseteq> set ps)"
    using es(2) isolated_run_quiet [OF _ gs(2)] gs(1) by auto
  ultimately show "went_on E s ns S N qs B h ms w'" unfolding went_on_def by blast
qed

lemma movePod_went_on:
  assumes E: "stores_pods E" "detaches E s" and B: "\<forall>a e. B (UpdatedPod a (Inl e))" and w: "went_on E s ns S N qs B h (m # ms) w" "distinct (m # ms)" "same_pod q m"
  shows "wp (movePodToTargetNetwork E (InternalClient E s) q source target) (\<lambda>r. went_on E s ns S N qs B h ms) w"
proof (rule wpI)
  fix x w' assume m: "movePodToTargetNetwork E (InternalClient E s) q source target w = (x, w')"
  obtain gs where gs: "w' = gs @ w" using emitsD [OF emits_movePod m] by blast
  from w(1) obtain es where es: "w = es @ h" "(\<exists>e\<in>set es. B e) \<or>
     (\<exists>ps. isolated_run E s ns S N ps w \<and> list_all2 same_ports ps qs \<and> set (m # ms) \<subseteq> set ps)" unfolding went_on_def by blast
  have app: "w' = (gs @ es) @ h" using gs es(1) by simp
  show "went_on E s ns S N qs B h ms w'"
  proof (cases "\<exists>e\<in>set (gs @ es). B e")
    case True
    then show ?thesis using app unfolding went_on_def by blast
  next
    case False
    then obtain ps where ps: "isolated_run E s ns S N ps w" "list_all2 same_ports ps qs" "m \<in> set ps" "set ms \<subseteq> set ps" using es(2) by auto
    have none: "UpdatedPod a (Inl e) \<notin> set gs" for a e using False B by auto
    note m = m [unfolded gs]
    note next_run = isolated_run.move [OF ps(1) ps(3) w(3) m none]
    have "\<exists>ps'. isolated_run E s ns S N ps' w' \<and> list_all2 same_ports ps' qs \<and> set ms \<subseteq> set ps'"
      using E m none
    proof (cases rule: movePod_cases [where ns = ns])
      case unstored
      then show ?thesis using next_run ps gs by auto
    next
      case (stored p')
      have "set ms \<subseteq> set (map (\<lambda>a. if a = m then p' else a) ps)" using ps(4) w(2) by force
      moreover have "same_ports p' m" using stored(2) w(3) by (auto simp: port_in_def same_ports_def same_pod_def)
      then have "list_all2 same_ports (map (\<lambda>a. if a = m then p' else a) ps) qs"
        by (auto simp: list_all2_map1 same_ports_def intro: list_all2_mono [OF ps(2)])
      ultimately show ?thesis using next_run stored(1) gs by (intro exI [of _ "map (\<lambda>a. if a = m then p' else a) ps"]) simp
    qed
    then show ?thesis using app unfolding went_on_def by blast
  qed
qed

lemma movePod_untracked: "\<not> tracked q \<Longrightarrow> movePodToTargetNetwork E c q source target = ret ((source, target), Inr False)"
  by (auto simp: movePodToTargetNetwork_def tracked_def Let_def)

lemma emits_status: "emits (quiet s) (setQuarantineStatus E request st rs ms a b i j)"
  unfolding setQuarantineStatus_def Let_def by (intro emits_intros) (simp add: quiet_def touches_nads_def)

lemma quarantine_pod_went_on:
  assumes E: "stores_pods E" "detaches E s" and B: "\<forall>a e. B (UpdatedPod a (Inl e))" and w: "went_on E s ns S N qs B h ms w" "distinct ms"
    and q: "tracked q \<Longrightarrow> \<exists>m ms'. ms = m # ms' \<and> same_pod q m"
  shows "wp (quarantine_pod E (InternalClient E s) request q st)
    (\<lambda>r. went_on E s ns S N qs B h (if tracked q then tl ms else ms)) w"
proof -
  let ?ms = "if tracked q then tl ms else ms"
  have sub: "set ?ms \<subseteq> set ms" by (cases ms) auto
  have stay: "went_on E s ns S N qs B h ?ms w" by (rule went_on_fewer [OF w(1) sub])
  obtain i j source target where st: "st = ((i, j), source, target)" by (metis prod.collapse)
  have move: "wp (movePodToTargetNetwork E (InternalClient E s) q source target) (\<lambda>r. went_on E s ns S N qs B h ?ms) w"
  proof (cases "tracked q")
    case True
    then obtain m ms' where m: "ms = m # ms'" "same_pod q m" using q by blast
    show ?thesis using movePod_went_on [OF E B w(1) [unfolded m(1)] w(2) [unfolded m(1)] m(2)] True m(1) by simp
  next
    case False
    then show ?thesis using w(1) by (simp add: movePod_untracked wp_ret)
  qed
  have "wp (case r of ((source, target), Inl e) \<Rightarrow> gbind (setQuarantineStatus E request ''False'' ''PodMoveFailed'' e (net_name source) (net_name target) i j) (\<lambda>err. ret (Inl err))
      | ((source, target), Inr True) \<Rightarrow> ret (Inr ((i + 1, j + 1), source, target))
      | ((source, target), Inr False) \<Rightarrow> ret (Inr ((i, j), source, target))) (\<lambda>r. went_on E s ns S N qs B h ?ms) w'"
    if "went_on E s ns S N qs B h ?ms w'" for r :: "(l2network \<times> l2network) \<times> (err + bool)" and w'
    by (rule wp_went_on [OF _ that]) (auto intro!: emits_intros emits_status split: prod.split sum.split bool.split)
  then show ?thesis unfolding quarantine_pod_def st Let_def prod.case wp_if wp_ret wp_gbind [of "movePodToTargetNetwork _ _ _ _ _"]
    using stay by (auto intro!: wp_mono [OF move] split: flow.split)
qed

text \<open>The pods listed are readings of different admitted pods, as far as they concern the operator.\<close>

definition reads_admitted :: "pod list \<Rightarrow> pod list \<Rightarrow> pod list \<Rightarrow> bool" where
  "reads_admitted items ms ps \<longleftrightarrow> list_all2 same_pod (filter tracked items) ms \<and> distinct ms \<and> set ms \<subseteq> set ps"

lemma quarantine_loop_went_on:
  assumes E: "stores_pods E" "detaches E s" and B: "\<forall>a e. B (UpdatedPod a (Inl e))" and w: "went_on E s ns S N qs B h ps w" and r: "reads_admitted items ms ps"
  shows "wp (gloop (quarantine_pod E (InternalClient E s) request) items st) (\<lambda>r. went_on E s ns S N qs B h []) w"
proof (rule wp_gloop [where I = "\<lambda>ds st w. \<exists>ms. list_all2 same_pod (filter tracked (drop (length ds) items)) ms \<and> distinct ms \<and> went_on E s ns S N qs B h ms w"],
    goal_cases)
  case (1 ds q st w)
  then obtain ys ms where items: "items = ds @ q # ys" and ms: "list_all2 same_pod (filter tracked (q # ys)) ms" "distinct ms" "went_on E s ns S N qs B h ms w"
    by auto
  let ?ms = "if tracked q then tl ms else ms"
  have head: "\<exists>m ms'. ms = m # ms' \<and> same_pod q m" if "tracked q" using ms(1) that by (auto simp: list_all2_Cons1)
  have rest: "list_all2 same_pod (filter tracked ys) ?ms" "distinct ?ms"
    using ms(1,2) by (auto simp: list_all2_Cons1 intro: distinct_tl)
  show ?case
    by (rule wp_mono [OF quarantine_pod_went_on [OF E B ms(3,2) head]])
      (use items rest went_on_fewer [of E s ns S N qs B h ?ms _ "[]"] in \<open>auto split: flow.split sum.split\<close>)
next
  case (2 st w)
  then show ?case by (auto dest: went_on_fewer [where ms' = "[]"])
next
  case 3
  then show ?case using r went_on_fewer [OF w, of ms] unfolding reads_admitted_def by (intro exI [of _ ms]) simp
qed

lemma quiet_bind:
  assumes "emits (quiet s) m" "went_on E s ns S N qs B h ms w"
    and "\<And>v w'. went_on E s ns S N qs B h ms w' \<Longrightarrow> wp (k v) (\<lambda>r. went_on E s ns S N qs B h []) w'"
  shows "wp (gbind m k) (\<lambda>r. went_on E s ns S N qs B h []) w"
  unfolding wp_gbind
  by (rule wp_mono [OF wp_went_on [OF assms(1,2)]])
    (use assms(3) in \<open>auto split: flow.split dest: went_on_fewer [where ms' = "[]"]\<close>)

lemma quiet_end:
  assumes "emits (quiet s) m" "went_on E s ns S N qs B h ms w"
  shows "wp m (\<lambda>r. went_on E s ns S N qs B h []) w"
  by (rule wp_went_on [OF assms(1)]) (use assms(2) went_on_fewer [where ms' = "[]"] in simp)

lemma emits_quiet_calls:
  "emits (quiet s) (get_quarantine E k)" "emits (quiet s) (get_net E l)" "emits (quiet s) (list_pods E a b)"
  "emits (quiet s) (cl_exists (InternalClient E s) t m)" "emits (quiet s) (resolveSourceNetwork E rq)"
proof -
  have "emits (quiet s) (Get E c u)" for c u
    by (auto simp: emits_def Get_def newRequest_def Do_def run_simps sent_def quiet_def touches_nads_def split: option.splits)
  then show "emits (quiet s) (cl_exists (InternalClient E s) t m)"
    unfolding InternalClient_def sdn_client.simps internal_CheckNetworkExists_def
    by (auto intro!: emits_gbind emits_ret split: sum.split)
  show "emits (quiet s) (resolveSourceNetwork E rq)"
    unfolding resolveSourceNetwork_def Let_def
    by (auto intro!: emits_intros emits_status simp: quiet_def touches_nads_def split: sum.split list.split)
qed (intro emits_intros; simp add: quiet_def touches_nads_def)+

lemma emits_quarantine_loop: "emits (\<lambda>e. True) (gloop (quarantine_pod E (InternalClient E s) request) items st)"
  unfolding quarantine_pod_def setQuarantineStatus_def Let_def
  by (rule emits_gloop) (auto intro!: emits_intros emits_weaken [OF emits_movePod] split: prod.split)

lemma quarantine_pods_went_on:
  assumes E: "stores_pods E" "detaches E s" and B: "\<forall>a e. B (UpdatedPod a (Inl e))" and w: "went_on E s ns S N qs B h ps w"
    and listed: "\<And>l sel items. B (ListedPods l sel (Inr items)) \<or> (\<exists>ms. reads_admitted items ms ps)"
  shows "wp (quarantine_pods E (InternalClient E s) namespace request source target) (\<lambda>r. went_on E s ns S N qs B h []) w"
proof (cases "e_selector E (qs_pods (qr_selector (qp_spec request)))")
  case (Inl e)
  then show ?thesis using quiet_end [OF emits_status w] by (simp add: quarantine_pods_def)
next
  case (Inr sel)
  let ?x = "e_list_pods E w namespace sel"
  have "emits (quiet s) (list_pods E namespace sel)" by (rule emits_quiet_calls)
  from wp_went_on [OF this w] have w': "went_on E s ns S N qs B h ps (ListedPods namespace sel ?x # w)" by (simp add: wp_simps)
  show ?thesis
  proof (cases ?x)
    case (Inl e)
    then show ?thesis using w' Inr by (simp add: quarantine_pods_def wp_simps went_on_fewer [of E s ns S N qs B h ps _ "[]"])
  next
    case items: (Inr items)
    have loop: "wp (gloop (quarantine_pod E (InternalClient E s) request) items ((0, 0), source, target))
      (\<lambda>r. went_on E s ns S N qs B h []) (ListedPods namespace sel ?x # w)"
    proof (cases "B (ListedPods namespace sel ?x)")
      case True
      obtain es where "w = es @ h" using w unfolding went_on_def by blast
      then have "went_on E s ns S N qs B h [] (gs @ ListedPods namespace sel ?x # w)" for gs
        using True unfolding went_on_def by (intro exI [of _ "gs @ ListedPods namespace sel ?x # es"]) simp
      moreover have "emits (\<lambda>e. True) (gloop (quarantine_pod E (InternalClient E s) request) items ((0, 0), source, target))"
        by (rule emits_quarantine_loop)
      ultimately show ?thesis by (intro wp_mono [OF wp_emits]) auto
    next
      case False
      then obtain ms where r: "reads_admitted items ms ps" using listed items by metis
      show ?thesis by (rule quarantine_loop_went_on [OF E B w' r])
    qed
    show ?thesis unfolding quarantine_pods_def Inr sum.case wp_gbind wp_list_pods flow.case items
      by (rule wp_mono [OF loop [unfolded items]])
        (auto simp: wp_ret split: flow.split sum.split intro: quiet_end [OF emits_status])
  qed
qed

text \<open>
  C8. A whole quarantine request refines the moves. When the SDN controller accepts every detachment, the request lists readings of admitted pods, each of them once, and
  the API server stores the pods that are moved, a reconciliation of the quarantine controller is a run of single moves and of calls that
  neither mark an interface nor attach a port, over the same pods on the same ports: what holds in every run of
  webhook, pod controller and moves, the isolation of the networks among it, then holds after whole requests.
  Without the storing it fails: the port has moved and the annotation has not.
\<close>

theorem quarantine_request_runs:
  assumes "stores_pods E" "detaches E s" and "isolated_run E s ns S N ps h"
    and "Quarantine.Reconcile E (quarantine_reconciler E s) k h = (x, es @ h)"
    and "\<forall>l sel items. ListedPods l sel (Inr items) \<in> set es \<longrightarrow> (\<exists>ms. reads_admitted items ms ps)"
    and "\<forall>a e. UpdatedPod a (Inl e) \<notin> set es"
  shows "\<exists>ps'. isolated_run E s ns S N ps' (es @ h) \<and> list_all2 same_ports ps' ps"
proof -
  let ?B = "\<lambda>e. (\<exists>a x. e = UpdatedPod a (Inl x)) \<or> (\<exists>l sel items. e = ListedPods l sel (Inr items) \<and> (\<nexists>ms. reads_admitted items ms ps))"
  let ?W = "\<lambda>ms h'. went_on E s ns S N ps ?B h ms h'"
  have w: "?W ps h" unfolding went_on_def using assms(3) by (intro exI [of _ "[]"]) (auto simp: same_ports_def intro!: exI [of _ ps] list_all2_refl)
  have B: "\<forall>a e. ?B (UpdatedPod a (Inl e))" by blast
  have l: "?B (ListedPods l sel (Inr items)) \<or> (\<exists>ms. reads_admitted items ms ps)" for l sel items by blast
  have "wp (Quarantine.Reconcile E (quarantine_reconciler E s) k) (\<lambda>r. ?W []) h"
    unfolding Quarantine.Reconcile_def Let_def
    by (rule quiet_bind [OF emits_quiet_calls(1) w])
      (auto intro!: quiet_bind [OF emits_quiet_calls(5)] quiet_bind [OF emits_quiet_calls(2)] quiet_bind [OF emits_quiet_calls(4)]
        quiet_end [OF emits_ret] quiet_end [OF emits_gpanic] quiet_end [OF emits_status] quarantine_pods_went_on [OF assms(1,2) B _ l]
        split: sum.split option.split bool.split simp del: not_ex)
  from wpD [OF this assms(4)] show ?thesis using assms(5,6) unfolding went_on_def by blast
qed

theorem quarantine_request_runs_witness:
  "\<exists>es h ps'. Quarantine.Reconcile iso_env (quarantine_reconciler iso_env ping_session) (''default'', ''q'') h = (Val None, es @ h) \<and>
     isolated_run iso_env ping_session ''l2sm'' two_nads {''n1''} ps' (es @ h) \<and> list_all2 same_ports ps' [iso_pod] \<and>
     (\<exists>p'. UpdatedPod p' (Inr p') \<in> set es)"
proof -
  obtain h where h: "isolated_run iso_env ping_session ''l2sm'' two_nads {''n1''} [iso_pod] h" using iso_run by blast
  have n: "net_name a_network = ''net''" by (simp add: a_network_def new_meta_def)
  let ?pre = "\<lambda>y. [ListedPods ''default'' [] (Inr [iso_pod]), sent ping_session ''GET'' ''/vnets/api/safe'' [] (Inr 200),
      GotNet (''default'', ''safe'') (Inr (plain_network ''safe'')), ListedNets (Some (''default'', [])) (Inr [a_network]),
      GotQuarantine (''default'', ''q'') (Inr quarantine)] @ y"
  obtain s t gs p' where m: "movePodToTargetNetwork iso_env (InternalClient iso_env ping_session) iso_pod a_network (plain_network ''safe'') (?pre h) =
      (Val ((s, t), Inr True), gs @ ?pre h)"
    "\<forall>a e. UpdatedPod a (Inl e) \<notin> set gs" "UpdatedPod p' (Inr p') \<in> set gs" "\<forall>g l y. ListedPods g l y \<notin> set gs"
    using iso_moved [OF n suspect_simps(8), of "?pre h"] by blast
  have q: "qr_target (qp_spec quarantine) = ''safe''" "om_namespace (qp_meta quarantine) = ''default''"
    by (simp_all add: quarantine_def new_meta_def)
  have c: "cl_exists (InternalClient iso_env ping_session) ty ''safe'' w =
      (Val (Inr True), sent ping_session ''GET'' ''/vnets/api/safe'' [] (Inr 200) # w)" for ty w
    by (simp add: InternalClient_def internal_CheckNetworkExists_def Get_def newRequest_def Do_def run_simps iso_env_simps sent_def)
  have "\<exists>q. Quarantine.Reconcile iso_env (quarantine_reconciler iso_env ping_session) (''default'', ''q'') h =
      (Val None, (UpdatedQuarantineStatus q (Inr q) # gs @ ?pre []) @ h)"
    using m(1) by (simp add: Quarantine.Reconcile_def resolveSourceNetwork_def run_simps iso_env_simps q Let_def suspect_simps n c quarantine_pods_def
        quarantine_pod_def iso_pod_simps setQuarantineStatus_def case_prod_beta)
  then obtain q where r: "Quarantine.Reconcile iso_env (quarantine_reconciler iso_env ping_session) (''default'', ''q'') h =
      (Val None, (UpdatedQuarantineStatus q (Inr q) # gs @ ?pre []) @ h)" by blast
  have "reads_admitted [iso_pod] [iso_pod] [iso_pod]" by (simp add: reads_admitted_def same_pod_def tracked_def iso_pod_simps)
  then have "\<exists>ps'. isolated_run iso_env ping_session ''l2sm'' two_nads {''n1''} ps' ((UpdatedQuarantineStatus q (Inr q) # gs @ ?pre []) @ h) \<and>
      list_all2 same_ports ps' [iso_pod]"
    using m(2,4) by (intro quarantine_request_runs [OF iso_env_ok(2,3) h r]) (auto simp: sent_def)
  moreover have "UpdatedPod p' (Inr p') \<in> set (UpdatedQuarantineStatus q (Inr q) # gs @ ?pre [])" using m(3) by simp
  ultimately show ?thesis using r by metis
qed

end
