(* ===== verification/HostPort.thy ===== *)
theory HostPort
  imports Utils
begin

text \<open>
  \<^verbatim>\<open>ChangePortNumber\<close> of \<^verbatim>\<open>internal/utils/utils.go\<close>, over \<^verbatim>\<open>net.SplitHostPort\<close> and
  \<^verbatim>\<open>net.JoinHostPort\<close> of the Go library, with what it does to an address.
\<close>

section \<open>Host and port (package net)\<close>

fun index_byte :: "char \<Rightarrow> string \<Rightarrow> nat option" where
  "index_byte c [] = None"
| "index_byte c (x # s) = (if x = c then Some 0 else map_option Suc (index_byte c s))"

fun last_index_byte :: "char \<Rightarrow> string \<Rightarrow> nat option" where
  "last_index_byte c [] = None"
| "last_index_byte c (x # s) = (case last_index_byte c s of
     Some i \<Rightarrow> Some (Suc i) | None \<Rightarrow> if x = c then Some 0 else None)"

definition addr_error :: "string \<Rightarrow> string \<Rightarrow> err" where
  "addr_error addr why = errorf ''address %s: %s'' [addr, why]"

definition split_checked :: "string \<Rightarrow> string \<Rightarrow> nat \<Rightarrow> nat \<Rightarrow> nat \<Rightarrow> err + string \<times> string" where
  "split_checked hostport host i j k =
     (if index_byte CHR ''['' (drop j hostport) \<noteq> None then Inl (addr_error hostport (''unexpected '' @ [CHR 0x27] @ ''['' @ [CHR 0x27] @ '' in address''))
      else if index_byte CHR '']'' (drop k hostport) \<noteq> None then Inl (addr_error hostport (''unexpected '' @ [CHR 0x27] @ '']'' @ [CHR 0x27] @ '' in address''))
      else Inr (host, drop (i + 1) hostport))"

definition SplitHostPort :: "string \<Rightarrow> err + string \<times> string" where
  "SplitHostPort hostport =
     (let missingPort = ''missing port in address''; tooManyColons = ''too many colons in address''
      in case last_index_byte CHR '':'' hostport of
           None \<Rightarrow> Inl (addr_error hostport missingPort)
         | Some i \<Rightarrow>
             if starts_with ''['' hostport then
               (case index_byte CHR '']'' hostport of
                  None \<Rightarrow> Inl (addr_error hostport (''missing '' @ [CHR 0x27] @ '']'' @ [CHR 0x27] @ '' in address''))
                | Some e \<Rightarrow>
                    if e + 1 = length hostport then Inl (addr_error hostport missingPort)
                    else if e + 1 = i then split_checked hostport (take (e - 1) (drop 1 hostport)) i 1 (e + 1)
                    else if hostport ! (e + 1) = CHR '':'' then Inl (addr_error hostport tooManyColons)
                    else Inl (addr_error hostport missingPort))
             else
               (let host = take i hostport
                in if index_byte CHR '':'' host \<noteq> None then Inl (addr_error hostport tooManyColons)
                   else split_checked hostport host i 0 0))"

definition JoinHostPort :: "string \<Rightarrow> string \<Rightarrow> string" where
  "JoinHostPort host port =
     (if index_byte CHR '':'' host \<noteq> None then ''['' @ host @ '']:'' @ port else host @ '':'' @ port)"

section \<open>ChangePortNumber (utils.go)\<close>

definition ChangePortNumber :: "string \<Rightarrow> string \<Rightarrow> string" where
  "ChangePortNumber address newPort =
     (case SplitHostPort address of
        Inl e \<Rightarrow> address
      | Inr (host, _) \<Rightarrow> JoinHostPort host newPort)"

section \<open>Positions\<close>

lemma index_byte_None [simp]: "index_byte c s = None \<longleftrightarrow> c \<notin> set s"
  by (induction s) auto

lemma index_byte_first: "c \<notin> set s \<Longrightarrow> index_byte c (s @ c # t) = Some (length s)"
  by (induction s) auto

lemma index_byte_before: "index_byte c s = Some i \<Longrightarrow> c \<notin> set (take i s)"
  by (induction s arbitrary: i) (auto split: if_splits)

lemma last_index_byte_absent: "c \<notin> set t \<Longrightarrow> last_index_byte c t = None"
  by (induction t) auto

lemma last_index_byte_last: "c \<notin> set t \<Longrightarrow> last_index_byte c (s @ c # t) = Some (length s)"
  by (induction s) (simp_all add: last_index_byte_absent)

section \<open>Splitting what was joined\<close>

lemma SplitHostPort_Join:
  assumes h: "CHR ''['' \<notin> set host" "CHR '']'' \<notin> set host" and p: "set port \<inter> {CHR '':'', CHR ''['', CHR '']''} = {}"
  shows "SplitHostPort (JoinHostPort host port) = Inr (host, port)"
proof (cases "CHR '':'' \<in> set host")
  case True
  let ?a = "(CHR ''['' # host @ [CHR '']'']) @ CHR '':'' # port"
  have a: "JoinHostPort host port = ?a" using True by (simp add: JoinHostPort_def)
  have i: "last_index_byte CHR '':'' ?a = Some (length host + 2)" using p by (subst last_index_byte_last) auto
  have "?a = (CHR ''['' # host) @ CHR '']'' # CHR '':'' # port" by simp
  then have e: "index_byte CHR '']'' ?a = Some (length host + 1)"
    using h index_byte_first [of "CHR '']''" "CHR ''['' # host" "CHR '':'' # port"] by simp
  show ?thesis unfolding a SplitHostPort_def i Let_def option.case e
    using h p by (simp add: starts_with_def split_checked_def)
next
  case False
  have a: "JoinHostPort host port = host @ CHR '':'' # port" using False by (simp add: JoinHostPort_def)
  have i: "last_index_byte CHR '':'' (host @ CHR '':'' # port) = Some (length host)" using p by (intro last_index_byte_last) auto
  have "\<not> starts_with ''['' (host @ CHR '':'' # port)" using h by (cases host) (auto simp: starts_with_def)
  then show ?thesis unfolding a SplitHostPort_def i Let_def option.case
    using h p False by (simp add: split_checked_def)
qed

lemma SplitHostPort_host:
  assumes "SplitHostPort a = Inr (host, port)"
  shows "CHR ''['' \<notin> set host \<and> CHR '']'' \<notin> set host"
proof (cases "starts_with ''['' a")
  case True
  then obtain b where b: "a = CHR ''['' # b" by (cases a) (auto simp: starts_with_def)
  from assms True obtain e i where e: "index_byte CHR '']'' a = Some e"
    and c: "split_checked a (take (e - 1) (drop 1 a)) i 1 (e + 1) = Inr (host, port)"
    by (auto simp: SplitHostPort_def Let_def split: option.splits if_splits)
  have "host = take (e - 1) b" "CHR ''['' \<notin> set b" using c b by (auto simp: split_checked_def split: if_splits)
  moreover have "CHR '']'' \<notin> set (take (e - 1) b)" using index_byte_before [OF e] b by (cases e) auto
  ultimately show ?thesis by (auto dest: in_set_takeD)
next
  case False
  then obtain i where "split_checked a (take i a) i 0 0 = Inr (host, port)"
    using assms by (auto simp: SplitHostPort_def Let_def split: option.splits if_splits)
  then show ?thesis by (auto simp: split_checked_def split: if_splits dest: in_set_takeD)
qed

text \<open>
  C32. Of several ports given to an address the last one counts: for ports without colons and
  brackets, changing the port twice is changing it once, whatever the address is, and the
  port of a joined address is replaced and the host kept, an IPv6 host in its brackets.
\<close>

theorem change_port_again:
  assumes "set q \<inter> {CHR '':'', CHR ''['', CHR '']''} = {}"
  shows "ChangePortNumber (ChangePortNumber a q) r = ChangePortNumber a r \<and>
    (CHR ''['' \<notin> set host \<and> CHR '']'' \<notin> set host \<longrightarrow> ChangePortNumber (JoinHostPort host q) r = JoinHostPort host r)"
  using SplitHostPort_Join [OF _ _ assms] SplitHostPort_host [of a]
  by (fastforce simp: ChangePortNumber_def split: sum.split)

theorem change_port_again_witness:
  "ChangePortNumber (ChangePortNumber ''[fe80::1]:53'' ''80'') ''443'' = ''[fe80::1]:443'' \<and>
   ChangePortNumber (ChangePortNumber ''sdn'' ''80'') ''443'' = ''sdn''"
proof -
  have "ChangePortNumber ''[fe80::1]:53'' ''443'' = ''[fe80::1]:443''" "ChangePortNumber ''sdn'' ''443'' = ''sdn''" by code_simp+
  then show ?thesis using change_port_again [of "''80''"] by simp
qed

end
