(* ===== verification/Hashing.thy ===== *)
theory Hashing
  imports GoNet GoJson
begin

text \<open>
  \<^verbatim>\<open>GenerateHash\<close> and \<^verbatim>\<open>SpecToJson\<close> of \<^verbatim>\<open>internal/utils/utils.go\<close>. The Kubernetes serializer is a
  parameter: what it writes into the buffer, and the error it returns. SHA-1 is that of \<^verbatim>\<open>crypto/sha1\<close>.
\<close>

unbundle bit_operations_syntax

section \<open>SHA-1 (crypto/sha1)\<close>

fun be_words :: "string \<Rightarrow> 32 word list" where
  "be_words (a # b # c # d # s) =
     (((of_nat (byte a) * 256 + of_nat (byte b)) * 256 + of_nat (byte c)) * 256 + of_nat (byte d)) # be_words s"
| "be_words _ = []"

fun be_bytes :: "nat \<Rightarrow> nat \<Rightarrow> string" where
  "be_bytes 0 n = []"
| "be_bytes (Suc k) n = be_bytes k (n div 256) @ [char_of (n mod 256)]"

definition word_bytes :: "32 word \<Rightarrow> string" where
  "word_bytes w = map (\<lambda>k. char_of (unat (drop_bit k w AND 255))) [24, 16, 8, 0]"

text \<open>The message, one bit, zeros up to 8 bytes before a block's end, the length in bits.\<close>

definition sha1_pad :: "string \<Rightarrow> string" where
  "sha1_pad s = s @ char_of (0x80 :: nat) # replicate ((119 - length s mod 64) mod 64) (char_of (0 :: nat)) @ be_bytes 8 (8 * length s)"

text \<open>The message schedule, newest word first.\<close>

fun sha1_expand :: "nat \<Rightarrow> 32 word list \<Rightarrow> 32 word list" where
  "sha1_expand 0 w = w"
| "sha1_expand (Suc n) w = sha1_expand n (word_rotl 1 (w ! 2 XOR w ! 7 XOR w ! 13 XOR w ! 15) # w)"

type_synonym sha1_state = "32 word \<times> 32 word \<times> 32 word \<times> 32 word \<times> 32 word"

fun sha1_round :: "sha1_state \<Rightarrow> nat \<times> 32 word \<Rightarrow> sha1_state" where
  "sha1_round (a, b, c, d, e) (t, w) =
     (let f = (if t < 20 then (b AND c) OR (NOT b AND d) else if t < 40 then b XOR c XOR d
               else if t < 60 then (b AND c) OR (b AND d) OR (c AND d) else b XOR c XOR d);
          k = (if t < 20 then 0x5A827999 else if t < 40 then 0x6ED9EBA1 else if t < 60 then 0x8F1BBCDC else 0xCA62C1D6)
      in (word_rotl 5 a + f + e + w + k, a, word_rotl 30 b, c, d))"

fun sha1_add :: "sha1_state \<Rightarrow> sha1_state \<Rightarrow> sha1_state" where
  "sha1_add (a, b, c, d, e) (a', b', c', d', e') = (a + a', b + b', c + c', d + d', e + e')"

definition sha1_block :: "sha1_state \<Rightarrow> 32 word list \<Rightarrow> sha1_state" where
  "sha1_block h ws = sha1_add h (foldl sha1_round h (enumerate 0 (rev (sha1_expand 64 (rev ws)))))"

fun chunks :: "nat \<Rightarrow> 'a list \<Rightarrow> 'a list list" where
  "chunks n xs = (if xs = [] \<or> n = 0 then [] else take n xs # chunks n (drop n xs))"

declare chunks.simps [simp del]

definition sha1 :: "string \<Rightarrow> string" where
  "sha1 s = (let (a, b, c, d, e) = foldl sha1_block (0x67452301, 0xEFCDAB89, 0x98BADCFE, 0x10325476, 0xC3D2E1F0)
       (chunks 16 (be_words (sha1_pad s)))
     in concat (map word_bytes [a, b, c, d, e]))"

section \<open>The functions of utils.go\<close>

definition hex_encode :: "string \<Rightarrow> string" where
  "hex_encode s = concat (map (\<lambda>c. pad0 2 (hex (byte c))) s)"

text \<open>\<open>encode obj\<close> is what the serializer writes and the error it returns, if any.\<close>

definition GenerateHash :: "('o \<Rightarrow> string \<times> err option) \<Rightarrow> 'o \<Rightarrow> string" where
  "GenerateHash encode obj =
     (case encode obj of
        (b, Some e) \<Rightarrow> []
      | (b, None) \<Rightarrow> hex_encode (take 5 (sha1 b)))"

definition SpecToJson :: "('o \<Rightarrow> string \<times> err option) \<Rightarrow> 'o \<Rightarrow> string" where
  "SpecToJson encode obj = fst (encode obj)"

text \<open>The padded message is a whole number of blocks, and the hash has 20 bytes.\<close>

lemma length_be_bytes [simp]: "length (be_bytes k n) = k"
  by (induction k arbitrary: n) simp_all

lemma sha1_pad_blocks: "64 dvd length (sha1_pad s)"
proof -
  have "(r + 1 + (119 - r) mod 64 + 8) mod 64 = 0" if "r < 64" for r :: nat
  proof (cases "r \<le> 55")
    case True
    then have "(119 - r) mod 64 = 55 - r" using mod_add_self2 [of "55 - r" 64] by simp
    then show ?thesis using True by simp
  qed (use that in simp)
  from this [of "length s mod 64"] have "(length s mod 64 + (1 + (119 - length s mod 64) mod 64 + 8)) mod 64 = 0"
    by (simp add: ac_simps)
  then have "(length s + (1 + (119 - length s mod 64) mod 64 + 8)) mod 64 = 0" by (simp only: mod_add_left_eq)
  then show ?thesis by (simp add: sha1_pad_def mod_eq_0_iff_dvd algebra_simps)
qed

lemma length_sha1: "length (sha1 s) = 20"
  by (simp add: sha1_def word_bytes_def split: prod.split)

text \<open>
  The hash of an object is empty exactly when the serializer fails, whatever it has
  written by then; otherwise it is ten hexadecimal digits.
\<close>

lemma of_char_less_256: "byte c < 256"
  using nat_of_char_less_256 by simp

lemma length_hex_encode: "length (hex_encode s) = 2 * length s"
proof (induction s)
  case (Cons c s)
  have "length (hex (byte c)) \<le> 2" using of_char_less_256 [of c] by (intro hex_length_le) simp_all
  then have "length (pad0 2 (hex (byte c))) = 2" by (simp add: length_pad0)
  then show ?case using Cons by (simp add: hex_encode_def)
qed (simp add: hex_encode_def)

lemma GenerateHash_text:
  "GenerateHash encode obj = [] \<longleftrightarrow> snd (encode obj) \<noteq> None"
  "GenerateHash encode obj \<noteq> [] \<longrightarrow> length (GenerateHash encode obj) = 10"
proof -
  have "length (hex_encode (take 5 (sha1 b))) = 10" for b by (simp add: length_hex_encode length_sha1)
  moreover from this have "hex_encode (take 5 (sha1 b)) \<noteq> []" for b by (metis list.size(3) zero_neq_numeral)
  ultimately show "GenerateHash encode obj = [] \<longleftrightarrow> snd (encode obj) \<noteq> None" "GenerateHash encode obj \<noteq> [] \<longrightarrow> length (GenerateHash encode obj) = 10"
    by (auto simp: GenerateHash_def split: prod.splits option.splits)
qed

end
