(* ===== verification/Spec2Isabelle.thy ===== *)
theory Spec2Isabelle
  imports Utils IPAlloc AddressPool Annotations Monitoring PodWebhook PodController Ids NetworkController
    Quarantine Overlay Ned Manager Interfaces Pools Isolation HostPort Hashing
begin

text \<open>
  L2S-M is a Kubernetes operator that gives pods extra layer-2 networks. This development
  models its Go code (\<^verbatim>\<open>api/v1\<close>, \<^verbatim>\<open>internal\<close> and \<^verbatim>\<open>cmd\<close> under \<^verbatim>\<open>src\<close>) and proves what its
  controllers keep, return and leave behind.

  \<^bold>\<open>The program.\<close> Five reconcilers and one admission webhook run inside
  controller-runtime. A network (\<^verbatim>\<open>L2Network\<close>) is created in an SDN controller over HTTP. A
  pod that asks for networks in an annotation passes the webhook, which gives it one free
  Multus attachment definition of its node and one address per network; the pod reconciler then
  attaches the ports of those interfaces to the networks in the SDN controller, and frees them
  when the pod is deleted. A quarantine request moves the selected pods from one network to
  another. An overlay or a network edge device (NED) starts the software switches that the SDN
  controller drives and, with a monitor, collectors and an exporter of measurements, which have
  a network of their own.

  \<^bold>\<open>How a program is a definition.\<close> A Go function without effects is a HOL function;
  an error result is a sum (\<open>Inl\<close> the error) or an option. A function with effects is a value
  of type \<open>('w, 'a) go\<close> (Prelude): from a world to an outcome (a value, a panic, or a loop
  that never ends) and the next world. The world of a controller is its history: the list
  of the calls it has made to the outside, newest first, with their replies (Cluster). Replies
  are functions of the history in an \<open>environment\<close> \<open>E\<close>, a parameter of everything, so that a
  theorem holds for every behaviour of the API server, the SDN controllers and the gRPC
  services. \<open>gloop\<close> is a \<^verbatim>\<open>range\<close> loop whose body may return from the function. The
  predicate transformer \<open>wp\<close> computes postconditions; \<open>emits\<close> says which calls a program can
  make. \<open>controller_run\<close> is the inductive set of histories a controller can be in: its own
  reconciliations, in any order and number, interleaved with calls of others.

  \<^bold>\<open>Theories and sources.\<close>
  \<^item> Prelude: programs, postconditions, Go maps, lists; \<open>controller_run\<close> and the locale
    \<open>controller\<close>. GoStrings, GoNet, GoJson: what the program uses of \<^verbatim>\<open>strings\<close>, \<^verbatim>\<open>strconv\<close>,
    \<^verbatim>\<open>fmt\<close>, \<^verbatim>\<open>net\<close> and \<^verbatim>\<open>encoding/json\<close>.
  \<^item> Types: the records of \<^verbatim>\<open>api/v1\<close> and of the Kubernetes objects. Cluster: calls.
  \<^item> Utils: \<^verbatim>\<open>internal/utils/utils.go\<close>, \<^verbatim>\<open>naming.go\<close>, \<^verbatim>\<open>internal/env\<close>; HostPort and Hashing: the
    functions of \<^verbatim>\<open>utils.go\<close> over \<^verbatim>\<open>net.SplitHostPort\<close> and over the serializer and SHA-1. IPAlloc:
    \<^verbatim>\<open>internal/utils/ip.go\<close>. AddressPool: \<^verbatim>\<open>GetNextAvailableIP\<close> of
    \<^verbatim>\<open>internal/controller/pod_utils.go\<close>; PodUtils: the rest of that file.
  \<^item> Annotations: \<^verbatim>\<open>internal/networkannotation\<close>. SdnClient: \<^verbatim>\<open>internal/sdnclient\<close>. Talpa:
    \<^verbatim>\<open>internal/talpainterface\<close>. Dns: \<^verbatim>\<open>internal/dnsinterface\<close>. Lpm: \<^verbatim>\<open>internal/lpminterface\<close>.
    Monitoring: \<^verbatim>\<open>internal/monitoringnetwork\<close>. Ids: \<^verbatim>\<open>internal/ids\<close>.
  \<^item> PodWebhook, PodController, NetworkController, Quarantine, Overlay, Ned: the files of
    \<^verbatim>\<open>internal/controller\<close>. SwitchPods: what the last two share. Each has the whole
    \<^verbatim>\<open>Reconcile\<close> (\<^verbatim>\<open>Handle\<close>), split at its branches and loops.
  \<^item> Manager: \<^verbatim>\<open>cmd/main.go\<close> and the \<^verbatim>\<open>SetupWithManager\<close> functions. The state is what was
    registered with controller-runtime, whose replies are the record \<open>runtime\<close>; the sessions opened
    with the SDN controller are events of the same history the reconcilers write.
  \<^item> Interfaces: the webhook and the pod controller together with an API server that keeps the
    attachment definitions it is sent (\<open>stored_nads\<close>); \<open>interface_run\<close> is the inductive set of
    the pods that hold interfaces and the histories that can lead there. Pools: the address pools
    of networks, which the webhook and the quarantine controller change. Isolation: these two
    and the quarantine controller's moves together with the SDN controller, whose state is what the
    accepted requests add up to (\<open>fabric\<close>: pairs of a port and a network, decoded from the
    bodies); \<open>isolated_run\<close> refines \<open>interface_run\<close>. This theory: the other
    properties of two components at once.

  \<^bold>\<open>What is proved.\<close>
  \<^item> Controllers. The finalizer of a pod is stored before any attach request leaves the
    controller (\<open>pod_finalizer_guards_attach\<close>), and goes only after its interfaces were released;
    a network gets or loses its finalizer only after the SDN controller accepted its creation
    or deletion (\<open>network_stored_after_consent\<close>); pods are stored as moved only after the SDN
    controller accepted the move of one of their interfaces (\<open>quarantine_stores_moved_pods\<close>); an overlay is released
    only after its definitions were asked to be deleted and its monitoring network was deleted (\<open>overlay_finalizer\<close>). These hold of
    every history in \<open>controller_run\<close>. Next to them: what a reconciliation does on success and on
    each failure, which failures are retried, and in which states it panics.
  \<^item> Webhook. Each network asked for gets one interface and an address that is not taken
    (\<open>webhook_assigns_interfaces\<close>, \<open>webhook_records_fresh_address\<close>).
  \<^item> Across components. What the webhook writes into a pod the pod reconciler reads, and the
    definitions an overlay creates are the interfaces both count on: no two pods of a node
    hold the same interface (\<open>interfaces_exclusive\<close>), unless the webhook saw an old listing
    (\<open>webhook_stale_listing\<close>); no switch port is ever in two networks, and a pod's port is only where its
    annotation says (\<open>networks_isolated\<close>), with one overlay, in runs where a deleted pod is reconciled once,
    and as long as the SDN controller lets ports go: one it keeps
    is given to the next pod all the same (\<open>refused_detach_frees\<close>); a whole quarantine request whose pods can be
    stored is a run of single moves (\<open>quarantine_request_runs\<close>); an admitted pod is
    attached with one port of the overlay per network (\<open>admitted_pod_is_attached\<close>). The field
    index of the set-up finds the switches an overlay created, so it creates them once
    (\<open>overlay_created_once\<close>). \<open>main\<close> starts the manager only when everything was registered
    (\<open>operator_starts\<close>).
  \<^item> Addresses. The search returns the first free address it visits; when it does not end;
    when it leaves the pool. Pools keep their form (\<open>pools_well_formed\<close>). \<open>AllocateIPv4s\<close> returns distinct usable hosts, for
    a range that does not overflow; the exact condition of its success includes the one that does (\<open>AllocateIPv4s_accepts\<close>).
  \<^item> Data. The annotation round trip, names, ports, the resources of collectors,
    exporters and IDS.
  \<^item> Behaviour that differs from the intention of the code is stated as such, and listed in
    the manifest: a half-done move, a creation that cannot be resumed, a spread factor that is
    lost, a pool that is left, one address given twice, panics on optional fields.

  \<^bold>\<open>Interfaces.\<close> \<open>sdn_operation\<close> is the contract of one SDN operation (at most one
  request, success exactly when it was accepted); \<open>sdn_network_client\<close> and
  \<open>sdn_port_client\<close> extend it to the Go interface \<^verbatim>\<open>Client\<close> and are interpreted on both
  implementations (\<open>external\<close>, \<open>internal\<close>); the callers use the operations only through them.
  \<open>exporter\<close> is how a strategy of the exporter assembles its objects, interpreted on both strategies; what
  Kubernetes and Prometheus make of the objects is proved from it once.
  \<open>controller\<close> turns what one reconciliation guarantees into what every run does, interpreted on
  four reconcilers.

  \<^bold>\<open>Termination and fuel.\<close> The JSON parser takes one unit of fuel per byte, and more
  changes nothing (\<open>parse_value_fuel\<close>). The search for an address is a \<open>partial_function\<close>:
  \<open>None\<close> is the loop that never ends, which \<open>next_ip_never_exhausted\<close> characterises. All other loops
  run over lists and are structural; a reconciler of edge devices is shown to return.

  \<^bold>\<open>Integers.\<close> The \<^verbatim>\<open>uint32\<close> and 64-bit random values are words; the sum that \<open>AllocateIPv4s\<close> checks wraps
  as a 64-bit \<^verbatim>\<open>int\<close> does (\<open>go_int\<close>). Other \<^verbatim>\<open>int\<close>s count pods, nodes or interfaces and are unbounded.

  \<^bold>\<open>Parameters.\<close> Code outside the repository is in \<open>environment\<close>: API server, HTTP, gRPC,
  random numbers, the identifiers and settings of \<^verbatim>\<open>l2sm-switch\<close>, the JSON of third-party
  types, \<^verbatim>\<open>strconv.ParseFloat\<close>, label selectors, owner references, merging of conditions. A
  hypothesis on one of them (an accepted request, an owner reference that changes only the
  owner) is written in the statement that needs it.

  \<^bold>\<open>Not modelled.\<close> The parsing of flags and \<^verbatim>\<open>InjectDecoder\<close> (a field is stored), the
  generated deep copies (853 lines of field-by-field copying that a value of HOL needs no
  counterpart for) and the scheme, logging; \<^verbatim>\<open>Int32Ptr\<close> (a pointer to a number is the number);
  status fields nobody reads; tests, manifests and examples. Reconciliations of one controller do not overlap, as
  controller-runtime runs them by default; other actors may act between two of them, and the replies of the
  API server may reflect anything they did.
\<close>

section \<open>From the webhook to the SDN controller\<close>

lemma sanitize_overlay_nad:
  assumes "list_all unescaped (om_name (ov_meta ov))" "n \<in> nad_name ` set (buildNetworkAttachmentDefinitions ov)"
  shows "sanitize n = n"
  using assms by (auto simp: buildNetworkAttachmentDefinitions_def nad_name_overlay unescaped_numbers unescaped_def [of "CHR ''-''"]
      unescaped_def [of "CHR ''v''"] unescaped_def [of "CHR ''e''"] unescaped_def [of "CHR ''t''"] unescaped_def [of "CHR ''h''"] intro!: sanitize_unescaped simp del: upt_Suc)

lemma overlay_nad_port:
  assumes "index_of (om_name (ov_meta ov)) ''veth'' = None" "n \<in> nad_name ` set (buildNetworkAttachmentDefinitions ov)"
  shows "\<exists>i. 1 \<le> i \<and> int i \<le> ov_interface_number ov \<and> n = om_name (ov_meta ov) @ ''-veth'' @ dec i \<and> GetPortNumberFromNetAttachDef n = Inr (dec i)"
  using assms(2) GetPortNumber_of_veth [OF assms(1)]
  by (auto simp: buildNetworkAttachmentDefinitions_def nad_name_overlay nat_le_iff le_nat_iff simp del: upt_Suc)

text \<open>
  C3. What the webhook admits the controller attaches. Let the webhook patch a pod with Multus
  interfaces, the interfaces the API server listed to it being definitions of an overlay. When
  the pod is then stored and reconciled, its networks exist, the API server stores the finalizer
  and the SDN controller accepts, the reconciliation succeeds, and the ports it attached are
  one port per network, in the order of the annotation, no two of the same number, each the
  number of an interface of the overlay.
\<close>

theorem admitted_pod_is_attached:
  assumes admitted: "Handle E \<lparr>pa_namespace = ns\<rparr> (Inr p) g = (Val (Patched p'), g')" "pod_annotation p' MULTUS_ANNOTATION_KEY \<noteq> None"
    and overlay: "list_all unescaped (om_name (ov_meta ov))" "index_of (om_name (ov_meta ov)) ''veth'' = None"
      "\<forall>label nads. ListedNads ns label (Inr nads) \<in> set g' \<longrightarrow>
         distinct (map nad_name nads) \<and> nad_name ` set nads \<subseteq> nad_name ` set (buildNetworkAttachmentDefinitions ov)"
    and stored: "e_get_pod E h req = Inr q" "\<forall>k. pod_annotation q k = pod_annotation p' k" "\<not> om_deleted (pod_meta q)"
      "l2smFinalizer \<notin> set (om_finalizers (pod_meta q))" "e_update_pod E (GotPod req (Inr q) # h) (with_finalizer q) = Inr (with_finalizer q)"
    and nets: "e_list_nets E (UpdatedPod (with_finalizer q) (Inr (with_finalizer q)) # GotPod req (Inr q) # h) None = Inr items"
      "pod_annotation p L2SM_NETWORK_ANNOTATION = Some annot" "ExtractNetworks annot ns = Inr annots"
      "collect_networks (existing_networks items) annots = (networks, None)"
    and sdn: "e_url_error E (sc_base_url s @ ''/vnets/api/port'') = None"
      "\<forall>h b. e_http E h ''POST'' (sc_base_url s @ ''/vnets/api/port'') (''Basic '' @ sc_auth_token s) b = Inr 204"
  shows "\<exists>h' ports. PodController.Reconcile E (reconciler E s ns) req h = (Val None, h') \<and>
    length ports = length networks \<and> distinct ports \<and> (\<forall>i\<in>set ports. 1 \<le> i \<and> int i \<le> ov_interface_number ov) \<and>
    attached s h' = rev (map2 (\<lambda>n i. payload_json (payload (net_name n) [of_port E (pod_node q) OVERLAY_PROVIDER (dec i)])) networks ports) @
      attached s h"
proof -
  from Handle_annotated [OF admitted] obtain node annot' where "pod_annotation p L2SM_NETWORK_ANNOTATION = Some annot'"
    and "attached_pod \<lparr>pa_namespace = ns\<rparr> (p\<lparr>pod_node := node\<rparr>) annot' p' g'" by blast
  then have att: "attached_pod \<lparr>pa_namespace = ns\<rparr> (p\<lparr>pod_node := node\<rparr>) annot p' g'" using nets(2) by simp
  from att [unfolded attached_pod_def annotated_def, simplified] obtain annots' nads ms where "ExtractNetworks annot ns = Inr annots'"
    and nads: "nads = [] \<or> ListedNads ns (nad_label node) (Inr nads) \<in> set g'" "length annots' \<le> length nads"
    and ms: "pod_annotation p' MULTUS_ANNOTATION_KEY = Some (MultusAnnotationToString ms)" "map na_name ms = map nad_name (take (length annots') nads)"
      "\<forall>m\<in>set ms. na_ips m \<noteq> []"
    and "\<forall>k. k \<noteq> MULTUS_ANNOTATION_KEY \<longrightarrow> pod_annotation p' k = pod_annotation p k"
    by blast
  then have annot: "annots' = annots" "has_annotation q L2SM_NETWORK_ANNOTATION" "annotation_of q L2SM_NETWORK_ANNOTATION = annot"
    "has_annotation q MULTUS_ANNOTATION_KEY" "annotation_of q MULTUS_ANNOTATION_KEY = MultusAnnotationToString ms"
    using nets(2,3) stored(2) by (simp_all add: pod_annotation_def has_annotation_def annotation_of_def L2SM_NETWORK_ANNOTATION_def MULTUS_ANNOTATION_KEY_def)
  note nads = nads [unfolded annot(1)] and ms = ms [unfolded annot(1)]
  have "distinct (map nad_name nads) \<and> nad_name ` set nads \<subseteq> nad_name ` set (buildNetworkAttachmentDefinitions ov)"
    using nads(1) overlay(3) by (cases "nads = []") (simp, blast)
  then have names: "distinct (map na_name ms)" "set (map na_name ms) \<subseteq> nad_name ` set (buildNetworkAttachmentDefinitions ov)"
    unfolding ms(2) using set_take_subset [of "length annots" nads] by (simp_all add: distinct_take flip: take_map) (auto simp: take_map)
  have len: "length ms = length annots" using ms(2) nads(2) by (metis length_map length_take min.absorb2)
  let ?port = "\<lambda>i. om_name (ov_meta ov) @ ''-veth'' @ dec i"
  have "\<exists>i. 1 \<le> i \<and> int i \<le> ov_interface_number ov \<and> n = ?port i \<and> GetPortNumberFromNetAttachDef n = Inr (dec i)" if "n \<in> set (map na_name ms)" for n
    using overlay_nad_port [OF overlay(2)] names(2) that by blast
  then obtain f where f: "\<And>n. n \<in> set (map na_name ms) \<Longrightarrow> 1 \<le> f n \<and> int (f n) \<le> ov_interface_number ov \<and> n = ?port (f n) \<and>
      GetPortNumberFromNetAttachDef n = Inr (dec (f n))"
    by metis
  let ?ports = "map f (map na_name ms)"
  have ports: "distinct ?ports"
    using names(1) f by (subst distinct_map) (metis inj_onI)
  let ?multus = "map (\<lambda>a. (clean_annotation a)\<lparr>na_namespace := ns\<rparr>) ms"
  have clean: "sanitize (na_name m) = na_name m" if "m \<in> set ms" for m
    using sanitize_overlay_nad [OF overlay(1)] names(2) that by auto
  have bodies: "attach_bodies E (pod_node q) networks ?multus =
      map2 (\<lambda>n i. payload_json (payload (net_name n) [of_port E (pod_node q) OVERLAY_PROVIDER (dec i)])) networks ?ports"
    using f clean unfolding attach_bodies_def map_map comp_def zip_map2 attach_body_def
    by (auto simp: clean_annotation_def dest!: set_zip_rightD)
  obtain h' where "PodController.Reconcile E (reconciler E s ns) req h = (Val None, h')"
      "attached s h' = rev (attach_bodies E (pod_node (with_finalizer q)) networks ?multus) @ attached s h"
    using attach_complete [OF stored(1,3,4) annot(2,4) stored(5) _ _ _ _ nets(1,4) _ _ sdn, of ns ?multus] annot len f clean ms(3) nets(3)
    by (auto simp: clean_annotation_def ExtractNetworks_def decode_multus Let_def comp_def)
  then show ?thesis
    using bodies ports f collect_networks_ok [OF nets(4)] len
    by (intro exI [of _ h'] exI [of _ ?ports] conjI) simp_all
qed

text \<open>The pod \<open>sample_pod\<close> as the webhook patches it.\<close>

definition admitted_pod :: pod where
  "admitted_pod = sample_pod\<lparr>pod_meta := (pod_meta sample_pod)\<lparr>om_annotations := Some [L2SM_NETWORK_ANNOTATION \<mapsto> ''net'',
     MULTUS_ANNOTATION_KEY \<mapsto> MultusAnnotationToString
       [GenerateIPv6Address 0 (new_annotation\<lparr>na_name := ''ov-veth1'', na_namespace := ''l2sm''\<rparr>)]]\<rparr>\<rparr>"

definition admit_env :: environment where
  "admit_env = quiet_env\<lparr>e_list_nads := \<lambda>_ _ _. Inr [free_nad], e_list_nets := \<lambda>_ _. Inr [a_network],
     e_get_pod := \<lambda>_ _. Inr admitted_pod\<rparr>"

lemma admit_env_simps:
  "e_get_pod admit_env h k = Inr admitted_pod" "e_update_pod admit_env h v = Inr v" "e_list_nets admit_env h x = Inr [a_network]"
  "e_list_nads admit_env h a b = Inr [free_nad]" "e_url_error admit_env u = None" "e_http admit_env h m u tok bd = Inr 204"
  "e_rand64 admit_env h = 0" "e_switch_id admit_env node pv = node" "e_switch_port admit_env node pv i = node"
  "e_valid_label_key admit_env key"
  by (simp_all add: admit_env_def quiet_env_def)

lemma admit_run:
  "\<exists>g. Handle admit_env \<lparr>pa_namespace = ''l2sm''\<rparr> (Inr sample_pod) [] = (Val (Patched admitted_pod), g) \<and>
    (\<forall>label nads. ListedNads ''l2sm'' label (Inr nads) \<in> set g \<longrightarrow> nads = [free_nad])"
proof -
  have keys: "L2SM_NETWORK_ANNOTATION \<noteq> ERROR_ANNOTATION" "L2SM_NETWORK_ANNOTATION \<noteq> MULTUS_ANNOTATION_KEY"
    by (simp_all add: L2SM_NETWORK_ANNOTATION_def ERROR_ANNOTATION_def MULTUS_ANNOTATION_KEY_def)
  show ?thesis using keys
    by (simp add: Handle_def select_node_def attach_networks_def Let_def sample_pod_def pod_annotation_def new_meta_def extract_net
        GetL2NetworksMap_def GetFreeNetAttachDefs_def list_nets_def list_nads_def call_def gbind_def ret_def admit_env_simps
        existing_networks_def enumerate_eq_zip annotate_network_def nth_go_def assign_address_def a_network_def admitted_pod_def
        interface_address_def rand64_def store_assignment_def set_nad_label_def free_nad_def update_nad_def update_net_status_def
        set_annotation_def glift_def new_annotation_def)
qed

theorem admitted_pod_is_attached_witness:
  "\<exists>h'. PodController.Reconcile admit_env (reconciler admit_env ping_session ''l2sm'') (''default'', ''ping'') [] = (Val None, h') \<and>
    attached ping_session h' = [payload_json (payload ''net'' [''of:n1/1''])]"
proof -
  obtain g where g: "Handle admit_env \<lparr>pa_namespace = ''l2sm''\<rparr> (Inr sample_pod) [] = (Val (Patched admitted_pod), g)"
    "\<forall>label nads. ListedNads ''l2sm'' label (Inr nads) \<in> set g \<longrightarrow> nads = [free_nad]" using admit_run by blast
  have one: "dec (Suc 0) = ''1''" by code_simp
  have "nad_name free_nad \<in> nad_name ` set (buildNetworkAttachmentDefinitions one_node)"
    by (simp add: buildNetworkAttachmentDefinitions_def one_node_simps nad_name_overlay one) (simp add: free_nad_def new_meta_def)
  then have nads: "\<forall>label nads. ListedNads ''l2sm'' label (Inr nads) \<in> set g \<longrightarrow>
      distinct (map nad_name nads) \<and> nad_name ` set nads \<subseteq> nad_name ` set (buildNetworkAttachmentDefinitions one_node)"
    using g(2) by (intro allI impI) (drule spec, drule spec, drule (1) mp, simp)
  have "\<exists>h' ports. PodController.Reconcile admit_env (reconciler admit_env ping_session ''l2sm'') (''default'', ''ping'') [] = (Val None, h') \<and>
    length ports = length [a_network] \<and> distinct ports \<and> (\<forall>i\<in>set ports. 1 \<le> i \<and> int i \<le> ov_interface_number one_node) \<and>
    attached ping_session h' = rev (map2 (\<lambda>n i. payload_json (payload (net_name n) [of_port admit_env (pod_node admitted_pod) OVERLAY_PROVIDER (dec i)])) [a_network] ports) @
      attached ping_session []"
    by (rule admitted_pod_is_attached [OF g(1), where annot = "''net''" and items = "[a_network]"
          and annots = "[new_annotation\<lparr>na_name := ''net'', na_namespace := ''l2sm''\<rparr>]"])
      (use nads in \<open>simp_all add: admit_env_simps extract_net one_node_simps admitted_pod_def sample_pod_def pod_annotation_def new_meta_def
         existing_networks_def a_network_def new_annotation_def unescaped_def starts_with_def L2SM_NETWORK_ANNOTATION_def MULTUS_ANNOTATION_KEY_def\<close>)
  then obtain h' i where "PodController.Reconcile admit_env (reconciler admit_env ping_session ''l2sm'') (''default'', ''ping'') [] = (Val None, h')"
    "i = (1 :: nat)" "attached ping_session h' = [payload_json (payload ''net'' [of_port admit_env ''n1'' OVERLAY_PROVIDER (dec i)])]"
    by (auto simp: length_Suc_conv one_node_simps a_network_def admitted_pod_def sample_pod_def new_meta_def)
  then show ?thesis by (auto simp: of_port_def admit_env_simps one)
qed

section \<open>The switches of an overlay and the index that finds them\<close>

text \<open>The replica sets among the objects the API server accepted.\<close>

definition created_replica_sets :: "history \<Rightarrow> workload list" where
  "created_replica_sets h = List.map_filter (\<lambda>x. case x of OReplicaSet rs \<Rightarrow> Some rs | _ \<Rightarrow> None) (created h)"

lemma created_replica_sets_iff: "rs \<in> set (created_replica_sets h) \<longleftrightarrow> OReplicaSet rs \<in> set (created h)"
proof -
  have "rs \<in> set (List.map_filter (\<lambda>x. case x of OReplicaSet rs \<Rightarrow> Some rs | _ \<Rightarrow> None) xs) \<longleftrightarrow> OReplicaSet rs \<in> set xs" for xs
    by (induction xs) (auto simp: List.map_filter_def split: obj.splits)
  then show ?thesis by (simp add: created_replica_sets_def)
qed

lemma created_append: "created (es @ h) = created es @ created h"
  by (simp add: view_def List.map_filter_def)

lemma monitoring_resources_meta:
  assumes "monitoring_resources E ov tp rss = Val (Inr (rss', exp, cols))"
  shows "map wl_meta rss' = map wl_meta rss"
proof (cases "ov_monitor ov")
  case (Some m)
  show ?thesis by (rule monitoring_resources_Inr [OF assms Some]) (simp add: add_collectors_separate comp_def)
qed (use assms in \<open>simp add: monitoring_resources_def\<close>)

lemma overlay_creates_replica_set:
  assumes c: "Overlay.createExternalResources E ov h = (Val None, h')" "ov_template ov = Some t" "ov_topology ov = Some tp" "tp_nodes tp \<noteq> []"
    and own: "\<forall>m x. e_set_owner E ''Overlay'' m x = Inr (x\<lparr>om_owner := Some (apiGVStr, ''Overlay'', om_name m)\<rparr>)"
  shows "\<exists>rs. OReplicaSet rs \<in> set (created h') \<and> om_namespace (wl_meta rs) = om_namespace (ov_meta ov) \<and>
    owner_index ''Overlay'' (wl_meta rs) = [om_name (ov_meta ov)]"
proof -
  from wpD [OF wp_createExternalResources [OF c(2,3)] c(1)] obtain cm annots objs where
    annots: "length annots = length (tp_nodes tp)" and objs: "overlay_objects E ov t tp cm annots = Some objs"
    and all: "map Some (created h') = rev (map (owned E ''Overlay'' (ov_meta ov)) objs) @ map Some (created h)" by auto
  from objs obtain rss exp cols where m: "monitoring_resources E ov tp (map2 (node_replica_set ov t (om_name (cm_meta cm)) (switch_containers t)) (tp_nodes tp) annots) =
      Val (Inr (rss, exp, cols))" and rss: "objs = [OConfigMap cm] @ map ONad (buildNetworkAttachmentDefinitions ov) @ map OReplicaSet rss @
      map (OService \<circ> node_service ov) (tp_nodes tp) @ exp @ cols"
    by (auto simp: overlay_objects_def split: flow.splits sum.splits)
  obtain node nodes a as where na: "tp_nodes tp = node # nodes" "annots = a # as"
    using c(4) annots by (cases "tp_nodes tp"; cases annots) auto
  obtain rs rest where rs: "rss = rs # rest" "om_namespace (wl_meta rs) = om_namespace (ov_meta ov)"
    using monitoring_resources_meta [OF m] na by (cases rss) (auto simp: node_replica_set_def Let_def new_meta_def)
  let ?rs = "rs\<lparr>wl_meta := (wl_meta rs)\<lparr>om_owner := Some (apiGVStr, ''Overlay'', om_name (ov_meta ov))\<rparr>\<rparr>"
  have "owned E ''Overlay'' (ov_meta ov) (OReplicaSet rs) = Some (OReplicaSet ?rs)"
    using own by (simp add: owned_def SetControllerReference_def)
  moreover have "owned E ''Overlay'' (ov_meta ov) (OReplicaSet rs) \<in> set (map Some (created h'))"
    unfolding all using rss rs(1) by auto
  ultimately have "OReplicaSet ?rs \<in> set (created h')" by auto
  then show ?thesis using rs(2) by (intro exI [of _ ?rs]) (simp add: owner_index_def)
qed

lemma grows: "emits (\<lambda>e. True) f \<Longrightarrow> f h = (r, h') \<Longrightarrow> \<exists>es. h' = es @ h"
  by (auto dest: emitsD)

lemma launch_creates_replica_set:
  assumes "launch_overlay E overlay_reconciler ov h = (Val (20, None), h')" "ov_template ov = Some t" "ov_topology ov = Some tp" "tp_nodes tp \<noteq> []"
    and own: "\<forall>m x. e_set_owner E ''Overlay'' m x = Inr (x\<lparr>om_owner := Some (apiGVStr, ''Overlay'', om_name m)\<rparr>)"
  shows "\<exists>rs. OReplicaSet rs \<in> set (created h') \<and> om_namespace (wl_meta rs) = om_namespace (ov_meta ov) \<and>
    owner_index ''Overlay'' (wl_meta rs) = [om_name (ov_meta ov)]"
proof -
  let ?P = "\<lambda>h'. \<exists>rs. OReplicaSet rs \<in> set (created h') \<and> om_namespace (wl_meta rs) = om_namespace (ov_meta ov) \<and>
    owner_index ''Overlay'' (wl_meta rs) = [om_name (ov_meta ov)]"
  obtain x h1 where c: "Overlay.createExternalResources E ov h = (x, h1)" by (metis surj_pair)
  then have x: "x = Val None"
    using assms(1) by (auto simp: launch_overlay_def gbind_def ret_def split: flow.splits option.splits if_splits)
  then have P: "?P h1" using overlay_creates_replica_set [OF c [unfolded x] assms(2-4) own] by blast
  have "emits (\<lambda>e. True) (gbind (if ov_monitor ov = None then ret None else Overlay.createMonitoringNetwork E overlay_reconciler ov) (\<lambda>err. ret (case err of
           Some e \<Rightarrow> (0 :: nat, Some e) | None \<Rightarrow> (20, None))))"
    by (intro emits_intros emits_monitoring) simp_all
  moreover have "gbind (if ov_monitor ov = None then ret None else Overlay.createMonitoringNetwork E overlay_reconciler ov) (\<lambda>err. ret (case err of
           Some e \<Rightarrow> (0 :: nat, Some e) | None \<Rightarrow> (20, None))) h1 = (Val (20, None), h')"
    using assms(1) c x by (simp add: launch_overlay_def gbind_def [of "Overlay.createExternalResources E ov"])
  ultimately obtain es where "h' = es @ h1" by (blast dest: grows)
  then show ?thesis using P by (auto simp: created_append)
qed

lemma registered_overlay:
  assumes "register_overlay E ov h = (Val x, h')" "\<forall>h v. e_update_overlay E h v = Inr v"
    and "l2smFinalizer \<in> set (om_finalizers (ov_meta ov)) \<longrightarrow> ov_template ov \<noteq> None"
  shows "(\<exists>v. x = Inl (0, Some v)) \<or> (\<exists>ov'. x = Inr ov' \<and> ov_template ov' \<noteq> None \<and> ov_topology ov' = ov_topology ov \<and>
    om_name (ov_meta ov') = om_name (ov_meta ov) \<and> om_namespace (ov_meta ov') = om_namespace (ov_meta ov))"
proof (cases "l2smFinalizer \<in> set (om_finalizers (ov_meta ov))")
  case False
  show ?thesis
  proof (cases "applyOverlayDefaults (Some ov)")
    case (Inr o')
    then have "ov_template o' \<noteq> None \<and> ov_topology o' = ov_topology ov \<and> ov_meta o' = ov_meta ov"
      by (auto simp: applyOverlayDefaults_def split: option.splits sum.splits)
    moreover have "x = Inr (set_overlay_finalizers (om_finalizers (ov_meta o') @ [l2smFinalizer]) o')"
      using assms(1,2) False Inr by (simp add: register_overlay_def update_overlay_def call_def gbind_def ret_def)
    ultimately show ?thesis by (simp add: set_overlay_finalizers_def)
  qed (use assms(1) False in \<open>auto simp: register_overlay_def ret_def\<close>)
qed (use assms in \<open>auto simp: register_overlay_def ret_def\<close>)

lemma reconcile_launches:
  assumes "Overlay.Reconcile E r req h = (Val (20, None), h1)" "e_get_overlay E h req = Inr ov" "\<forall>h v. e_update_overlay E h v = Inr v"
    and "\<not> om_deleted (ov_meta ov)" "l2smFinalizer \<in> set (om_finalizers (ov_meta ov)) \<longrightarrow> ov_template ov \<noteq> None"
  shows "\<exists>ov' h0. ov_template ov' \<noteq> None \<and> ov_topology ov' = ov_topology ov \<and> om_name (ov_meta ov') = om_name (ov_meta ov) \<and>
    om_namespace (ov_meta ov') = om_namespace (ov_meta ov) \<and> launch_overlay E r ov' h0 = (Val (20, None), h1)"
proof -
  have "\<exists>x h0. register_overlay E ov (GotOverlay req (Inr ov) # h) = (Val x, h0)"
    by (simp add: register_overlay_def update_overlay_def call_def gbind_def ret_def split: sum.split)
  then obtain x h0 where g: "register_overlay E ov (GotOverlay req (Inr ov) # h) = (Val x, h0)" by blast
  have "Overlay.Reconcile E r req h = (case x of Inl v \<Rightarrow> ret v | Inr overlay \<Rightarrow>
      gbind (list_replica_sets E setOwnerKeyOverlay (fst req) (snd req)) (\<lambda>y. case y of
        Inl e \<Rightarrow> ret (0, Some e) | Inr items \<Rightarrow> if items = [] then launch_overlay E r overlay else ret (0, None))) h0"
    using assms(2,4) g by (cases x) (simp_all add: Overlay.Reconcile_def get_overlay_def call_def gbind_def setOwnerKeyOverlay_def)
  with registered_overlay [OF g assms(3,5)] assms(1) show ?thesis
    by (auto simp: ret_def gbind_def list_replica_sets_def call_def split: sum.splits if_splits)
qed

text \<open>
  C10. An overlay is created once. Once a reconciliation has created the resources of an overlay
  (it asks to be called again), the switches it created are found by the field index of the
  set-up, so a later reconciliation, whatever happened in between as long as the overlay is not
  deleted and keeps its finalizer, succeeds and creates nothing. The index is
  \<open>owner_index\<close>, which matches the owner reference that the creation puts on each object.
\<close>

theorem overlay_created_once:
  assumes index: "\<forall>h ns name. e_list_replica_sets E h setOwnerKeyOverlay ns name =
      Inr (filter (\<lambda>rs. om_namespace (wl_meta rs) = ns \<and> name \<in> set (owner_index ''Overlay'' (wl_meta rs))) (created_replica_sets h))"
    and own: "\<forall>m x. e_set_owner E ''Overlay'' m x = Inr (x\<lparr>om_owner := Some (apiGVStr, ''Overlay'', om_name m)\<rparr>)"
    and update: "\<forall>h v. e_update_overlay E h v = Inr v"
    and read: "e_get_overlay E h req = Inr ov" "req = (om_namespace (ov_meta ov), om_name (ov_meta ov))"
    and overlay: "\<not> om_deleted (ov_meta ov)" "l2smFinalizer \<in> set (om_finalizers (ov_meta ov)) \<longrightarrow> ov_template ov \<noteq> None"
      "ov_topology ov = Some tp" "tp_nodes tp \<noteq> []"
    and first: "Overlay.Reconcile E \<lparr>or_factory = Some (DefaultClientFactory E)\<rparr> req h = (Val (20, None), h1)"
    and later: "e_get_overlay E (es @ h1) req = Inr stored" "\<not> om_deleted (ov_meta stored)" "l2smFinalizer \<in> set (om_finalizers (ov_meta stored))"
  shows "\<exists>h3. Overlay.Reconcile E \<lparr>or_factory = Some (DefaultClientFactory E)\<rparr> req (es @ h1) = (Val (0, None), h3) \<and>
    created h3 = created (es @ h1)"
proof -
  obtain ov' h0 where ov': "ov_template ov' \<noteq> None" "ov_topology ov' = Some tp"
      "om_name (ov_meta ov') = snd req" "om_namespace (ov_meta ov') = fst req"
    and l: "launch_overlay E overlay_reconciler ov' h0 = (Val (20, None), h1)"
    using reconcile_launches [OF first [unfolded default_factory] read(1) update overlay(1,2)] read(2) overlay(3) by auto
  from launch_creates_replica_set [OF l _ ov'(2) overlay(4) own] ov' obtain rs where
    rs: "OReplicaSet rs \<in> set (created h1)" "om_namespace (wl_meta rs) = fst req" "owner_index ''Overlay'' (wl_meta rs) = [snd req]"
    by auto
  let ?P = "\<lambda>rs. om_namespace (wl_meta rs) = fst req \<and> snd req \<in> set (owner_index ''Overlay'' (wl_meta rs))"
  have "rs \<in> set (filter ?P (created_replica_sets (GotOverlay req (Inr stored) # es @ h1)))"
    using rs created_append [of "GotOverlay req (Inr stored) # es" h1] by (simp add: created_replica_sets_iff)
  then have "filter ?P (created_replica_sets (GotOverlay req (Inr stored) # es @ h1)) \<noteq> []" by (metis empty_iff empty_set)
  then have "Overlay.Reconcile E overlay_reconciler req (es @ h1) =
      (Val (0, None), ListedReplicaSets setOwnerKeyOverlay (fst req) (snd req) (Inr (filter ?P (created_replica_sets (GotOverlay req (Inr stored) # es @ h1)))) #
        GotOverlay req (Inr stored) # es @ h1)"
    using later index [unfolded setOwnerKeyOverlay_def]
    by (simp add: Overlay.Reconcile_def get_overlay_def register_overlay_def list_replica_sets_def call_def gbind_def ret_def setOwnerKeyOverlay_def)
  then show ?thesis unfolding default_factory by simp
qed

text \<open>An API server that accepts everything and indexes the replica sets it has.\<close>

definition indexed_env :: environment where
  "indexed_env = quiet_env\<lparr>e_get_overlay := \<lambda>_ _. Inr (one_node\<lparr>ov_monitor := None\<rparr>),
     e_set_owner := \<lambda>kind m x. Inr (x\<lparr>om_owner := Some (apiGVStr, kind, om_name m)\<rparr>),
     e_list_replica_sets := \<lambda>h field ns name. Inr (filter (\<lambda>rs. om_namespace (wl_meta rs) = ns \<and>
       name \<in> set (owner_index ''Overlay'' (wl_meta rs))) (created_replica_sets h))\<rparr>"

lemma indexed_env_simps:
  "e_create indexed_env h x = None" "e_get_overlay indexed_env h k = Inr (one_node\<lparr>ov_monitor := None\<rparr>)"
  "e_update_overlay indexed_env h v = Inr v"
  "e_set_owner indexed_env kind m om = Inr (om\<lparr>om_owner := Some (apiGVStr, kind, om_name m)\<rparr>)"
  "e_list_replica_sets indexed_env h field ns name = Inr (filter (\<lambda>rs. om_namespace (wl_meta rs) = ns \<and>
       name \<in> set (owner_index ''Overlay'' (wl_meta rs))) (created_replica_sets h))"
  by (simp_all add: indexed_env_def quiet_env_def)

lemma indexed_creates: "\<exists>h'. create_all indexed_env k ow objs h = (Val None, h')"
proof -
  have own: "\<exists>y. SetControllerReference indexed_env k ow x = Inr y" for x
    by (cases x) (simp_all add: SetControllerReference_def indexed_env_simps)
  have "\<exists>h'. create_owned indexed_env k ow ob u h = (Val (Inr ()), h')" for ob u h
    using own [of "snd ob"] by (cases ob) (auto simp: create_owned_def run_simps indexed_env_simps)
  then have step: "\<exists>h'. create_owned indexed_env k ow ob u h = (Val (Inr u), h')" for ob u h by simp
  have "\<exists>h'. gloop (create_owned indexed_env k ow) objs u h = (Val (Inr u), h')" for u
  proof (induction objs arbitrary: h)
    case (Cons ob objs)
    obtain h1 where "create_owned indexed_env k ow ob u h = (Val (Inr u), h1)" using step by blast
    then show ?case using Cons [of h1] by (simp add: gbind_def)
  qed (simp add: ret_def)
  then obtain h' where "gloop (create_owned indexed_env k ow) objs () h = (Val (Inr ()), h')" by blast
  then show ?thesis by (simp add: create_all_def gbind_def ret_def)
qed

abbreviation plain_node :: overlay where "plain_node \<equiv> one_node\<lparr>ov_monitor := None\<rparr>"

lemma indexed_launch: "\<exists>h'. launch_overlay indexed_env r plain_node h = (Val (20, None), h')"
proof -
  obtain t where t: "ov_template plain_node = Some t" "ov_topology plain_node = Some \<lparr>tp_nodes = [''a''], tp_links = []\<rparr>"
    using one_node_simps by auto
  obtain cm where cm: "buildTopologyConfigMap indexed_env plain_node = Val (Inr cm)"
    by (simp add: buildTopologyConfigMap_def one_node_def indexed_env_def quiet_env_def Let_def)
  obtain rss svcs h1 where b: "buildNodeResources indexed_env plain_node (om_name (cm_meta cm)) h = (Val (rss, svcs), h1)"
    using wpD [OF wp_buildNodeResources [OF t]] by (metis surj_pair)
  obtain h2 where "create_all indexed_env ''Overlay'' (ov_meta plain_node) (map (Pair []) ([OConfigMap cm] @
      map ONad (buildNetworkAttachmentDefinitions plain_node) @ map OReplicaSet rss @ map OService svcs @ [] @ [])) h1 = (Val None, h2)"
    using indexed_creates by blast
  then have "Overlay.createExternalResources indexed_env plain_node h = (Val None, h2)"
    using cm b t by (simp add: Overlay.createExternalResources_def gbind_def glift_def monitoring_resources_def Let_def
        del: map_append append.simps list.map)
  then show ?thesis by (simp add: launch_overlay_def gbind_def ret_def)
qed

theorem overlay_created_once_witness:
  "\<exists>h1 h3. Overlay.Reconcile indexed_env \<lparr>or_factory = Some (DefaultClientFactory indexed_env)\<rparr> (''default'', ''ov'') [] = (Val (20, None), h1) \<and>
    Overlay.Reconcile indexed_env \<lparr>or_factory = Some (DefaultClientFactory indexed_env)\<rparr> (''default'', ''ov'') h1 = (Val (0, None), h3) \<and>
    created h3 = created h1"
proof -
  let ?r = "\<lparr>or_factory = Some (DefaultClientFactory indexed_env)\<rparr>"
  obtain h1 where first: "Overlay.Reconcile indexed_env ?r (''default'', ''ov'') [] = (Val (20, None), h1)"
    using indexed_launch [of ?r] one_node_simps
    by (auto simp: Overlay.Reconcile_def get_overlay_def register_overlay_def list_replica_sets_def call_def gbind_def ret_def
        indexed_env_simps created_replica_sets_def List.map_filter_def view_def)
  have "\<exists>h3. Overlay.Reconcile indexed_env ?r (''default'', ''ov'') ([] @ h1) = (Val (0, None), h3) \<and> created h3 = created ([] @ h1)"
    by (rule overlay_created_once [OF _ _ _ _ _ _ _ _ _ first, where ov = plain_node and stored = plain_node and tp = "\<lparr>tp_nodes = [''a''], tp_links = []\<rparr>"])
      (simp_all add: indexed_env_simps one_node_simps)
  then show ?thesis using first by auto
qed

end
